(* ===== verification/Write_Queue.thy ===== *)
theory Write_Queue
  imports Prelude "HOL-Library.Sublist"
begin

text \<open>
  The serialized write queue shared by the socket transports
  (\<open>include/cppmcp/async_write_queue.hpp\<close>). Every member function is a critical section under
  \<open>mutex_\<close> followed by work outside the lock: arming the next write, calling \<open>do_write_\<close>, or
  signalling \<open>on_error_\<close>. Each critical section is one function on the record of the members;
  the work outside the lock is what another thread can come in between, so the interleaving of
  the threads is the step relation \<open>wq_step\<close> over the critical sections.
\<close>

datatype queue_overflow_policy = DropNewest | CloseOnError

record write_queue =
  wq_queue :: "string list"
  wq_queued_bytes :: "64 word"
  wq_writing :: bool
  wq_active :: bool
  wq_max :: "64 word"
  wq_policy :: queue_overflow_policy

definition data_size :: "string \<Rightarrow> 64 word" where
  "data_size d = word_of_nat (length d)"

definition make_write_queue :: "64 word \<Rightarrow> queue_overflow_policy \<Rightarrow> write_queue" where
  "make_write_queue mx p =
     \<lparr>wq_queue = [], wq_queued_bytes = 0, wq_writing = False, wq_active = True, wq_max = mx, wq_policy = p\<rparr>"

text \<open>The outcome of the locked part of \<open>enqueue\<close>: refused (returns false at once), closed
  (\<open>overflow_close\<close>: \<open>on_error_\<close> is signalled and false returned), or stored, with the flag \<open>arm\<close>.\<close>

datatype enqueue_outcome = Refused | OverflowClose | Stored bool

definition enqueue :: "string \<Rightarrow> write_queue \<Rightarrow> enqueue_outcome \<times> write_queue" where
  "enqueue d q =
     (if \<not> wq_active q then (Refused, q)
      else if wq_max q > 0 \<and> wq_queued_bytes q + data_size d > wq_max q then
        (if wq_policy q = CloseOnError
         then (OverflowClose, q\<lparr>wq_active := False, wq_writing := False\<rparr>)
         else (Refused, q))
      else
        (Stored (\<not> wq_writing q),
         q\<lparr>wq_queued_bytes := wq_queued_bytes q + data_size d, wq_queue := wq_queue q @ [d],
           wq_writing := True\<rparr>))"

text \<open>The value \<open>enqueue\<close> returns.\<close>

fun enqueue_result :: "enqueue_outcome \<Rightarrow> bool" where
  "enqueue_result (Stored _) = True"
| "enqueue_result _ = False"

definition wq_shutdown :: "write_queue \<Rightarrow> write_queue" where
  "wq_shutdown q = q\<lparr>wq_active := False, wq_queued_bytes := 0, wq_queue := []\<rparr>"

text \<open>The locked part of \<open>arm_write\<close>: the buffer to hand to \<open>do_write_\<close>, if any.\<close>

definition arm_write :: "write_queue \<Rightarrow> string option \<times> write_queue" where
  "arm_write q =
     (if \<not> wq_active q then (None, q\<lparr>wq_writing := False\<rparr>)
      else case wq_queue q of
        [] \<Rightarrow> (None, q\<lparr>wq_writing := False\<rparr>)
      | b # rest \<Rightarrow> (Some b, q\<lparr>wq_queued_bytes := wq_queued_bytes q - data_size b, wq_queue := rest\<rparr>))"

text \<open>The two branches of \<open>on_write_complete\<close>: after an error, whether \<open>on_error_\<close> is called;
  after a success, whether to arm again.\<close>

definition on_write_error :: "write_queue \<Rightarrow> bool \<times> write_queue" where
  "on_write_error q = (wq_active q, q\<lparr>wq_active := False, wq_writing := False\<rparr>)"

definition on_write_success :: "write_queue \<Rightarrow> bool \<times> write_queue" where
  "on_write_success q =
     (if wq_active q \<and> wq_queue q \<noteq> [] then (True, q) else (False, q\<lparr>wq_writing := False\<rparr>))"

lemmas wq_op_defs [queue_simps] =
  enqueue_def wq_shutdown_def arm_write_def on_write_error_def on_write_success_def


section \<open>The threads around the queue\<close>

text \<open>\<open>sys_arming\<close> counts the threads that have left a critical section with the duty to call
  \<open>arm_write\<close> and have not reached its critical section; \<open>sys_issuing\<close> holds the buffers popped by
  \<open>arm_write\<close> and not yet passed to \<open>do_write_\<close>; \<open>sys_outstanding\<close> the writes passed to \<open>do_write_\<close>
  whose completion has not run. The rest is history: the items \<open>enqueue\<close> accepted, the items
  written without error, and the number of calls of \<open>on_error_\<close>.\<close>

record wq_sys =
  sys_q :: write_queue
  sys_arming :: nat
  sys_issuing :: "string list"
  sys_outstanding :: "string list"
  sys_accepted :: "string list"
  sys_written :: "string list"
  sys_errors :: nat

definition wq_init :: "64 word \<Rightarrow> queue_overflow_policy \<Rightarrow> wq_sys" where
  "wq_init mx p = \<lparr>sys_q = make_write_queue mx p, sys_arming = 0, sys_issuing = [],
     sys_outstanding = [], sys_accepted = [], sys_written = [], sys_errors = 0\<rparr>"

definition wq_start :: "wq_sys \<Rightarrow> bool" where
  "wq_start s \<longleftrightarrow> (\<exists>mx p. s = wq_init mx p)"

definition do_enqueue :: "string \<Rightarrow> wq_sys \<Rightarrow> wq_sys" where
  "do_enqueue d s = (case enqueue d (sys_q s) of
     (Refused, q) \<Rightarrow> s\<lparr>sys_q := q\<rparr>
   | (OverflowClose, q) \<Rightarrow> s\<lparr>sys_q := q, sys_errors := sys_errors s + 1\<rparr>
   | (Stored arm, q) \<Rightarrow>
       s\<lparr>sys_q := q, sys_accepted := sys_accepted s @ [d], sys_arming := sys_arming s + (if arm then 1 else 0)\<rparr>)"

definition do_arm :: "wq_sys \<Rightarrow> wq_sys" where
  "do_arm s = (case arm_write (sys_q s) of
     (None, q) \<Rightarrow> s\<lparr>sys_q := q, sys_arming := sys_arming s - 1\<rparr>
   | (Some b, q) \<Rightarrow> s\<lparr>sys_q := q, sys_arming := sys_arming s - 1, sys_issuing := sys_issuing s @ [b]\<rparr>)"

definition do_complete :: "bool \<Rightarrow> string \<Rightarrow> wq_sys \<Rightarrow> wq_sys" where
  "do_complete ok b s =
     (let s' = s\<lparr>sys_outstanding := remove1 b (sys_outstanding s)\<rparr> in
      if ok then (case on_write_success (sys_q s) of (again, q) \<Rightarrow>
        s'\<lparr>sys_q := q, sys_written := sys_written s @ [b], sys_arming := sys_arming s + (if again then 1 else 0)\<rparr>)
      else (case on_write_error (sys_q s) of (signal, q) \<Rightarrow>
        s'\<lparr>sys_q := q, sys_errors := sys_errors s + (if signal then 1 else 0)\<rparr>))"

lemmas wq_sys_defs [queue_simps] = do_enqueue_def do_arm_def do_complete_def

text \<open>\<open>wq_work\<close> holds the steps of the threads that carry out the writes, when every write
  succeeds; \<open>wq_step\<close> adds the calls from outside and failing writes.\<close>

inductive wq_work :: "wq_sys \<Rightarrow> wq_sys \<Rightarrow> bool" where
  arm: "sys_arming s > 0 \<Longrightarrow> wq_work s (do_arm s)"
| issue: "sys_issuing s = b # rest \<Longrightarrow>
    wq_work s (s\<lparr>sys_issuing := rest, sys_outstanding := sys_outstanding s @ [b]\<rparr>)"
| complete: "b \<in> set (sys_outstanding s) \<Longrightarrow> wq_work s (do_complete True b s)"

inductive wq_step :: "wq_sys \<Rightarrow> wq_sys \<Rightarrow> bool" where
  work: "wq_work s t \<Longrightarrow> wq_step s t"
| fail: "b \<in> set (sys_outstanding s) \<Longrightarrow> wq_step s (do_complete False b s)"
| enqueue: "wq_step s (do_enqueue d s)"
| shutdown: "wq_step s (s\<lparr>sys_q := wq_shutdown (sys_q s)\<rparr>)"

inductive_cases wq_workE: "wq_work s t"
inductive_cases wq_stepE: "wq_step s t"


section \<open>The invariant\<close>

definition busy :: "wq_sys \<Rightarrow> nat" where
  "busy s = sys_arming s + length (sys_issuing s) + length (sys_outstanding s)"

definition total_size :: "string list \<Rightarrow> 64 word" where
  "total_size ds = sum_list (map data_size ds)"

definition in_flight :: "wq_sys \<Rightarrow> string list" where
  "in_flight s = sys_outstanding s @ sys_issuing s"

text \<open>At most one thread works for the queue; while the queue is active that thread exists
  exactly when \<open>writing_\<close> is set, and it exists whenever data waits; the byte count is the size
  of the waiting data; nothing accepted is lost, duplicated or reordered; an inactive queue has
  signalled at most one error.\<close>

definition wq_live :: "wq_sys \<Rightarrow> bool" where
  "wq_live s \<longleftrightarrow>
     busy s \<le> 1 \<and> (wq_writing (sys_q s) \<longleftrightarrow> busy s = 1)
   \<and> (wq_queue (sys_q s) \<noteq> [] \<longrightarrow> wq_writing (sys_q s))
   \<and> sys_accepted s = sys_written s @ in_flight s @ wq_queue (sys_q s)
   \<and> sys_errors s = 0"

definition wq_dead :: "wq_sys \<Rightarrow> bool" where
  "wq_dead s \<longleftrightarrow> busy s \<le> 1 \<and> prefix (sys_written s @ in_flight s) (sys_accepted s) \<and> sys_errors s \<le> 1"

definition wq_inv :: "wq_sys \<Rightarrow> bool" where
  "wq_inv s \<longleftrightarrow> wq_queued_bytes (sys_q s) = total_size (wq_queue (sys_q s))
   \<and> (if wq_active (sys_q s) then wq_live s else wq_dead s)"

lemma total_size_simps [simp, queue_simps]:
  "total_size [] = 0" "total_size (d # ds) = data_size d + total_size ds"
  "total_size (ds @ es) = total_size ds + total_size es"
  by (simp_all add: total_size_def)


lemma busy_le_1_cases:
  assumes "busy s \<le> 1" "busy s > 0"
  obtains (arming) "sys_arming s = 1" "sys_issuing s = []" "sys_outstanding s = []"
  | (issuing) b where "sys_arming s = 0" "sys_issuing s = [b]" "sys_outstanding s = []"
  | (outstanding) b where "sys_arming s = 0" "sys_issuing s = []" "sys_outstanding s = [b]"
  using assms unfolding busy_def
  by (cases "sys_issuing s"; cases "sys_outstanding s"; cases "sys_arming s") auto

lemma wq_live_dead: "wq_live s \<Longrightarrow> wq_dead s"
  by (auto simp: wq_live_def wq_dead_def prefix_def intro!: exI [of _ "wq_queue (sys_q s)"])

lemma wq_inv_dead: "wq_inv s \<Longrightarrow> wq_dead s"
  by (auto simp: wq_inv_def wq_live_dead split: if_splits)

lemma arming_alone:
  assumes "wq_inv s" "sys_arming s > 0"
  shows "sys_arming s = 1" "sys_issuing s = []" "sys_outstanding s = []"
proof -
  have "busy s \<le> 1"
    using wq_inv_dead [OF assms(1)] by (simp add: wq_dead_def)
  with assms(2) show "sys_arming s = 1" "sys_issuing s = []" "sys_outstanding s = []"
    unfolding length_0_conv [symmetric] busy_def by linarith+
qed

lemma outstanding_alone:
  assumes "wq_inv s" "b \<in> set (sys_outstanding s)"
  shows "sys_arming s = 0" "sys_issuing s = []" "sys_outstanding s = [b]"
proof -
  have b: "busy s \<le> 1"
    using wq_inv_dead [OF assms(1)] by (simp add: wq_dead_def)
  then have "length (sys_outstanding s) \<le> 1"
    by (simp add: busy_def)
  with assms(2) show o: "sys_outstanding s = [b]"
    by (cases "sys_outstanding s") auto
  show "sys_arming s = 0" "sys_issuing s = []"
    using b o by (auto simp: busy_def)
qed

lemmas inv_simps = wq_inv_def wq_live_def wq_dead_def busy_def in_flight_def

lemma wq_inv_start: "wq_start s \<Longrightarrow> wq_inv s"
  by (auto simp: wq_start_def wq_init_def inv_simps make_write_queue_def)

lemma wq_inv_arm:
  assumes inv: "wq_inv s" and a: "sys_arming s > 0"
  shows "wq_inv (do_arm s)"
proof (cases "wq_active (sys_q s)")
  case True
  with inv arming_alone [OF inv a] show ?thesis
    by (cases "wq_queue (sys_q s)") (simp_all add: inv_simps queue_simps)
next
  case False
  with inv arming_alone [OF inv a] show ?thesis
    by (simp add: inv_simps queue_simps)
qed

lemma wq_inv_issue:
  "wq_inv s \<Longrightarrow> sys_issuing s = b # rest \<Longrightarrow>
   wq_inv (s\<lparr>sys_issuing := rest, sys_outstanding := sys_outstanding s @ [b]\<rparr>)"
  by (cases "wq_active (sys_q s)") (auto simp: inv_simps)

lemma wq_inv_complete:
  assumes inv: "wq_inv s" and b: "b \<in> set (sys_outstanding s)"
  shows "wq_inv (do_complete ok b s)"
proof (cases ok)
  case True
  with inv outstanding_alone [OF inv b] show ?thesis
    by (cases "wq_active (sys_q s)") (simp_all add: inv_simps queue_simps)
next
  case False
  with wq_inv_dead [OF inv] inv show ?thesis
    by (cases "wq_active (sys_q s)")
      (auto simp: inv_simps queue_simps outstanding_alone [OF inv b] dest: append_prefixD)
qed

lemma wq_inv_enqueue:
  assumes inv: "wq_inv s"
  shows "wq_inv (do_enqueue d s)"
proof (cases "wq_active (sys_q s)")
  case True
  have "wq_dead s"
    by (rule wq_inv_dead [OF inv])
  moreover have "sys_issuing s = [] \<and> sys_outstanding s = []" if "\<not> wq_writing (sys_q s)"
    using inv True that by (auto simp: wq_inv_def wq_live_def busy_def le_Suc_eq)
  ultimately show ?thesis
    using inv True by (cases "wq_writing (sys_q s)") (auto simp: inv_simps queue_simps)
next
  case False
  with inv show ?thesis
    by (simp add: queue_simps)
qed

lemma wq_inv_shutdown:
  assumes inv: "wq_inv s"
  shows "wq_inv (s\<lparr>sys_q := wq_shutdown (sys_q s)\<rparr>)"
  using wq_inv_dead [OF inv] by (simp add: inv_simps queue_simps)

lemmas wq_inv_intros = wq_inv_arm wq_inv_issue wq_inv_complete wq_inv_enqueue wq_inv_shutdown

lemma wq_inv_work: "wq_work s t \<Longrightarrow> wq_inv s \<Longrightarrow> wq_inv t"
  by (erule wq_workE) (auto intro: wq_inv_intros)

interpretation wq: invariant_system wq_start wq_step wq_inv
  by unfold_locales (auto intro: wq_inv_start wq_inv_intros wq_inv_work elim!: wq_stepE)


section \<open>Progress\<close>

text \<open>The work left: three steps (arm, issue, complete) for each waiting item, and what remains
  of the item in progress.\<close>

definition work_left :: "wq_sys \<Rightarrow> nat" where
  "work_left s = 3 * length (wq_queue (sys_q s)) + sys_arming s
     + 3 * length (sys_issuing s) + 2 * length (sys_outstanding s)"

lemma work_step_exists: "busy s > 0 \<Longrightarrow> \<exists>t. wq_work s t"
  unfolding busy_def by (metis add_is_0 gr0I length_0_conv list.exhaust list.set_intros(1) wq_work.intros)

lemma work_keeps_active:
  "wq_work s t \<Longrightarrow> wq_active (sys_q t) = wq_active (sys_q s) \<and> sys_accepted t = sys_accepted s"
  by (erule wq_workE) (auto simp: queue_simps split: list.splits if_splits)

lemma work_decreases:
  assumes "wq_work s t" "wq_inv s"
  shows "work_left t < work_left s"
  using assms
proof cases
  case arm
  then show ?thesis
    by (auto simp: work_left_def queue_simps split: list.splits if_splits)
next
  case (complete b)
  then show ?thesis
    using outstanding_alone [OF assms(2), of b] by (auto simp: work_left_def queue_simps)
qed (auto simp: work_left_def)

lemma idle_live:
  "wq_inv s \<Longrightarrow> wq_active (sys_q s) \<Longrightarrow> busy s = 0 \<Longrightarrow>
   wq_queue (sys_q s) = [] \<and> \<not> wq_writing (sys_q s) \<and> sys_written s = sys_accepted s"
  by (auto simp: inv_simps)

lemma work_drains:
  "wq_inv s \<Longrightarrow> wq_active (sys_q s) \<Longrightarrow>
   \<exists>t. wq_work\<^sup>*\<^sup>* s t \<and> wq_inv t \<and> busy t = 0 \<and> wq_active (sys_q t) \<and> sys_accepted t = sys_accepted s"
proof (induction s rule: measure_induct_rule [where f = work_left])
  case (less s)
  show ?case
  proof (cases "busy s = 0")
    case True
    with less.prems show ?thesis by blast
  next
    case False
    then obtain t where st: "wq_work s t"
      using work_step_exists by auto
    have "work_left t < work_left s" "wq_inv t" "wq_active (sys_q t)" "sys_accepted t = sys_accepted s"
      using st less.prems work_decreases work_keeps_active wq_inv_work by auto
    with less.IH [of t] st show ?thesis
      by (metis converse_rtranclp_into_rtranclp)
  qed
qed


section \<open>Backpressure\<close>

definition total_length :: "string list \<Rightarrow> nat" where
  "total_length ds = sum_list (map length ds)"

lemma total_length_simps [simp]:
  "total_length [] = 0" "total_length (d # ds) = length d + total_length ds"
  "total_length (ds @ es) = total_length ds + total_length es"
  by (simp_all add: total_length_def)

lemma total_size_word: "total_size ds = word_of_nat (total_length ds)"
  by (induction ds) (simp_all add: data_size_def)

lemma over_limit_iff:
  assumes "wq_queued_bytes q = total_size (wq_queue q)" "total_length (wq_queue q) + length d < 2 ^ 64"
  shows "wq_queued_bytes q + data_size d > wq_max q \<longleftrightarrow> total_length (wq_queue q) + length d > unat (wq_max q)"
proof -
  have "wq_queued_bytes q + data_size d = word_of_nat (total_length (wq_queue q) + length d)"
    by (simp add: assms(1) total_size_word data_size_def)
  moreover have "unat (word_of_nat (total_length (wq_queue q) + length d) :: 64 word)
      = total_length (wq_queue q) + length d"
    using assms(2) by (simp add: unsigned_of_nat take_bit_nat_eq_self del: of_nat_add)
  ultimately show ?thesis
    by (simp only: word_less_nat_alt)
qed


section \<open>Example run\<close>

text \<open>One item is accepted and armed, then a second one is accepted.\<close>

definition wq_example :: wq_sys where
  "wq_example = do_enqueue ''b'' (do_arm (do_enqueue ''a'' (wq_init 0 DropNewest)))"

lemma wq_example_eval:
  "wq_example = \<lparr>sys_q = \<lparr>wq_queue = [''b''], wq_queued_bytes = 1, wq_writing = True, wq_active = True,
     wq_max = 0, wq_policy = DropNewest\<rparr>, sys_arming = 0, sys_issuing = [''a''], sys_outstanding = [],
     sys_accepted = [''a'', ''b''], sys_written = [], sys_errors = 0\<rparr>"
  by (simp add: wq_example_def wq_init_def make_write_queue_def queue_simps data_size_def)

lemma wq_example_reachable: "wq_step\<^sup>*\<^sup>* (wq_init 0 DropNewest) wq_example"
proof -
  let ?a = "do_enqueue ''a'' (wq_init 0 DropNewest)"
  have "wq_step (wq_init 0 DropNewest) ?a" "wq_step (do_arm ?a) wq_example"
    unfolding wq_example_def by (rule wq_step.enqueue)+
  moreover have "wq_step ?a (do_arm ?a)"
    by (rule wq_step.work, rule wq_work.arm)
      (simp add: wq_init_def make_write_queue_def queue_simps)
  ultimately show ?thesis
    by (meson converse_rtranclp_into_rtranclp rtranclp.rtrancl_refl)
qed

lemma wq_start_init [simp]: "wq_start (wq_init mx p)"
  by (auto simp: wq_start_def)


section \<open>Properties\<close>

text \<open>C4: however the callers of \<open>enqueue\<close> and \<open>shutdown\<close>, the threads that arm writes and the
  completions of writes interleave, at most one write is outstanding, at most one thread is on
  its way to issue one, and never both; \<open>on_error_\<close> is called at most once, and only when the
  queue has become inactive.\<close>

theorem one_outstanding_write:
  "wq_start s \<Longrightarrow> wq_step\<^sup>*\<^sup>* s t \<Longrightarrow>
   sys_arming t + length (sys_issuing t) + length (sys_outstanding t) \<le> 1
   \<and> sys_errors t \<le> (if wq_active (sys_q t) then 0 else 1)"
  using wq.reachable_inv [of s t] by (cases "wq_active (sys_q t)") (auto simp: inv_simps)

theorem one_outstanding_write_witness:
  "sys_arming wq_example + length (sys_issuing wq_example) + length (sys_outstanding wq_example) \<le> 1
   \<and> sys_errors wq_example \<le> (if wq_active (sys_q wq_example) then 0 else 1)"
  by (rule one_outstanding_write [OF wq_start_init wq_example_reachable])

text \<open>bytes reach the descriptor in the order in which \<open>enqueue\<close> accepted them: the items
  written are at every moment an initial part of the items accepted, and while the queue is
  active what is written, what is in flight and what waits are together exactly what was
  accepted. The counter \<open>queued_bytes_\<close> is the total size of what waits.\<close>

theorem writes_are_fifo:
  "wq_start s \<Longrightarrow> wq_step\<^sup>*\<^sup>* s t \<Longrightarrow>
   prefix (sys_written t) (sys_accepted t)
   \<and> (wq_active (sys_q t) \<longrightarrow>
        sys_accepted t = sys_written t @ sys_outstanding t @ sys_issuing t @ wq_queue (sys_q t))
   \<and> wq_queued_bytes (sys_q t) = total_size (wq_queue (sys_q t))"
  using wq.reachable_inv [of s t] wq_inv_dead [of t]
  by (cases "wq_active (sys_q t)") (auto simp: inv_simps dest: append_prefixD)

theorem writes_are_fifo_witness:
  "[''a'', ''b''] = sys_written wq_example @ sys_outstanding wq_example @ sys_issuing wq_example
     @ wq_queue (sys_q wq_example)"
  using writes_are_fifo [OF wq_start_init wq_example_reachable] by (simp add: wq_example_eval)

text \<open>no wake-up is lost. From every reachable state of an active queue the threads that
  carry out writes can, without any further call, run on until everything accepted has been
  written and the queue is idle and ready to be armed again; every step they take brings them
  nearer to it, so that they cannot run forever.\<close>

theorem active_queue_drains:
  "wq_start s \<Longrightarrow> wq_step\<^sup>*\<^sup>* s t \<Longrightarrow> wq_active (sys_q t) \<Longrightarrow>
   (\<exists>u. wq_work\<^sup>*\<^sup>* t u \<and> sys_written u = sys_accepted t \<and> wq_queue (sys_q u) = []
        \<and> \<not> wq_writing (sys_q u) \<and> wq_active (sys_q u))
   \<and> (\<forall>u. wq_work t u \<longrightarrow> work_left u < work_left t)"
  using wq.reachable_inv [of s t] work_drains [of t] idle_live work_decreases by metis

theorem active_queue_drains_witness:
  "\<exists>u. wq_work\<^sup>*\<^sup>* wq_example u \<and> sys_written u = [''a'', ''b''] \<and> wq_queue (sys_q u) = []"
  using active_queue_drains [OF wq_start_init wq_example_reachable] by (auto simp: wq_example_eval)

text \<open>backpressure. As long as the byte count does not exceed what a \<open>size_t\<close> holds, an
  active queue takes an item exactly when it is unbounded or the item fits in
  \<open>max_queued_bytes_\<close> together with what waits; the stored data then stays within the bound.
  Otherwise the item is dropped with the queue unchanged, or, with the policy \<open>CloseOnError\<close>, the queue
  becomes inactive and can take nothing more.\<close>

theorem enqueue_backpressure:
  assumes "wq_queued_bytes q = total_size (wq_queue q)"
    and "total_length (wq_queue q) + length d < 2 ^ 64"
  shows "(enqueue_result (fst (enqueue d q)) \<longleftrightarrow>
            wq_active q \<and> (wq_max q = 0 \<or> total_length (wq_queue q) + length d \<le> unat (wq_max q)))
    \<and> wq_queue (snd (enqueue d q)) = wq_queue q @ (if enqueue_result (fst (enqueue d q)) then [d] else [])
    \<and> (\<not> enqueue_result (fst (enqueue d q)) \<longrightarrow>
         snd (enqueue d q) = q
         \<or> wq_policy q = CloseOnError
           \<and> (\<forall>e. \<not> enqueue_result (fst (enqueue e (snd (enqueue d q))))))"
  using over_limit_iff [OF assms] by (auto simp: enqueue_def word_gt_0 not_less)

theorem enqueue_backpressure_witness:
  "enqueue_result (fst (enqueue ''abc'' (make_write_queue 4 DropNewest)))
   \<and> \<not> enqueue_result (fst (enqueue ''abcde'' (make_write_queue 4 DropNewest)))"
  using enqueue_backpressure [of "make_write_queue 4 DropNewest" "''abc''"]
    enqueue_backpressure [of "make_write_queue 4 DropNewest" "''abcde''"]
  by (simp add: make_write_queue_def)

end
