(* ===== verification/Ord_Map.thy ===== *)
theory Ord_Map
  imports Prelude
begin

text \<open>
  \<open>std::map\<close> as an association list in ascending key order. Iterating over the C++ map
  visits the entries in this order, which the sources rely on (list responses, template
  matching, serialised JSON objects). The locales state the contract of a map that the
  components use; the association lists are its provider.
\<close>

section \<open>The operations\<close>

fun oset :: "'k::linorder \<Rightarrow> 'v \<Rightarrow> ('k \<times> 'v) list \<Rightarrow> ('k \<times> 'v) list" where
  "oset k v [] = [(k, v)]"
| "oset k v ((k', v') # m) =
     (if k < k' then (k, v) # (k', v') # m
      else if k = k' then (k, v) # m
      else (k', v') # oset k v m)"

definition oerase :: "'k \<Rightarrow> ('k \<times> 'v) list \<Rightarrow> ('k \<times> 'v) list" where
  "oerase k m = filter (\<lambda>(k', _). k' \<noteq> k) m"

definition ohas :: "('k \<times> 'v) list \<Rightarrow> 'k \<Rightarrow> bool" where
  "ohas m k \<longleftrightarrow> map_of m k \<noteq> None"

definition osorted :: "('k::linorder \<times> 'v) list \<Rightarrow> bool" where
  "osorted m \<longleftrightarrow> sorted_wrt (<) (map fst m)"

text \<open>\<open>if (x) j[k] = *x;\<close> and the brace initialiser of an object.\<close>

definition oset_opt :: "'k::linorder \<Rightarrow> 'v option \<Rightarrow> ('k \<times> 'v) list \<Rightarrow> ('k \<times> 'v) list" where
  "oset_opt k w m = (case w of None \<Rightarrow> m | Some v \<Rightarrow> oset k v m)"

definition omap_of_list :: "('k::linorder \<times> 'v) list \<Rightarrow> ('k \<times> 'v) list" where
  "omap_of_list kvs = fold (\<lambda>(k, v). oset k v) kvs []"


section \<open>The contract of a map\<close>

locale key_map =
  fixes mempty :: "'m"
    and mset :: "'k \<Rightarrow> 'v \<Rightarrow> 'm \<Rightarrow> 'm"
    and merase :: "'k \<Rightarrow> 'm \<Rightarrow> 'm"
    and mget :: "'m \<Rightarrow> 'k \<Rightarrow> 'v option"
    and minv :: "'m \<Rightarrow> bool"
  assumes get_empty: "mget mempty k = None"
    and get_set: "mget (mset k v m) k' = (if k' = k then Some v else mget m k')"
    and get_erase: "mget (merase k m) k' = (if k' = k then None else mget m k')"
    and inv_empty: "minv mempty"
    and inv_set: "minv m \<Longrightarrow> minv (mset k v m)"
    and inv_erase: "minv m \<Longrightarrow> minv (merase k m)"
begin

lemma set_erase_get: "mget m k = None \<Longrightarrow> mget (merase k (mset k v m)) = mget m"
  by (auto simp: get_set get_erase fun_eq_iff)

lemma set_set_get: "mget (mset k v (mset k w m)) = mget (mset k v m)"
  by (auto simp: get_set fun_eq_iff)

lemma set_comm_get: "k \<noteq> k' \<Longrightarrow> mget (mset k v (mset k' w m)) = mget (mset k' w (mset k v m))"
  by (auto simp: get_set fun_eq_iff)

lemma dom_set: "dom (mget (mset k v m)) = insert k (dom (mget m))"
  by (auto simp: dom_def get_set)

lemma dom_erase: "dom (mget (merase k m)) = dom (mget m) - {k}"
  by (auto simp: dom_def get_erase)

end

locale sized_map = key_map +
  fixes msize :: "'m \<Rightarrow> nat"
  assumes size_empty: "msize mempty = 0"
    and size_set: "minv m \<Longrightarrow> msize (mset k v m) = (if mget m k = None then Suc (msize m) else msize m)"
    and size_erase: "minv m \<Longrightarrow> msize (merase k m) = (if mget m k = None then msize m else msize m - 1)"
begin

lemma size_set_bound: "minv m \<Longrightarrow> msize m < cap \<Longrightarrow> msize (mset k v m) \<le> cap"
  by (simp add: size_set)

lemma size_erase_le: "minv m \<Longrightarrow> msize (merase k m) \<le> msize m"
  by (simp add: size_erase)

end


section \<open>Association lists provide the contract\<close>

lemma map_of_oset: "map_of (oset k v m) k' = (if k' = k then Some v else map_of m k')"
  by (induction m) auto

lemma map_of_oerase: "map_of (oerase k m) k' = (if k' = k then None else map_of m k')"
  by (induction m) (auto simp: oerase_def)

lemma keys_oset: "set (map fst (oset k v m)) = insert k (set (map fst m))"
  by (induction k v m rule: oset.induct) (simp_all add: insert_commute)

lemma osorted_Nil [simp]: "osorted []"
  by (simp add: osorted_def)

lemma osorted_Cons:
  "osorted ((k, v) # m) \<longleftrightarrow> (\<forall>k' \<in> set (map fst m). k < k') \<and> osorted m"
  by (auto simp: osorted_def)

lemma osorted_oset: "osorted m \<Longrightarrow> osorted (oset k v m)"
proof (induction m)
  case Nil
  then show ?case by (simp add: osorted_def)
next
  case (Cons p m)
  obtain a b where p: "p = (a, b)" by (cases p)
  consider "k < a" | "k = a" | "a < k" by (rule linorder_cases)
  then show ?case
  proof cases
    case 3
    with Cons p show ?thesis
      using keys_oset [of k v m] by (auto simp: osorted_Cons)
  qed (use Cons p in \<open>auto simp: osorted_Cons\<close>)
qed

lemma osorted_oerase: "osorted m \<Longrightarrow> osorted (oerase k m)"
  by (induction m) (auto simp: oerase_def osorted_Cons)

lemma osorted_distinct: "osorted m \<Longrightarrow> distinct (map fst m)"
  by (simp add: osorted_def strict_sorted_iff)

lemma length_oset: "osorted m \<Longrightarrow> length (oset k v m) = (if map_of m k = None then Suc (length m) else length m)"
proof (induction m)
  case Nil
  then show ?case by simp
next
  case (Cons p m)
  obtain a b where p: "p = (a, b)" by (cases p)
  have "map_of m k = None" if "k < a"
    using Cons.prems p that by (force simp: osorted_Cons map_of_eq_None_iff)
  with Cons p show ?case by (auto simp: osorted_Cons)
qed

lemma oerase_absent: "map_of m k = None \<Longrightarrow> oerase k m = m"
  by (induction m) (auto simp: oerase_def split: if_splits)

lemma length_oerase:
  "osorted m \<Longrightarrow> length (oerase k m) = (if map_of m k = None then length m else length m - 1)"
proof (induction m)
  case Nil
  then show ?case by (simp add: oerase_def)
next
  case (Cons p m)
  obtain a b where p: "p = (a, b)" by (cases p)
  show ?case
  proof (cases "a = k")
    case True
    with Cons.prems p have "map_of m k = None"
      by (force simp: osorted_Cons map_of_eq_None_iff)
    with True p show ?thesis by (simp add: oerase_def oerase_absent [unfolded oerase_def])
  next
    case False
    have "map_of m k \<noteq> None \<Longrightarrow> 0 < length m" by (cases m) auto
    with False Cons p show ?thesis by (auto simp: oerase_def osorted_Cons)
  qed
qed

interpretation om: sized_map "[]" oset oerase map_of osorted length
  by unfold_locales
    (simp_all add: map_of_oset map_of_oerase osorted_oset osorted_oerase length_oset length_oerase)

declare om.get_set [simp, json_simps] om.get_erase [simp, json_simps]

lemma ohas_oset [simp]: "ohas (oset k v m) k' \<longleftrightarrow> k' = k \<or> ohas m k'"
  by (simp add: ohas_def)

text \<open>The first present of two optional values.\<close>

definition opt_else :: "'v option \<Rightarrow> 'v option \<Rightarrow> 'v option" where
  "opt_else w d = (case w of None \<Rightarrow> d | Some v \<Rightarrow> Some v)"

lemma opt_else_simps [simp, json_simps]:
  "opt_else None d = d" "opt_else (Some v) d = Some v" "opt_else w None = w"
  by (simp_all add: opt_else_def split: option.splits)

lemma map_of_oset_opt_same [simp, json_simps]:
  "map_of (oset_opt k w m) k = opt_else w (map_of m k)"
  by (auto simp: oset_opt_def opt_else_def split: option.splits)

lemma map_of_oset_opt_other [simp, json_simps]:
  "k' \<noteq> k \<Longrightarrow> map_of (oset_opt k w m) k' = map_of m k'"
  by (auto simp: oset_opt_def split: option.splits)

lemma osorted_oset_opt: "osorted m \<Longrightarrow> osorted (oset_opt k w m)"
  by (auto simp: oset_opt_def osorted_oset split: option.splits)

lemma osorted_fold_oset: "osorted m \<Longrightarrow> osorted (fold (\<lambda>(k, v). oset k v) kvs m)"
  by (induction kvs arbitrary: m) (auto simp: osorted_oset)

lemma osorted_omap_of_list: "osorted (omap_of_list kvs)"
  by (simp add: omap_of_list_def osorted_fold_oset)

lemma map_of_omap_of_list_Nil [simp, json_simps]: "omap_of_list [] = []"
  by (simp add: omap_of_list_def)

lemma map_of_fold_oset:
  "map_of (fold (\<lambda>(k, v). oset k v) kvs m) k =
     (case map_of (rev kvs) k of None \<Rightarrow> map_of m k | Some v \<Rightarrow> Some v)"
  by (induction kvs arbitrary: m) (auto simp: map_of_append map_add_def split: option.splits)

lemma map_of_omap_of_list [simp, json_simps]:
  "map_of (omap_of_list kvs) k = map_of (rev kvs) k"
  by (simp add: omap_of_list_def map_of_fold_oset split: option.splits)

text \<open>Two maps in key order with the same lookups are the same list of entries.\<close>

lemma osorted_ext: "osorted m \<Longrightarrow> osorted n \<Longrightarrow> map_of m = map_of n \<Longrightarrow> m = n"
proof (induction m arbitrary: n)
  case Nil
  then show ?case by (cases n) (auto simp: fun_eq_iff split: if_splits)
next
  case (Cons p m)
  obtain a b where p: "p = (a, b)" by (cases p)
  obtain q n' where n: "n = q # n'"
    using Cons.prems(3) p by (cases n) (auto simp: fun_eq_iff split: if_splits)
  obtain c d where q: "q = (c, d)" by (cases q)
  have key: "c = a"
  proof (rule ccontr)
    assume "c \<noteq> a"
    have "map_of n a = Some b" "map_of ((a, b) # m) c = Some d"
      using Cons.prems(3) p n q by (auto simp: fun_eq_iff split: if_splits)
    then have "a \<in> fst ` set n'" "c \<in> fst ` set m"
      using \<open>c \<noteq> a\<close> n q by (auto dest!: map_of_SomeD intro: rev_image_eqI)
    with Cons.prems p n q have "a < c" "c < a" by (auto simp: osorted_Cons)
    then show False by simp
  qed
  have absent: "map_of m a = None" "map_of n' a = None"
    using Cons.prems p n q key by (force simp: osorted_Cons map_of_eq_None_iff)+
  have "map_of m = map_of n'"
    using Cons.prems(3) p n q key absent by (metis fun_upd_same fun_upd_triv fun_upd_upd map_of.simps(2) fst_conv)
  moreover have "b = d"
    using Cons.prems(3) p n q key by (auto simp: fun_eq_iff split: if_splits)
  ultimately show ?case
    using Cons.IH [of n'] Cons.prems p n q key by (auto simp: osorted_Cons)
qed

end
