(* ===== verification/Cpp_Double.thy ===== *)
theory Cpp_Double
  imports Prelude
begin

text \<open>
  The C++ \<open>double\<close> as its IEEE 754 binary64 bit pattern. The sources only move doubles
  around (progress values, priorities), compare them inside JSON equality, and convert
  between them and integers; these are the operations modelled. Conversion from an integer
  rounds to nearest, ties to even. Conversion to an integer truncates; it is undefined in
  C++ when the truncated value does not fit, so \<open>double_trunc\<close> gives the mathematical
  integer and the callers check the range.
\<close>

type_synonym double = "64 word"

definition double_exp :: "double \<Rightarrow> nat" where
  "double_exp d = (unat d div 2 ^ 52) mod 2048"

definition double_frac :: "double \<Rightarrow> nat" where
  "double_frac d = unat d mod 2 ^ 52"

definition double_neg :: "double \<Rightarrow> bool" where
  "double_neg d \<longleftrightarrow> 2 ^ 63 \<le> unat d"

definition double_is_nan :: "double \<Rightarrow> bool" where
  "double_is_nan d \<longleftrightarrow> double_exp d = 2047 \<and> double_frac d \<noteq> 0"

definition double_is_zero :: "double \<Rightarrow> bool" where
  "double_is_zero d \<longleftrightarrow> double_exp d = 0 \<and> double_frac d = 0"

definition double_eq :: "double \<Rightarrow> double \<Rightarrow> bool" where
  "double_eq a b \<longleftrightarrow> \<not> double_is_nan a \<and> \<not> double_is_nan b \<and>
     (a = b \<or> double_is_zero a \<and> double_is_zero b)"

fun nlog2 :: "nat \<Rightarrow> nat" where
  "nlog2 n = (if n < 2 then 0 else Suc (nlog2 (n div 2)))"

declare nlog2.simps [simp del]

definition nat_to_double_bits :: "nat \<Rightarrow> nat" where
  "nat_to_double_bits n =
     (if n = 0 then 0
      else let e = nlog2 n in
        if e \<le> 52 then (1023 + e) * 2 ^ 52 + (n * 2 ^ (52 - e) - 2 ^ 52)
        else let sh = e - 52; q = n div 2 ^ sh; r = n mod 2 ^ sh; h = 2 ^ (sh - 1);
                 q' = (if h < r \<or> r = h \<and> odd q then q + 1 else q)
             in (1023 + e) * 2 ^ 52 + (q' - 2 ^ 52))"

definition int_to_double :: "int \<Rightarrow> double" where
  "int_to_double i =
     (if i < 0 then word_of_nat (2 ^ 63 + nat_to_double_bits (nat (- i)))
      else word_of_nat (nat_to_double_bits (nat i)))"

definition double_trunc :: "double \<Rightarrow> int option" where
  "double_trunc d =
     (let e = double_exp d; f = double_frac d;
          m = (if e = 0 then f else f + 2 ^ 52); e' = (if e = 0 then 1 else e);
          a = (if 1075 \<le> e' then m * 2 ^ (e' - 1075) else m div 2 ^ (1075 - e'))
      in if e = 2047 then None else Some (if double_neg d then - int a else int a))"

lemma double_eq_sym: "double_eq a b \<longleftrightarrow> double_eq b a"
  by (auto simp: double_eq_def)

lemma double_eq_refl: "\<not> double_is_nan a \<Longrightarrow> double_eq a a"
  by (simp add: double_eq_def)

lemma nlog2_bounds: "0 < n \<Longrightarrow> 2 ^ nlog2 n \<le> n \<and> n < 2 ^ Suc (nlog2 n)"
proof (induction n rule: nlog2.induct)
  case (1 n)
  show ?case
  proof (cases "n < 2")
    case True
    with 1 show ?thesis by (subst (1 2) nlog2.simps) simp
  next
    case False
    with 1 have "2 ^ nlog2 (n div 2) \<le> n div 2" "n div 2 < 2 ^ Suc (nlog2 (n div 2))"
      by auto
    with False show ?thesis by (subst (1 2) nlog2.simps) auto
  qed
qed

lemma nlog2_less: "n < 2 ^ k \<Longrightarrow> 0 < n \<Longrightarrow> nlog2 n < k"
  using nlog2_bounds [of n] by (metis le_less_trans nat_power_less_imp_less zero_less_numeral)

lemma split_fraction:
  assumes "f < (2 :: nat) ^ 52"
  shows "(a * 2 ^ 52 + f) div 2 ^ 52 = a" and "(a * 2 ^ 52 + f) mod 2 ^ 52 = f"
  using assms by (simp_all only: div_mult_self3 mod_mult_self3 power_not_zero) simp_all

text \<open>Integers of at most 53 bits survive the conversion to \<open>double\<close> and back.\<close>

lemma double_trunc_int_to_double_nat:
  assumes "0 < n" and "n < 2 ^ 53"
  shows "double_trunc (int_to_double (int n)) = Some (int n)"
proof -
  let ?e = "nlog2 n" and ?f = "n * 2 ^ (52 - nlog2 n) - 2 ^ 52"
  have e: "?e \<le> 52" using nlog2_less [OF assms(2,1)] by simp
  have b: "2 ^ ?e \<le> n" "n < 2 ^ Suc ?e" using nlog2_bounds [OF assms(1)] by auto
  have lo: "2 ^ 52 \<le> n * 2 ^ (52 - ?e)"
  proof -
    have "(2::nat) ^ 52 = 2 ^ ?e * 2 ^ (52 - ?e)"
      using e by (metis le_add_diff_inverse power_add)
    also have "\<dots> \<le> n * 2 ^ (52 - ?e)" using b(1) by (rule mult_right_mono) simp
    finally show ?thesis .
  qed
  have hi: "n * 2 ^ (52 - ?e) < 2 ^ 53"
  proof -
    have "n * 2 ^ (52 - ?e) < 2 ^ Suc ?e * 2 ^ (52 - ?e)" using b(2) by (rule mult_strict_right_mono) simp
    also have "\<dots> = 2 ^ (Suc ?e + (52 - ?e))" by (simp only: power_add)
    also have "Suc ?e + (52 - ?e) = 53" using e by simp
    finally show ?thesis .
  qed
  have f: "?f < 2 ^ 52" using lo hi by simp
  let ?w = "(1023 + ?e) * 2 ^ 52 + ?f"
  have w: "?w < 2 ^ 63"
  proof -
    have "(1023 + ?e) * 2 ^ 52 \<le> 1075 * 2 ^ 52" using e by (intro mult_right_mono) auto
    then show ?thesis using f by simp
  qed
  have bits: "nat_to_double_bits n = ?w"
    using assms(1) e by (simp add: nat_to_double_bits_def Let_def)
  have u: "unat (int_to_double (int n)) = ?w"
  proof -
    have "unat (word_of_nat x :: double) = x" if "x < 2 ^ 63" for x
      using that by (simp add: unat_of_nat)
    from this [OF w] have "unat (word_of_nat (nat_to_double_bits n) :: double) = ?w"
      unfolding bits .
    then show ?thesis by (simp add: int_to_double_def)
  qed
  have d: "double_exp (int_to_double (int n)) = 1023 + ?e"
          "double_frac (int_to_double (int n)) = ?f"
          "\<not> double_neg (int_to_double (int n))"
    unfolding double_exp_def double_frac_def double_neg_def u split_fraction [OF f]
    using e w by simp_all
  have m: "?f + 2 ^ 52 = n * 2 ^ (52 - ?e)" using lo by simp
  have p: "1075 - (1023 + ?e) = 52 - ?e" by simp
  show ?thesis
  proof (cases "?e = 52")
    case True
    then show ?thesis using m by (simp add: double_trunc_def Let_def d)
  next
    case False
    have "n * 2 ^ (52 - ?e) div 2 ^ (52 - ?e) = n" by simp
    with False e show ?thesis unfolding double_trunc_def Let_def d(1,2) m p by (simp add: d(3))
  qed
qed

end
