(* ===== verification/Json_Value.thy ===== *)
theory Json_Value
  imports Ord_Map Cpp_Double
begin

text \<open>
  The value type \<open>nlohmann::json\<close>, as its documented interface presents it: null, boolean,
  three kinds of number (signed and unsigned 64-bit integers and doubles), string, array,
  and object with its members in key order. Only the accessors the sources call are given.
  A failing access throws an exception of the library; \<open>json_error\<close> names which one, and
  the text \<open>what()\<close> returns for it is a parameter of the definitions that show it.
  Serialising and parsing text (\<open>dump\<close>, \<open>parse\<close>) are parameters too.
\<close>

datatype json =
    JNull
  | JBool bool
  | JInt "64 word"
  | JUInt "64 word"
  | JFloat double
  | JStr string
  | JArr "json list"
  | JObj "(string \<times> json) list"

datatype json_error =
    JsonTypeError nat string json
  | JsonOutOfRange nat string

text \<open>Everything a function may throw: the library's own \<open>McpException\<close> and its
  subclasses (code, message, data), any other \<open>std::exception\<close> with its text, an exception
  of the JSON library, an exception that is no \<open>std::exception\<close>, and, kept apart because no
  handler catches it, an operation whose behaviour C++ leaves undefined.\<close>

datatype exn =
    McpEx int string "json option"
  | StdEx string
  | JsonEx json_error
  | OtherEx
  | UndefinedBehaviour

type_synonym 'a res = "exn + 'a"


section \<open>Type tests and member access\<close>

fun is_null :: "json \<Rightarrow> bool" where
  "is_null JNull = True" | "is_null _ = False"

fun is_boolean :: "json \<Rightarrow> bool" where
  "is_boolean (JBool _) = True" | "is_boolean _ = False"

fun is_number_integer :: "json \<Rightarrow> bool" where
  "is_number_integer (JInt _) = True" | "is_number_integer (JUInt _) = True" | "is_number_integer _ = False"

fun is_number :: "json \<Rightarrow> bool" where
  "is_number (JFloat _) = True" | "is_number j = is_number_integer j"

fun is_string :: "json \<Rightarrow> bool" where
  "is_string (JStr _) = True" | "is_string _ = False"

fun is_array :: "json \<Rightarrow> bool" where
  "is_array (JArr _) = True" | "is_array _ = False"

fun is_object :: "json \<Rightarrow> bool" where
  "is_object (JObj _) = True" | "is_object _ = False"

text \<open>\<open>jget j k\<close> is the member \<open>j[k]\<close> after a successful \<open>j.contains(k)\<close>; \<open>contains\<close> is
  false on anything but an object.\<close>

fun jget :: "json \<Rightarrow> string \<Rightarrow> json option" where
  "jget (JObj m) k = map_of m k"
| "jget _ k = None"

definition jcontains :: "json \<Rightarrow> string \<Rightarrow> bool" where
  "jcontains j k \<longleftrightarrow> jget j k \<noteq> None"

text \<open>\<open>j.contains(k) && p(j[k])\<close>.\<close>

definition jmember :: "json \<Rightarrow> string \<Rightarrow> (json \<Rightarrow> bool) \<Rightarrow> bool" where
  "jmember j k p \<longleftrightarrow> (case jget j k of None \<Rightarrow> False | Some v \<Rightarrow> p v)"

text \<open>\<open>j.at(k)\<close>: a type error on a value that is no object, out of range when missing.\<close>

fun jat :: "json \<Rightarrow> string \<Rightarrow> json res" where
  "jat (JObj m) k = (case map_of m k of None \<Rightarrow> Inl (JsonEx (JsonOutOfRange 403 k)) | Some v \<Rightarrow> Inr v)"
| "jat j k = Inl (JsonEx (JsonTypeError 304 ''at'' j))"

text \<open>\<open>j[k] = v\<close> on a mutable value: null becomes an object first.\<close>

fun jassign :: "json \<Rightarrow> string \<Rightarrow> json \<Rightarrow> json res" where
  "jassign (JObj m) k v = Inr (JObj (oset k v m))"
| "jassign JNull k v = Inr (JObj [(k, v)])"
| "jassign j k v = Inl (JsonEx (JsonTypeError 305 k j))"

text \<open>A range-based \<open>for\<close> over a value: the elements of an array, the member values of an
  object, nothing for null, and the value itself for any other scalar.\<close>

fun jitems :: "json \<Rightarrow> json list" where
  "jitems (JArr xs) = xs"
| "jitems (JObj m) = map snd m"
| "jitems JNull = []"
| "jitems j = [j]"

fun jempty :: "json \<Rightarrow> bool" where
  "jempty JNull = True"
| "jempty (JArr xs) = (xs = [])"
| "jempty (JObj m) = (m = [])"
| "jempty _ = False"

definition jobject :: "(string \<times> json) list \<Rightarrow> json" where
  "jobject kvs = JObj (omap_of_list kvs)"


section \<open>Typed extraction\<close>

fun get_string :: "json \<Rightarrow> string res" where
  "get_string (JStr s) = Inr s"
| "get_string j = Inl (JsonEx (JsonTypeError 302 ''string'' j))"

fun get_bool :: "json \<Rightarrow> bool res" where
  "get_bool (JBool b) = Inr b"
| "get_bool j = Inl (JsonEx (JsonTypeError 302 ''boolean'' j))"

fun get_double :: "json \<Rightarrow> double res" where
  "get_double (JInt w) = Inr (int_to_double (sint w))"
| "get_double (JUInt w) = Inr (int_to_double (uint w))"
| "get_double (JFloat d) = Inr d"
| "get_double j = Inl (JsonEx (JsonTypeError 302 ''number'' j))"

definition double_to_signed :: "nat \<Rightarrow> double \<Rightarrow> int res" where
  "double_to_signed n d =
     (case double_trunc d of
        None \<Rightarrow> Inl UndefinedBehaviour
      | Some i \<Rightarrow> if - (2 ^ (n - 1)) \<le> i \<and> i < 2 ^ (n - 1) then Inr i else Inl UndefinedBehaviour)"

fun get_int64 :: "json \<Rightarrow> (64 word) res" where
  "get_int64 (JInt w) = Inr w"
| "get_int64 (JUInt w) = Inr w"
| "get_int64 (JFloat d) = bindE (double_to_signed 64 d) (\<lambda>i. Inr (word_of_int i))"
| "get_int64 j = Inl (JsonEx (JsonTypeError 302 ''number'' j))"

text \<open>\<open>get<int>()\<close>: the conversion to 32 bits drops the high bits of an integer; unlike the
  library's own integer types, \<open>int\<close> also accepts a boolean.\<close>

fun get_int :: "json \<Rightarrow> int res" where
  "get_int (JInt w) = Inr (sint (ucast w :: 32 word))"
| "get_int (JUInt w) = Inr (sint (ucast w :: 32 word))"
| "get_int (JFloat d) = double_to_signed 32 d"
| "get_int (JBool b) = Inr (if b then 1 else 0)"
| "get_int j = Inl (JsonEx (JsonTypeError 302 ''number'' j))"

definition get_vector :: "(json \<Rightarrow> 'a res) \<Rightarrow> json \<Rightarrow> 'a list res" where
  "get_vector f j =
     (case j of JArr xs \<Rightarrow> traverse f xs | _ \<Rightarrow> Inl (JsonEx (JsonTypeError 302 ''array'' j)))"

text \<open>\<open>j.value(k, dflt)\<close>, \<open>j.at(k).get_to(x)\<close>, and \<open>if (j.contains(k)) j.at(k).get_to(x.emplace())\<close>.\<close>

fun jvalue :: "(json \<Rightarrow> 'a res) \<Rightarrow> json \<Rightarrow> string \<Rightarrow> 'a \<Rightarrow> 'a res" where
  "jvalue f (JObj m) k d = (case map_of m k of None \<Rightarrow> Inr d | Some v \<Rightarrow> f v)"
| "jvalue f j k d = Inl (JsonEx (JsonTypeError 306 k j))"

definition jfield :: "(json \<Rightarrow> 'a res) \<Rightarrow> json \<Rightarrow> string \<Rightarrow> 'a res" where
  "jfield f j k = bindE (jat j k) f"

fun opt_res :: "('b \<Rightarrow> 'a res) \<Rightarrow> 'b option \<Rightarrow> 'a option res" where
  "opt_res f None = Inr None"
| "opt_res f (Some v) = bindE (f v) (\<lambda>x. Inr (Some x))"

definition jfield_opt :: "(json \<Rightarrow> 'a res) \<Rightarrow> json \<Rightarrow> string \<Rightarrow> 'a option res" where
  "jfield_opt f j k = opt_res f (jget j k)"


section \<open>Equality\<close>

text \<open>\<open>operator==\<close>: numbers of different kinds are compared after conversion, a NaN is equal
  to nothing, objects are compared member by member in key order.\<close>

fun json_eq :: "json \<Rightarrow> json \<Rightarrow> bool"
  and json_list_eq :: "json list \<Rightarrow> json list \<Rightarrow> bool"
  and json_members_eq :: "(string \<times> json) list \<Rightarrow> (string \<times> json) list \<Rightarrow> bool"
where
  "json_eq JNull j = (j = JNull)"
| "json_eq (JBool a) j = (case j of JBool b \<Rightarrow> a = b | _ \<Rightarrow> False)"
| "json_eq (JInt a) j = (case j of JInt b \<Rightarrow> a = b | JUInt b \<Rightarrow> a = b
     | JFloat b \<Rightarrow> double_eq (int_to_double (sint a)) b | _ \<Rightarrow> False)"
| "json_eq (JUInt a) j = (case j of JInt b \<Rightarrow> a = b | JUInt b \<Rightarrow> a = b
     | JFloat b \<Rightarrow> double_eq (int_to_double (uint a)) b | _ \<Rightarrow> False)"
| "json_eq (JFloat a) j = (case j of JInt b \<Rightarrow> double_eq a (int_to_double (sint b))
     | JUInt b \<Rightarrow> double_eq a (int_to_double (uint b)) | JFloat b \<Rightarrow> double_eq a b | _ \<Rightarrow> False)"
| "json_eq (JStr a) j = (case j of JStr b \<Rightarrow> a = b | _ \<Rightarrow> False)"
| "json_eq (JArr a) j = (case j of JArr b \<Rightarrow> json_list_eq a b | _ \<Rightarrow> False)"
| "json_eq (JObj a) j = (case j of JObj b \<Rightarrow> json_members_eq a b | _ \<Rightarrow> False)"
| "json_list_eq [] ys = (ys = [])"
| "json_list_eq (x # xs) ys = (case ys of [] \<Rightarrow> False | y # ys' \<Rightarrow> json_eq x y \<and> json_list_eq xs ys')"
| "json_members_eq [] ys = (ys = [])"
| "json_members_eq ((k, x) # xs) ys = (case ys of [] \<Rightarrow> False
     | (k', y) # ys' \<Rightarrow> k = k' \<and> json_eq x y \<and> json_members_eq xs ys')"


section \<open>Well-formed values and the rewrite rules of the accessors\<close>

text \<open>Every value the library builds keeps the members of its objects in strict key order.\<close>

fun json_wf :: "json \<Rightarrow> bool" where
  "json_wf (JArr xs) = (\<forall>x \<in> set xs. json_wf x)"
| "json_wf (JObj m) = (osorted m \<and> (\<forall>p \<in> set m. json_wf (snd p)))"
| "json_wf _ = True"

lemma jcontains_JObj [simp, json_simps]: "jcontains (JObj m) k \<longleftrightarrow> map_of m k \<noteq> None"
  by (simp add: jcontains_def)

lemma jcontains_other [simp]: "\<not> is_object j \<Longrightarrow> \<not> jcontains j k"
  by (cases j) (simp_all add: jcontains_def)

lemma jget_jobject [simp, json_simps]: "jget (jobject kvs) k = map_of (rev kvs) k"
  by (simp add: jobject_def)

lemma jat_jobject [simp, json_simps]:
  "jat (jobject kvs) k =
     (case map_of (rev kvs) k of None \<Rightarrow> Inl (JsonEx (JsonOutOfRange 403 k)) | Some v \<Rightarrow> Inr v)"
  by (simp add: jobject_def)

lemma is_object_jobject [simp]: "is_object (jobject kvs)"
  by (simp add: jobject_def)

lemma is_null_iff [simp, json_simps]: "is_null j \<longleftrightarrow> j = JNull"
  by (cases j) simp_all

lemma is_object_conv: "is_object j \<longleftrightarrow> (\<exists>m. j = JObj m)"
  by (cases j) simp_all

lemma is_string_conv: "is_string j \<longleftrightarrow> (\<exists>s. j = JStr s)"
  by (cases j) simp_all

lemma get_string_is_string: "is_string j \<Longrightarrow> \<exists>s. j = JStr s \<and> get_string j = Inr s"
  by (cases j) simp_all

lemma jget_wf: "json_wf j \<Longrightarrow> jget j k = Some v \<Longrightarrow> json_wf v"
  by (cases j) (auto dest!: map_of_SomeD)

lemma oset_members: "p \<in> set (oset k v m) \<Longrightarrow> p = (k, v) \<or> p \<in> set m"
  by (induction k v m rule: oset.induct) (auto split: if_splits)

lemma json_wf_oset: "json_wf (JObj m) \<Longrightarrow> json_wf v \<Longrightarrow> json_wf (JObj (oset k v m))"
  by (auto simp: osorted_oset dest!: oset_members)

lemma json_wf_oset_opt:
  "json_wf (JObj m) \<Longrightarrow> (\<And>v. w = Some v \<Longrightarrow> json_wf v) \<Longrightarrow> json_wf (JObj (oset_opt k w m))"
  by (cases w) (simp_all only: oset_opt_def option.case json_wf_oset)

lemma json_wf_fold_oset:
  "json_wf (JObj m) \<Longrightarrow> (\<forall>p \<in> set kvs. json_wf (snd p)) \<Longrightarrow>
     json_wf (JObj (fold (\<lambda>(k, v). oset k v) kvs m))"
proof (induction kvs arbitrary: m)
  case (Cons p kvs)
  then show ?case by (cases p) (auto simp del: json_wf.simps intro!: Cons.IH json_wf_oset)
qed simp

lemma json_wf_jobject: "(\<forall>p \<in> set kvs. json_wf (snd p)) \<Longrightarrow> json_wf (jobject kvs)"
  unfolding jobject_def omap_of_list_def by (rule json_wf_fold_oset) simp_all

lemma json_list_eq_length: "json_list_eq xs ys \<Longrightarrow> length xs = length ys"
  by (induction xs arbitrary: ys) (case_tac ys; simp)+

end
