(* ===== verification/Protocol.thy ===== *)
theory Protocol
  imports Json_Value
begin

text \<open>
  The protocol constants (\<open>protocol.hpp\<close>, \<open>error_codes.hpp\<close>), the exception classes
  (\<open>exception.hpp\<close>), and the JSON-RPC request id with its JSON form (\<open>common.hpp\<close>).
\<close>

section \<open>Error codes\<close>

definition PARSE_ERROR :: int where "PARSE_ERROR = -32700"
definition INVALID_REQUEST :: int where "INVALID_REQUEST = -32600"
definition METHOD_NOT_FOUND :: int where "METHOD_NOT_FOUND = -32601"
definition INVALID_PARAMS :: int where "INVALID_PARAMS = -32602"
definition INTERNAL_ERROR :: int where "INTERNAL_ERROR = -32603"
definition SERVER_NOT_INITIALIZED :: int where "SERVER_NOT_INITIALIZED = -32002"
definition REQUEST_CANCELLED :: int where "REQUEST_CANCELLED = -32800"
definition REQUEST_TIMED_OUT :: int where "REQUEST_TIMED_OUT = -32801"
definition CLIENT_NOT_CONNECTED :: int where "CLIENT_NOT_CONNECTED = -32802"
definition REQUEST_FAILED :: int where "REQUEST_FAILED = -32803"

lemmas error_code_defs =
  PARSE_ERROR_def INVALID_REQUEST_def METHOD_NOT_FOUND_def INVALID_PARAMS_def INTERNAL_ERROR_def
  SERVER_NOT_INITIALIZED_def REQUEST_CANCELLED_def REQUEST_TIMED_OUT_def CLIENT_NOT_CONNECTED_def
  REQUEST_FAILED_def


section \<open>Versions and method names\<close>

definition VERSION_2025_06_18 :: string where "VERSION_2025_06_18 = ''2025-06-18''"
definition VERSION_2025_03_26 :: string where "VERSION_2025_03_26 = ''2025-03-26''"
definition LATEST_PROTOCOL_VERSION :: string where "LATEST_PROTOCOL_VERSION = ''2025-06-18''"
definition DEFAULT_NEGOTIATED_VERSION :: string where "DEFAULT_NEGOTIATED_VERSION = VERSION_2025_06_18"

definition is_supported_version :: "string \<Rightarrow> bool" where
  "is_supported_version v \<longleftrightarrow> v = VERSION_2025_06_18 \<or> v = VERSION_2025_03_26"

lemmas version_defs =
  VERSION_2025_06_18_def VERSION_2025_03_26_def LATEST_PROTOCOL_VERSION_def
  DEFAULT_NEGOTIATED_VERSION_def is_supported_version_def

abbreviation METHOD_INITIALIZE :: string where "METHOD_INITIALIZE \<equiv> ''initialize''"
abbreviation METHOD_PING :: string where "METHOD_PING \<equiv> ''ping''"
abbreviation METHOD_TOOLS_LIST :: string where "METHOD_TOOLS_LIST \<equiv> ''tools/list''"
abbreviation METHOD_TOOLS_CALL :: string where "METHOD_TOOLS_CALL \<equiv> ''tools/call''"
abbreviation METHOD_RESOURCES_LIST :: string where "METHOD_RESOURCES_LIST \<equiv> ''resources/list''"
abbreviation METHOD_RESOURCES_READ :: string where "METHOD_RESOURCES_READ \<equiv> ''resources/read''"
abbreviation METHOD_RESOURCES_SUBSCRIBE :: string where "METHOD_RESOURCES_SUBSCRIBE \<equiv> ''resources/subscribe''"
abbreviation METHOD_RESOURCES_UNSUBSCRIBE :: string where "METHOD_RESOURCES_UNSUBSCRIBE \<equiv> ''resources/unsubscribe''"
abbreviation METHOD_RESOURCES_TEMPLATE_LIST :: string where "METHOD_RESOURCES_TEMPLATE_LIST \<equiv> ''resources/templates/list''"
abbreviation METHOD_PROMPTS_LIST :: string where "METHOD_PROMPTS_LIST \<equiv> ''prompts/list''"
abbreviation METHOD_PROMPTS_GET :: string where "METHOD_PROMPTS_GET \<equiv> ''prompts/get''"
abbreviation METHOD_COMPLETION_COMPLETE :: string where "METHOD_COMPLETION_COMPLETE \<equiv> ''completion/complete''"
abbreviation METHOD_LOGGING_SET_LEVEL :: string where "METHOD_LOGGING_SET_LEVEL \<equiv> ''logging/setLevel''"
abbreviation METHOD_SAMPLING_CREATE :: string where "METHOD_SAMPLING_CREATE \<equiv> ''sampling/createMessage''"
abbreviation METHOD_ELICITATION_CREATE :: string where "METHOD_ELICITATION_CREATE \<equiv> ''elicitation/create''"
abbreviation METHOD_ROOTS_LIST :: string where "METHOD_ROOTS_LIST \<equiv> ''roots/list''"
abbreviation NOTIF_INITIALIZED :: string where "NOTIF_INITIALIZED \<equiv> ''notifications/initialized''"
abbreviation NOTIF_PROGRESS :: string where "NOTIF_PROGRESS \<equiv> ''notifications/progress''"
abbreviation NOTIF_MESSAGE :: string where "NOTIF_MESSAGE \<equiv> ''notifications/message''"
abbreviation NOTIF_TOOLS_LIST_CHANGED :: string where "NOTIF_TOOLS_LIST_CHANGED \<equiv> ''notifications/tools/list_changed''"
abbreviation NOTIF_RESOURCES_LIST_CHANGED :: string where "NOTIF_RESOURCES_LIST_CHANGED \<equiv> ''notifications/resources/list_changed''"
abbreviation NOTIF_RESOURCES_UPDATED :: string where "NOTIF_RESOURCES_UPDATED \<equiv> ''notifications/resources/updated''"
abbreviation NOTIF_PROMPTS_LIST_CHANGED :: string where "NOTIF_PROMPTS_LIST_CHANGED \<equiv> ''notifications/prompts/list_changed''"
abbreviation NOTIF_CANCELLED :: string where "NOTIF_CANCELLED \<equiv> ''notifications/cancelled''"
abbreviation NOTIF_ROOTS_LIST_CHANGED :: string where "NOTIF_ROOTS_LIST_CHANGED \<equiv> ''notifications/roots/list_changed''"

lemma supported_default: "is_supported_version DEFAULT_NEGOTIATED_VERSION"
  by (simp add: version_defs)


section \<open>Exceptions\<close>

definition ParseError :: "string \<Rightarrow> exn" where
  "ParseError msg = McpEx PARSE_ERROR msg None"

definition InvalidRequestError :: "string \<Rightarrow> exn" where
  "InvalidRequestError msg = McpEx INVALID_REQUEST msg None"

definition MethodNotFoundError :: "string \<Rightarrow> exn" where
  "MethodNotFoundError m = McpEx METHOD_NOT_FOUND (''Method not found: '' @ m) None"

definition InvalidParamsError :: "string \<Rightarrow> exn" where
  "InvalidParamsError msg = McpEx INVALID_PARAMS msg None"

definition InternalError :: "string \<Rightarrow> exn" where
  "InternalError msg = McpEx INTERNAL_ERROR msg None"

text \<open>\<open>catch (const std::exception)\<close> catches exactly these, and \<open>what()\<close> of an
  \<open>McpException\<close> is its message.\<close>

fun is_std_exception :: "exn \<Rightarrow> bool" where
  "is_std_exception OtherEx = False"
| "is_std_exception UndefinedBehaviour = False"
| "is_std_exception _ = True"

fun exn_what :: "(json_error \<Rightarrow> string) \<Rightarrow> exn \<Rightarrow> string" where
  "exn_what what (McpEx c m d) = m"
| "exn_what what (StdEx s) = s"
| "exn_what what (JsonEx e) = what e"
| "exn_what what _ = []"


section \<open>Request ids\<close>

datatype request_id = NullId | IntId "64 word" | StrId string

text \<open>The order of \<open>std::variant\<close>: by alternative, then by value, numbers as signed.\<close>

fun rid_less :: "request_id \<Rightarrow> request_id \<Rightarrow> bool" where
  "rid_less NullId NullId = False"
| "rid_less NullId _ = True"
| "rid_less (IntId a) (IntId b) = (sint a < sint b)"
| "rid_less (IntId a) (StrId b) = True"
| "rid_less (StrId a) (StrId b) = (a < b)"
| "rid_less _ _ = False"

instantiation request_id :: linorder
begin

definition less_request_id :: "request_id \<Rightarrow> request_id \<Rightarrow> bool" where
  "less_request_id a b \<longleftrightarrow> rid_less a b"

definition less_eq_request_id :: "request_id \<Rightarrow> request_id \<Rightarrow> bool" where
  "less_eq_request_id a b \<longleftrightarrow> rid_less a b \<or> a = b"

instance
proof
  fix x y z :: request_id
  show "(x < y) = (x \<le> y \<and> \<not> y \<le> x)"
    by (cases x; cases y) (auto simp: less_request_id_def less_eq_request_id_def)
  show "x \<le> x" by (simp add: less_eq_request_id_def)
  show "x \<le> y \<Longrightarrow> y \<le> z \<Longrightarrow> x \<le> z"
    by (cases x; cases y; cases z) (auto simp: less_eq_request_id_def)
  show "x \<le> y \<Longrightarrow> y \<le> x \<Longrightarrow> x = y"
    by (cases x; cases y) (auto simp: less_eq_request_id_def)
  show "x \<le> y \<or> y \<le> x"
    by (cases x; cases y) (auto simp: less_eq_request_id_def not_less le_less intro: signed_word_eqI)
qed

end

fun request_id_to_json :: "request_id \<Rightarrow> json" where
  "request_id_to_json NullId = JNull"
| "request_id_to_json (IntId n) = JInt n"
| "request_id_to_json (StrId s) = JStr s"

definition request_id_from_json :: "json \<Rightarrow> request_id res" where
  "request_id_from_json j =
     (if is_null j then Inr NullId
      else if is_number_integer j then bindE (get_int64 j) (\<lambda>n. Inr (IntId n))
      else if is_string j then bindE (get_string j) (\<lambda>s. Inr (StrId s))
      else Inl (StdEx ''RequestId must be null, integer, or string''))"

definition is_null_id :: "request_id \<Rightarrow> bool" where
  "is_null_id i \<longleftrightarrow> i = NullId"

lemma request_id_roundtrip [simp]: "request_id_from_json (request_id_to_json i) = Inr i"
  by (cases i) (simp_all add: request_id_from_json_def)

lemma request_id_from_json_cases:
  "request_id_from_json j =
     (case j of JNull \<Rightarrow> Inr NullId | JInt n \<Rightarrow> Inr (IntId n) | JUInt n \<Rightarrow> Inr (IntId n)
        | JStr s \<Rightarrow> Inr (StrId s)
        | _ \<Rightarrow> Inl (StdEx ''RequestId must be null, integer, or string''))"
  by (cases j) (simp_all add: request_id_from_json_def)

lemma request_id_from_json_Inl:
  "request_id_from_json j = Inl e \<Longrightarrow> e = StdEx ''RequestId must be null, integer, or string''"
  by (cases j) (simp_all add: request_id_from_json_cases)

lemma request_id_from_json_NullId: "request_id_from_json j = Inr NullId \<longleftrightarrow> j = JNull"
  by (cases j) (simp_all add: request_id_from_json_cases)

text \<open>Reading an id back compares equal, as JSON, to the value it was read from.\<close>

lemma request_id_from_json_eq:
  "request_id_from_json j = Inr i \<Longrightarrow> json_eq (request_id_to_json i) j"
  by (cases j) (auto simp: request_id_from_json_cases)

lemma request_id_to_json_inj: "request_id_to_json a = request_id_to_json b \<Longrightarrow> a = b"
  by (cases a; cases b) simp_all

end
