(* ===== verification/Codec.thy ===== *)
theory Codec
  imports Protocol
begin

text \<open>
  The contract between a \<open>to_json\<close> and its \<open>from_json\<close>: on the values \<open>ok\<close> describes, reading
  what was written gives the value back. The lemmas a client of such a pair needs (vectors,
  members, optional members, injectivity) are proved once here; every pair of the sources
  is an interpretation.
\<close>

locale codec =
  fixes enc :: "'a \<Rightarrow> json"
    and dec :: "json \<Rightarrow> 'a res"
    and ok :: "'a \<Rightarrow> bool"
  assumes dec_enc: "ok x \<Longrightarrow> dec (enc x) = Inr x"
begin

lemma enc_inj: "ok x \<Longrightarrow> ok y \<Longrightarrow> enc x = enc y \<Longrightarrow> x = y"
  by (metis dec_enc sum.inject(2))

lemma traverse_enc: "list_all ok xs \<Longrightarrow> traverse dec (map enc xs) = Inr xs"
  by (rule traverse_map) (simp add: dec_enc list_all_iff)

lemma vector_enc: "list_all ok xs \<Longrightarrow> get_vector dec (JArr (map enc xs)) = Inr xs"
  by (simp add: get_vector_def traverse_enc)

lemma field_enc: "jget j k = Some (enc x) \<Longrightarrow> ok x \<Longrightarrow> jfield dec j k = Inr x"
  by (cases j) (simp_all add: jfield_def dec_enc)

lemma field_opt_enc:
  "jget j k = map_option enc w \<Longrightarrow> pred_option ok w \<Longrightarrow> jfield_opt dec j k = Inr w"
  by (cases w) (simp_all add: jfield_opt_def dec_enc)

end

text \<open>The scalar conversions of the JSON library are codecs on the values they represent.\<close>

interpretation str_codec: codec JStr get_string "\<lambda>_. True"
  by unfold_locales simp

interpretation bool_codec: codec JBool get_bool "\<lambda>_. True"
  by unfold_locales simp

interpretation double_codec: codec JFloat get_double "\<lambda>_. True"
  by unfold_locales simp

interpretation int64_codec: codec JInt get_int64 "\<lambda>_. True"
  by unfold_locales simp

interpretation json_codec: codec "\<lambda>j. j" "Inr" "\<lambda>_. True"
  by unfold_locales simp

interpretation request_id_codec: codec request_id_to_json request_id_from_json "\<lambda>_. True"
  by unfold_locales simp

lemma list_all_True [simp]: "list_all (\<lambda>_. True) xs"
  by (simp add: list_all_iff)

lemma pred_option_True [simp]: "pred_option (\<lambda>_. True) w"
  by (cases w) simp_all

text \<open>Rules that evaluate the reading of a member that has just been written.\<close>

lemma opt_res_Inr [simp]: "opt_res Inr w = Inr w" "opt_res (\<lambda>x. Inr x) w = Inr w"
  by (cases w; simp)+

lemma opt_res_map [simp]: "opt_res f (map_option g w) = opt_res (\<lambda>x. f (g x)) w"
  by (cases w) simp_all

lemma jfield_JObj [codec_simps]:
  "jfield f (JObj m) k =
     (case map_of m k of None \<Rightarrow> Inl (JsonEx (JsonOutOfRange 403 k)) | Some v \<Rightarrow> f v)"
  by (simp add: jfield_def split: option.splits)

lemma jfield_jobject [codec_simps]:
  "jfield f (jobject kvs) k =
     (case map_of (rev kvs) k of None \<Rightarrow> Inl (JsonEx (JsonOutOfRange 403 k)) | Some v \<Rightarrow> f v)"
  by (simp add: jobject_def jfield_JObj)

lemma jfield_opt_JObj [codec_simps]: "jfield_opt f (JObj m) k = opt_res f (map_of m k)"
  by (simp add: jfield_opt_def)

lemmas vector_simps = str_codec.vector_enc [simplified]

end
