(* ===== verification/Jsonrpc.thy ===== *)
theory Jsonrpc
  imports Codec
begin

text \<open>
  JSON-RPC 2.0 messages (\<open>jsonrpc.hpp\<close>, \<open>jsonrpc.cpp\<close>): the message structures, their
  classification from JSON on the server and on the client side, and their construction.
  The member \<open>jsonrpc\<close> of the structures is always \<open>"2.0"\<close> and never read, so the records
  leave it out.
\<close>

section \<open>Messages\<close>

record error_detail =
  ed_code :: int
  ed_message :: string
  ed_data :: "json option"

record rpc_request =
  req_id :: request_id
  req_method :: string
  req_params :: "json option"

record rpc_notification =
  notif_method :: string
  notif_params :: "json option"

record rpc_success =
  ok_id :: request_id
  ok_result :: json

record rpc_error =
  err_id :: request_id
  err_error :: error_detail

datatype parsed_message =
    PRequest rpc_request
  | PNotification rpc_notification
  | PSuccess rpc_success
  | PError rpc_error

definition rpc_error_msg :: "request_id \<Rightarrow> int \<Rightarrow> string \<Rightarrow> parsed_message" where
  "rpc_error_msg i c m =
     PError \<lparr>err_id = i, err_error = \<lparr>ed_code = c, ed_message = m, ed_data = None\<rparr>\<rparr>"


section \<open>Parsing\<close>

definition check_jsonrpc_envelope :: "json \<Rightarrow> bool" where
  "check_jsonrpc_envelope raw \<longleftrightarrow>
     is_object raw \<and> jmember raw ''jsonrpc'' (\<lambda>v. json_eq v (JStr ''2.0''))"

text \<open>\<open>bool request_id_from_json(raw, out)\<close>: \<open>None\<close> when the id is unusable on a request.\<close>

definition request_id_of_request :: "json \<Rightarrow> request_id option" where
  "request_id_of_request idj =
     (case request_id_from_json idj of
        Inl _ \<Rightarrow> None
      | Inr i \<Rightarrow> if is_null_id i then None else Some i)"

definition make_method_error :: "request_id \<Rightarrow> string \<Rightarrow> parsed_message" where
  "make_method_error i why = rpc_error_msg i INVALID_REQUEST why"

definition params_ok :: "json \<Rightarrow> bool" where
  "params_ok raw \<longleftrightarrow>
     (case jget raw ''params'' of
        None \<Rightarrow> True
      | Some p \<Rightarrow> is_null p \<or> is_object p \<or> is_array p)"

text \<open>\<open>if (raw.contains("params") && !raw["params"].is_null()) x.params = raw["params"];\<close>\<close>

definition message_params :: "json \<Rightarrow> json option" where
  "message_params raw =
     (case jget raw ''params'' of None \<Rightarrow> None | Some p \<Rightarrow> if is_null p then None else Some p)"

text \<open>The branch for a message with both id and method, the same text in both parsers.\<close>

definition parse_request :: "json \<Rightarrow> json \<Rightarrow> json \<Rightarrow> parsed_message" where
  "parse_request raw idj mj =
     (case request_id_of_request idj of
        None \<Rightarrow> make_method_error NullId ''Request id must be a string or number (null is not allowed)''
      | Some i \<Rightarrow>
          (case mj of
             JStr m \<Rightarrow>
               (if \<not> params_ok raw
                then make_method_error i ''Params must be a structured value (object or array)''
                else PRequest \<lparr>req_id = i, req_method = m, req_params = message_params raw\<rparr>)
           | _ \<Rightarrow> make_method_error i ''Method must be a string''))"

text \<open>The branch for a message with a method and no id, the same text in both parsers.\<close>

definition parse_notification :: "json \<Rightarrow> json \<Rightarrow> parsed_message" where
  "parse_notification raw mj =
     (case mj of
        JStr m \<Rightarrow>
          (if \<not> params_ok raw
           then rpc_error_msg NullId INVALID_REQUEST ''Params must be a structured value (object or array)''
           else PNotification \<lparr>notif_method = m, notif_params = message_params raw\<rparr>)
      | _ \<Rightarrow> rpc_error_msg NullId INVALID_REQUEST ''Method must be a string'')"

text \<open>The bodies of the two parsers, before the surrounding \<open>try\<close>.\<close>

definition parse_message_body :: "json \<Rightarrow> parsed_message res" where
  "parse_message_body raw =
     (if \<not> check_jsonrpc_envelope raw
      then Inr (rpc_error_msg NullId INVALID_REQUEST ''Invalid or missing jsonrpc version'')
      else case jget raw ''id'' of
        Some idj \<Rightarrow>
          (case jget raw ''method'' of
             Some mj \<Rightarrow> Inr (parse_request raw idj mj)
           | None \<Rightarrow>
               bindE (request_id_from_json idj) (\<lambda>i.
                 case jget raw ''result'' of
                   Some r \<Rightarrow> Inr (PSuccess \<lparr>ok_id = i, ok_result = r\<rparr>)
                 | None \<Rightarrow> Inr (rpc_error_msg i INVALID_REQUEST ''Server received a response message (unexpected)'')))
      | None \<Rightarrow>
          (case jget raw ''method'' of
             Some mj \<Rightarrow> Inr (parse_notification raw mj)
           | None \<Rightarrow> Inr (rpc_error_msg NullId INVALID_REQUEST ''Message must have method or be a valid request'')))"

definition parse_failure :: "(json_error \<Rightarrow> string) \<Rightarrow> exn \<Rightarrow> parsed_message" where
  "parse_failure what e = rpc_error_msg NullId PARSE_ERROR (''Failed to parse message: '' @ exn_what what e)"

definition parse_message :: "(json_error \<Rightarrow> string) \<Rightarrow> json \<Rightarrow> parsed_message" where
  "parse_message what raw = (case parse_message_body raw of Inr m \<Rightarrow> m | Inl e \<Rightarrow> parse_failure what e)"

text \<open>The error member of a response, read by the client.\<close>

definition error_detail_from_json :: "json \<Rightarrow> error_detail res" where
  "error_detail_from_json err =
     bindE (jvalue get_int err ''code'' INTERNAL_ERROR) (\<lambda>c.
     bindE (jvalue get_string err ''message'' ''Unknown error'') (\<lambda>m.
     Inr \<lparr>ed_code = c, ed_message = m, ed_data = jget err ''data''\<rparr>))"

definition parse_response_client :: "json \<Rightarrow> request_id \<Rightarrow> parsed_message res" where
  "parse_response_client raw i =
     (case jget raw ''result'' of
        Some r \<Rightarrow> Inr (PSuccess \<lparr>ok_id = i, ok_result = r\<rparr>)
      | None \<Rightarrow>
          (if jmember raw ''error'' is_object
           then bindE (jfield error_detail_from_json raw ''error'') (\<lambda>d.
                  Inr (PError \<lparr>err_id = i, err_error = d\<rparr>))
           else Inr (rpc_error_msg i INVALID_REQUEST
                  (if jcontains raw ''result'' \<or> jcontains raw ''error''
                   then ''Response has neither result nor error''
                   else ''Server received a response message (unexpected)''))))"

definition parse_message_client_body :: "json \<Rightarrow> parsed_message res" where
  "parse_message_client_body raw =
     (if \<not> check_jsonrpc_envelope raw
      then Inr (rpc_error_msg NullId INVALID_REQUEST ''Invalid or missing jsonrpc version'')
      else case jget raw ''id'' of
        Some idj \<Rightarrow>
          (case jget raw ''method'' of
             Some mj \<Rightarrow> Inr (parse_request raw idj mj)
           | None \<Rightarrow> bindE (request_id_from_json idj) (parse_response_client raw))
      | None \<Rightarrow>
          (case jget raw ''method'' of
             Some mj \<Rightarrow> Inr (parse_notification raw mj)
           | None \<Rightarrow> Inr (rpc_error_msg NullId INVALID_REQUEST
                       ''Message must have method or be a valid request/response'')))"

definition parse_message_client :: "(json_error \<Rightarrow> string) \<Rightarrow> json \<Rightarrow> parsed_message res" where
  "parse_message_client what raw =
     (case parse_message_client_body raw of
        Inr m \<Rightarrow> Inr m
      | Inl e \<Rightarrow> if is_std_exception e then Inr (parse_failure what e) else Inl e)"


section \<open>Construction\<close>

definition make_success_response :: "request_id \<Rightarrow> json \<Rightarrow> json" where
  "make_success_response i r =
     jobject [(''jsonrpc'', JStr ''2.0''), (''id'', request_id_to_json i), (''result'', r)]"

definition error_object :: "int \<Rightarrow> string \<Rightarrow> json option \<Rightarrow> json" where
  "error_object c m d =
     JObj (oset_opt ''data'' d (omap_of_list [(''code'', JInt (word_of_int c)), (''message'', JStr m)]))"

definition make_error_response :: "request_id \<Rightarrow> int \<Rightarrow> string \<Rightarrow> json option \<Rightarrow> json" where
  "make_error_response i c m d =
     jobject [(''jsonrpc'', JStr ''2.0''), (''id'', request_id_to_json i), (''error'', error_object c m d)]"

definition make_error_response_null_id :: "int \<Rightarrow> string \<Rightarrow> json option \<Rightarrow> json" where
  "make_error_response_null_id c m d =
     jobject [(''jsonrpc'', JStr ''2.0''), (''id'', JNull), (''error'', error_object c m d)]"

definition serialize_request :: "rpc_request \<Rightarrow> json" where
  "serialize_request r =
     JObj (oset_opt ''params'' (req_params r)
       (omap_of_list [(''jsonrpc'', JStr ''2.0''), (''id'', request_id_to_json (req_id r)),
                      (''method'', JStr (req_method r))]))"

definition serialize_notification :: "rpc_notification \<Rightarrow> json" where
  "serialize_notification n =
     JObj (oset_opt ''params'' (notif_params n)
       (omap_of_list [(''jsonrpc'', JStr ''2.0''), (''method'', JStr (notif_method n))]))"


section \<open>Facts about the parsers\<close>

lemma check_envelope_iff:
  "check_jsonrpc_envelope raw \<longleftrightarrow> jget raw ''jsonrpc'' = Some (JStr ''2.0'')"
proof -
  have "json_eq v (JStr s) \<longleftrightarrow> v = JStr s" for v s by (cases v) auto
  then show ?thesis
    by (cases raw) (auto simp: check_jsonrpc_envelope_def jmember_def split: option.splits)
qed

lemma request_id_of_request_Some:
  "request_id_of_request j = Some i \<longleftrightarrow> request_id_from_json j = Inr i \<and> i \<noteq> NullId"
  by (auto simp: request_id_of_request_def is_null_id_def split: sum.splits)

definition structured :: "json option \<Rightarrow> bool" where
  "structured w \<longleftrightarrow> (case w of None \<Rightarrow> True | Some p \<Rightarrow> is_object p \<or> is_array p)"

lemma structured_not_null: "structured (Some p) \<Longrightarrow> p \<noteq> JNull"
  by (cases p) (simp_all add: structured_def)

lemma message_params_structured: "params_ok raw \<Longrightarrow> structured (message_params raw)"
  by (auto simp: params_ok_def message_params_def structured_def split: option.splits)

lemma message_params_get:
  "jget raw ''params'' = w \<Longrightarrow> structured w \<Longrightarrow> params_ok raw \<and> message_params raw = w"
  by (cases w) (auto simp: params_ok_def message_params_def structured_def split: option.splits)

lemma error_object_get [simp]:
  "jget (error_object c m d) ''code'' = Some (JInt (word_of_int c))"
  "jget (error_object c m d) ''message'' = Some (JStr m)"
  "jget (error_object c m d) ''data'' = d"
  "is_object (error_object c m d)"
  by (simp_all add: error_object_def)

text \<open>The server's parser throws nothing but \<open>std::invalid_argument\<close> for an unusable id.\<close>

lemma parse_message_body_Inl:
  "parse_message_body raw = Inl e \<Longrightarrow> e = StdEx ''RequestId must be null, integer, or string''"
  by (auto simp: parse_message_body_def bindE_Inl_iff dest: request_id_from_json_Inl
      split: if_splits option.splits)

lemma parse_message_cases:
  assumes "check_jsonrpc_envelope raw"
  shows "parse_message what raw =
     (case jget raw ''id'' of
        Some idj \<Rightarrow>
          (case jget raw ''method'' of
             Some mj \<Rightarrow> parse_request raw idj mj
           | None \<Rightarrow>
               (case request_id_from_json idj of
                  Inl e \<Rightarrow> parse_failure what e
                | Inr i \<Rightarrow>
                    (case jget raw ''result'' of
                       Some r \<Rightarrow> PSuccess \<lparr>ok_id = i, ok_result = r\<rparr>
                     | None \<Rightarrow> rpc_error_msg i INVALID_REQUEST ''Server received a response message (unexpected)'')))
      | None \<Rightarrow>
          (case jget raw ''method'' of
             Some mj \<Rightarrow> parse_notification raw mj
           | None \<Rightarrow> rpc_error_msg NullId INVALID_REQUEST ''Message must have method or be a valid request''))"
  using assms by (auto simp: parse_message_def parse_message_body_def split: option.splits sum.splits)

lemma request_id_of_request_None:
  "request_id_of_request j = None \<longleftrightarrow> (\<forall>i. request_id_from_json j = Inr i \<longrightarrow> i = NullId)"
  by (auto simp: request_id_of_request_def is_null_id_def split: sum.splits)

lemma parse_request_PRequest:
  "parse_request raw idj mj = PRequest r \<longleftrightarrow>
     request_id_from_json idj = Inr (req_id r) \<and> req_id r \<noteq> NullId \<and>
     mj = JStr (req_method r) \<and> params_ok raw \<and> req_params r = message_params raw"
  by (cases r; cases mj)
    (auto simp: parse_request_def make_method_error_def rpc_error_msg_def request_id_of_request_Some
      request_id_of_request_None split: option.splits)

lemma parse_notification_not_request: "parse_notification raw mj \<noteq> PRequest r"
  by (cases mj) (auto simp: parse_notification_def rpc_error_msg_def)

lemma serialize_request_get [simp]:
  "jget (serialize_request r) ''jsonrpc'' = Some (JStr ''2.0'')"
  "jget (serialize_request r) ''id'' = Some (request_id_to_json (req_id r))"
  "jget (serialize_request r) ''method'' = Some (JStr (req_method r))"
  "jget (serialize_request r) ''params'' = req_params r"
  by (simp_all add: serialize_request_def)

lemma serialize_notification_get [simp]:
  "jget (serialize_notification n) ''jsonrpc'' = Some (JStr ''2.0'')"
  "jget (serialize_notification n) ''id'' = None"
  "jget (serialize_notification n) ''method'' = Some (JStr (notif_method n))"
  "jget (serialize_notification n) ''params'' = notif_params n"
  by (simp_all add: serialize_notification_def)

lemma make_success_response_get [simp]:
  "jget (make_success_response i r) ''jsonrpc'' = Some (JStr ''2.0'')"
  "jget (make_success_response i r) ''id'' = Some (request_id_to_json i)"
  "jget (make_success_response i r) ''method'' = None"
  "jget (make_success_response i r) ''result'' = Some r"
  "jget (make_success_response i r) ''error'' = None"
  by (simp_all add: make_success_response_def)

lemma make_error_response_get [simp]:
  "jget (make_error_response i c m d) ''jsonrpc'' = Some (JStr ''2.0'')"
  "jget (make_error_response i c m d) ''id'' = Some (request_id_to_json i)"
  "jget (make_error_response i c m d) ''method'' = None"
  "jget (make_error_response i c m d) ''result'' = None"
  "jget (make_error_response i c m d) ''error'' = Some (error_object c m d)"
  by (simp_all add: make_error_response_def)

lemma make_error_response_null_id_eq: "make_error_response_null_id c m d = make_error_response NullId c m d"
  by (simp add: make_error_response_null_id_def make_error_response_def)

definition int32_range :: "int \<Rightarrow> bool" where
  "int32_range c \<longleftrightarrow> - (2 ^ 31) \<le> c \<and> c < 2 ^ 31"

lemma get_int_code: "int32_range c \<Longrightarrow> get_int (JInt (word_of_int c)) = Inr c"
proof -
  assume c: "int32_range c"
  have "(ucast (word_of_int c :: 64 word) :: 32 word) = word_of_int c"
    by (simp add: ucast_down_wi is_down)
  moreover have "sint (word_of_int c :: 32 word) = c"
    using c by (simp add: int_word_sint int32_range_def)
  ultimately show ?thesis by simp
qed

lemma error_detail_from_error_object:
  "int32_range c \<Longrightarrow>
     error_detail_from_json (error_object c m d) = Inr \<lparr>ed_code = c, ed_message = m, ed_data = d\<rparr>"
  using error_object_get [of c m d] get_int_code [of c]
  by (auto simp: error_detail_from_json_def error_object_def)


section \<open>What the parsers make of the messages the library builds\<close>

lemma parse_built_request:
  assumes "req_id r \<noteq> NullId" and "structured (req_params r)"
  shows "parse_message what (serialize_request r) = PRequest r"
proof -
  have "params_ok (serialize_request r) \<and> message_params (serialize_request r) = req_params r"
    using assms(2) by (intro message_params_get) simp_all
  with assms(1) have "parse_request (serialize_request r) (request_id_to_json (req_id r)) (JStr (req_method r)) = PRequest r"
    by (simp add: parse_request_PRequest)
  then show ?thesis
    by (simp add: parse_message_cases check_envelope_iff)
qed

lemma parse_built_notification:
  assumes "structured (notif_params n)"
  shows "parse_message what (serialize_notification n) = PNotification n"
    and "parse_message_client what (serialize_notification n) = Inr (PNotification n)"
proof -
  have "params_ok (serialize_notification n) \<and> message_params (serialize_notification n) = notif_params n"
    using assms by (intro message_params_get) simp_all
  then have "parse_notification (serialize_notification n) (JStr (notif_method n)) = PNotification n"
    by (simp add: parse_notification_def)
  then show "parse_message what (serialize_notification n) = PNotification n"
    and "parse_message_client what (serialize_notification n) = Inr (PNotification n)"
    by (simp_all add: parse_message_cases parse_message_client_def parse_message_client_body_def check_envelope_iff)
qed

lemma parse_built_success:
  "parse_message_client what (make_success_response i r) = Inr (PSuccess \<lparr>ok_id = i, ok_result = r\<rparr>)"
  by (simp add: parse_message_client_def parse_message_client_body_def check_envelope_iff
      parse_response_client_def jmember_def)

lemma parse_built_error:
  assumes "int32_range c"
  shows "parse_message_client what (make_error_response i c m d)
    = Inr (PError \<lparr>err_id = i, err_error = \<lparr>ed_code = c, ed_message = m, ed_data = d\<rparr>\<rparr>)"
proof -
  have "jfield error_detail_from_json (make_error_response i c m d) ''error''
          = Inr \<lparr>ed_code = c, ed_message = m, ed_data = d\<rparr>"
    by (simp add: jfield_def make_error_response_def error_detail_from_error_object [OF assms])
  then show ?thesis
    by (simp add: parse_message_client_def parse_message_client_body_def check_envelope_iff
        parse_response_client_def jmember_def)
qed

text \<open>The responses to a request: they carry its id.\<close>

definition response_to :: "request_id \<Rightarrow> json \<Rightarrow> bool" where
  "response_to i m \<longleftrightarrow> (\<exists>r. m = make_success_response i r) \<or> (\<exists>c t d. m = make_error_response i c t d)"

lemma response_to_built [simp]:
  "response_to i (make_success_response i r)" "response_to i (make_error_response i c t d)"
  by (auto simp: response_to_def)

lemma parse_server_success:
  "i \<noteq> NullId \<Longrightarrow> parse_message what (make_success_response i r) = PSuccess \<lparr>ok_id = i, ok_result = r\<rparr>"
  by (simp add: parse_message_cases check_envelope_iff)

lemma parse_server_error:
  "parse_message what (make_error_response i c m d) =
     rpc_error_msg i INVALID_REQUEST ''Server received a response message (unexpected)''"
  by (simp add: parse_message_cases check_envelope_iff)

lemma parse_calls_agree:
  assumes "jcontains raw ''method''"
  shows "parse_message_client what raw = Inr (parse_message what raw)"
proof -
  obtain mj where "jget raw ''method'' = Some mj" using assms by (auto simp: jcontains_def)
  then show ?thesis
    by (auto simp: parse_message_client_def parse_message_client_body_def parse_message_def
        parse_message_body_def split: option.splits)
qed


section \<open>Properties\<close>

text \<open>What \<open>serialize_request\<close> writes, \<open>parse_message\<close> classifies as exactly that
  request, for every id but null and every absent or structured \<open>params\<close>.\<close>

theorem parse_serialize_request:
  assumes "req_id r \<noteq> NullId" and "structured (req_params r)"
  shows "parse_message what (serialize_request r) = PRequest r"
  by (rule parse_built_request [OF assms])

theorem parse_serialize_request_witness:
  "parse_message (\<lambda>_. []) (serialize_request \<lparr>req_id = IntId 7, req_method = ''tools/list'', req_params = Some (JObj [])\<rparr>)
     = PRequest \<lparr>req_id = IntId 7, req_method = ''tools/list'', req_params = Some (JObj [])\<rparr>"
  by (rule parse_serialize_request) (simp_all add: structured_def)

text \<open>What \<open>serialize_notification\<close> writes, both parsers classify as exactly that
  notification, for every absent or structured \<open>params\<close>.\<close>

theorem parse_serialize_notification:
  assumes "structured (notif_params n)"
  shows "parse_message what (serialize_notification n) = PNotification n
       \<and> parse_message_client what (serialize_notification n) = Inr (PNotification n)"
  using parse_built_notification [OF assms] by simp

theorem parse_serialize_notification_witness:
  "parse_message (\<lambda>_. []) (serialize_notification \<lparr>notif_method = ''notifications/initialized'', notif_params = None\<rparr>)
     = PNotification \<lparr>notif_method = ''notifications/initialized'', notif_params = None\<rparr>
   \<and> parse_message_client (\<lambda>_. []) (serialize_notification \<lparr>notif_method = ''notifications/initialized'', notif_params = None\<rparr>)
     = Inr (PNotification \<lparr>notif_method = ''notifications/initialized'', notif_params = None\<rparr>)"
  by (rule parse_serialize_notification) (simp add: structured_def)

text \<open>The client reads every response the server builds back to the same id and the
  same payload: a result for \<open>make_success_response\<close>, and for \<open>make_error_response\<close> with any
  code of a 32-bit \<open>int\<close> the same code, message and data.\<close>

theorem client_reads_responses:
  assumes "int32_range c"
  shows "parse_message_client what (make_success_response i r) = Inr (PSuccess \<lparr>ok_id = i, ok_result = r\<rparr>)
       \<and> parse_message_client what (make_error_response i c m d)
           = Inr (PError \<lparr>err_id = i, err_error = \<lparr>ed_code = c, ed_message = m, ed_data = d\<rparr>\<rparr>)"
  using parse_built_success parse_built_error [OF assms] by simp

theorem client_reads_responses_witness:
  "parse_message_client (\<lambda>_. []) (make_success_response (IntId 3) JNull) = Inr (PSuccess \<lparr>ok_id = IntId 3, ok_result = JNull\<rparr>)
   \<and> parse_message_client (\<lambda>_. []) (make_error_response (IntId 3) METHOD_NOT_FOUND ''x'' None)
       = Inr (PError \<lparr>err_id = IntId 3, err_error = \<lparr>ed_code = METHOD_NOT_FOUND, ed_message = ''x'', ed_data = None\<rparr>\<rparr>)"
  by (rule client_reads_responses) (simp add: int32_range_def METHOD_NOT_FOUND_def)

text \<open>\<open>parse_message\<close> yields a request exactly for a JSON-RPC 2.0 object with a string
  method, an id that is an integer or a string, and params that are absent, null or
  structured, and the request carries exactly these members. In particular a request never
  has the null id.\<close>

theorem parse_message_request_iff:
  "parse_message what raw = PRequest r \<longleftrightarrow>
     jget raw ''jsonrpc'' = Some (JStr ''2.0'') \<and>
     (\<exists>idj. jget raw ''id'' = Some idj \<and> request_id_from_json idj = Inr (req_id r)) \<and>
     req_id r \<noteq> NullId \<and> jget raw ''method'' = Some (JStr (req_method r)) \<and>
     params_ok raw \<and> req_params r = message_params raw"
proof (cases "check_jsonrpc_envelope raw")
  case True
  then show ?thesis
    by (auto simp: parse_message_cases parse_request_PRequest parse_failure_def rpc_error_msg_def
        parse_notification_not_request check_envelope_iff split: option.splits sum.splits)
next
  case False
  then show ?thesis
    by (simp add: parse_message_def parse_message_body_def rpc_error_msg_def check_envelope_iff)
qed


text \<open>A message with a method is classified identically on both sides of the
  connection; the client's parser differs from the server's only on responses and on
  messages that have neither id nor method.\<close>

theorem parsers_agree_on_calls:
  assumes "jcontains raw ''method''"
  shows "parse_message_client what raw = Inr (parse_message what raw)"
  by (rule parse_calls_agree [OF assms])

theorem parsers_agree_on_calls_witness:
  "parse_message_client (\<lambda>_. []) (jobject [(''jsonrpc'', JStr ''2.0''), (''method'', JStr ''ping'')])
     = Inr (parse_message (\<lambda>_. []) (jobject [(''jsonrpc'', JStr ''2.0''), (''method'', JStr ''ping'')]))"
  by (rule parsers_agree_on_calls) (simp add: jcontains_def)

text \<open>The server's parser discards the error a client reports for a server-initiated
  request: whatever code, message and data the client sent, the parsed message carries
  \<open>INVALID_REQUEST\<close> and a fixed text.\<close>

theorem server_parser_drops_client_error:
  "parse_message what (make_error_response i c m d) =
     rpc_error_msg i INVALID_REQUEST ''Server received a response message (unexpected)''"
  by (rule parse_server_error)

end
