(* ===== verification/Pending_Request.thy ===== *)
theory Pending_Request
  imports Jsonrpc
begin

text \<open>
  A pending outbound request of the client (\<open>pending_request.hpp\<close>, \<open>pending_request.cpp\<close>): its
  state machine, its promise and the callbacks it fires. The user's callbacks are named by the
  arguments they are called with; whether one throws is a parameter of what runs them.
\<close>

datatype request_state = Waiting | Succeeded | Errored | TimedOut | Cancelled | Failed

record mcp_outcome =
  out_terminal :: request_state
  out_result :: json
  out_rpc_error :: "error_detail option"
  out_failure :: "exn option"

definition mcp_outcome :: "request_state \<Rightarrow> mcp_outcome" where
  "mcp_outcome st = \<lparr>out_terminal = st, out_result = JNull, out_rpc_error = None, out_failure = None\<rparr>"

record pending_request =
  pr_id :: request_id
  pr_method :: string
  pr_token :: request_id
  pr_state :: request_state
  pr_timer :: bool
  pr_timeout :: int
  pr_has_complete :: bool
  pr_has_error :: bool
  pr_has_progress :: bool
  pr_outcome :: mcp_outcome
  pr_promise :: "mcp_outcome option"
  pr_cb_exec :: bool

definition PendingRequest :: "request_id \<Rightarrow> string \<Rightarrow> request_id \<Rightarrow> pending_request" where
  "PendingRequest i m tok =
     \<lparr>pr_id = i, pr_method = m, pr_token = tok, pr_state = Waiting, pr_timer = False, pr_timeout = 0,
      pr_has_complete = False, pr_has_error = False, pr_has_progress = False,
      pr_outcome = mcp_outcome Waiting, pr_promise = None, pr_cb_exec = False\<rparr>"

text \<open>\<open>get()\<close> waits for the promise: \<open>None\<close> while it is not set. An outcome that is not a success
  is thrown, the recorded failure first, then the server's error.\<close>

definition outcome_result :: "mcp_outcome \<Rightarrow> json res" where
  "outcome_result o' =
     (if out_terminal o' = Succeeded then Inr (out_result o')
      else case out_failure o' of Some e \<Rightarrow> Inl e
      | None \<Rightarrow> (case out_rpc_error o' of
          Some d \<Rightarrow> Inl (McpEx (ed_code d) (ed_message d) (ed_data d))
        | None \<Rightarrow> Inl (McpEx REQUEST_FAILED ''request terminated without a result'' None)))"

definition pr_get :: "pending_request \<Rightarrow> json res option" where
  "pr_get pr = map_option outcome_result (pr_promise pr)"

text \<open>The callbacks, with the arguments they get; the first argument tells the request.\<close>

datatype callback =
    OnComplete nat json
  | OnError nat mcp_outcome
  | OnProgress nat double "double option"

fun callback_owner :: "callback \<Rightarrow> nat" where
  "callback_owner (OnComplete a _) = a"
| "callback_owner (OnError a _) = a"
| "callback_owner (OnProgress a _ _) = a"

fun is_terminal_callback :: "callback \<Rightarrow> bool" where
  "is_terminal_callback (OnProgress _ _ _) = False"
| "is_terminal_callback _ = True"

definition dispatch_callbacks :: "nat \<Rightarrow> pending_request \<Rightarrow> callback list" where
  "dispatch_callbacks a pr =
     (if out_terminal (pr_outcome pr) = Succeeded
      then (if pr_has_complete pr then [OnComplete a (out_result (pr_outcome pr))] else [])
      else if pr_has_error pr then [OnError a (pr_outcome pr)] else [])"

text \<open>\<open>finish\<close> exchanges the state first; only a request that was waiting takes the outcome,
  stops its timer, sets the promise (an already satisfied promise throws, which is ignored) and
  dispatches its callbacks.\<close>

definition finish :: "nat \<Rightarrow> mcp_outcome \<Rightarrow> pending_request \<Rightarrow> pending_request \<times> callback list" where
  "finish a o' pr =
     (let pr' = pr\<lparr>pr_state := out_terminal o'\<rparr> in
      if pr_state pr \<noteq> Waiting then (pr', [])
      else
        let pr'' = pr'\<lparr>pr_outcome := o', pr_timer := False,
                        pr_promise := (case pr_promise pr of None \<Rightarrow> Some o' | Some x \<Rightarrow> Some x)\<rparr>
        in (pr'', dispatch_callbacks a pr''))"

definition deliver_progress :: "nat \<Rightarrow> double \<Rightarrow> double option \<Rightarrow> pending_request \<Rightarrow> callback list" where
  "deliver_progress a progress tot pr =
     (if pr_state pr \<noteq> Waiting then []
      else if \<not> pr_has_progress pr then []
      else [OnProgress a progress tot])"

text \<open>The outcome \<open>on_timer\<close> completes the request with.\<close>

definition timeout_outcome :: mcp_outcome where
  "timeout_outcome =
     (mcp_outcome TimedOut)\<lparr>out_failure := Some (McpEx REQUEST_TIMED_OUT ''request timed out'' None)\<rparr>"

definition arm_timer :: "pending_request \<Rightarrow> pending_request" where
  "arm_timer pr = (if pr_timeout pr \<le> 0 then pr else pr\<lparr>pr_timer := True\<rparr>)"


section \<open>Laws of a pending request\<close>

text \<open>A request is waiting exactly as long as its promise is not set.\<close>

definition pr_ok :: "pending_request \<Rightarrow> bool" where
  "pr_ok pr \<longleftrightarrow> (pr_state pr = Waiting \<longleftrightarrow> pr_promise pr = None)"

lemma pr_ok_new [simp]: "pr_ok (PendingRequest i m tok)"
  by (simp add: pr_ok_def PendingRequest_def)

lemma finish_ok [client_simps]:
  "pr_ok pr \<Longrightarrow> out_terminal o' \<noteq> Waiting \<Longrightarrow> pr_ok (fst (finish a o' pr))"
  by (auto simp: pr_ok_def finish_def Let_def split: option.splits)

lemma finish_terminal [simp]: "pr_state (fst (finish a o' pr)) = out_terminal o'"
  by (simp add: finish_def Let_def)

lemma finish_keeps [simp]:
  "pr_id (fst (finish a o' pr)) = pr_id pr" "pr_token (fst (finish a o' pr)) = pr_token pr"
  "pr_method (fst (finish a o' pr)) = pr_method pr"
  by (simp_all add: finish_def Let_def)

lemma finish_promise:
  "pr_ok pr \<Longrightarrow> pr_promise (fst (finish a o' pr)) = (case pr_promise pr of None \<Rightarrow> Some o' | Some x \<Rightarrow> Some x)"
  by (auto simp: pr_ok_def finish_def Let_def split: option.splits)

lemma finish_callbacks:
  "pr_ok pr \<Longrightarrow> snd (finish a o' pr) =
     (if pr_promise pr \<noteq> None then [] else dispatch_callbacks a (pr\<lparr>pr_outcome := o'\<rparr>))"
  by (auto simp: pr_ok_def finish_def Let_def dispatch_callbacks_def)

lemma arm_timer_ok [simp]: "pr_ok (arm_timer pr) = pr_ok pr"
  by (simp add: arm_timer_def pr_ok_def)

lemma arm_timer_keeps [simp]:
  "pr_id (arm_timer pr) = pr_id pr" "pr_token (arm_timer pr) = pr_token pr"
  "pr_state (arm_timer pr) = pr_state pr" "pr_promise (arm_timer pr) = pr_promise pr"
  "pr_method (arm_timer pr) = pr_method pr"
  by (simp_all add: arm_timer_def)

end
