(* ===== verification/Mcp_Types.thy ===== *)
theory Mcp_Types
  imports Codec
begin

text \<open>
  The MCP data types (\<open>types.hpp\<close>) and their JSON forms (\<open>types.cpp\<close>). Every struct is a
  record, \<open>std::variant\<close> a datatype. For each type \<open>T\<close> with both directions, \<open>T_to_json\<close> and
  \<open>T_from_json\<close> translate the two overloads; the record \<open>T_ok\<close> where it appears says which
  values the format can carry. The interpretations at the end of each section state that
  the pair is a codec.
\<close>

section \<open>Content\<close>

record text_content =
  tc_type :: string
  tc_text :: string

record image_content =
  ic_type :: string
  ic_data :: string
  ic_mime_type :: string

record audio_content =
  ac_type :: string
  ac_data :: string
  ac_mime_type :: string

record resource_contents =
  rc_uri :: string
  rc_mime_type :: string
  rc_text :: "string option"
  rc_blob :: "string option"

record embedded_resource =
  er_type :: string
  er_resource :: resource_contents

record resource_link =
  rl_type :: string
  rl_name :: string
  rl_uri :: string
  rl_description :: "string option"
  rl_mime_type :: "string option"

datatype content =
    CText text_content
  | CImage image_content
  | CAudio audio_content
  | CEmbedded embedded_resource
  | CLink resource_link

definition text_content_to_json :: "text_content \<Rightarrow> json" where
  [codec_simps]: "text_content_to_json t = jobject [(''type'', JStr (tc_type t)), (''text'', JStr (tc_text t))]"

definition text_content_from_json :: "json \<Rightarrow> text_content res" where
  [codec_simps]: "text_content_from_json j =
     bindE (jfield get_string j ''type'') (\<lambda>ty.
     bindE (jfield get_string j ''text'') (\<lambda>tx.
     Inr \<lparr>tc_type = ty, tc_text = tx\<rparr>))"

definition image_content_to_json :: "image_content \<Rightarrow> json" where
  [codec_simps]: "image_content_to_json i =
     jobject [(''type'', JStr (ic_type i)), (''data'', JStr (ic_data i)), (''mimeType'', JStr (ic_mime_type i))]"

definition image_content_from_json :: "json \<Rightarrow> image_content res" where
  [codec_simps]: "image_content_from_json j =
     bindE (jfield get_string j ''type'') (\<lambda>ty.
     bindE (jfield get_string j ''data'') (\<lambda>d.
     bindE (jfield get_string j ''mimeType'') (\<lambda>m.
     Inr \<lparr>ic_type = ty, ic_data = d, ic_mime_type = m\<rparr>)))"

definition audio_content_to_json :: "audio_content \<Rightarrow> json" where
  [codec_simps]: "audio_content_to_json a =
     jobject [(''type'', JStr (ac_type a)), (''data'', JStr (ac_data a)), (''mimeType'', JStr (ac_mime_type a))]"

definition audio_content_from_json :: "json \<Rightarrow> audio_content res" where
  [codec_simps]: "audio_content_from_json j =
     bindE (jfield get_string j ''type'') (\<lambda>ty.
     bindE (jfield get_string j ''data'') (\<lambda>d.
     bindE (jfield get_string j ''mimeType'') (\<lambda>m.
     Inr \<lparr>ac_type = ty, ac_data = d, ac_mime_type = m\<rparr>)))"

definition resource_contents_to_json :: "resource_contents \<Rightarrow> json" where
  [codec_simps]: "resource_contents_to_json r =
     JObj (oset_opt ''blob'' (map_option JStr (rc_blob r))
          (oset_opt ''text'' (map_option JStr (rc_text r))
          (oset_opt ''mimeType'' (if rc_mime_type r = [] then None else Some (JStr (rc_mime_type r)))
          (omap_of_list [(''uri'', JStr (rc_uri r))]))))"

definition resource_contents_from_json :: "json \<Rightarrow> resource_contents res" where
  [codec_simps]: "resource_contents_from_json j =
     bindE (jfield get_string j ''uri'') (\<lambda>u.
     bindE (jfield_opt get_string j ''mimeType'') (\<lambda>m.
     bindE (jfield_opt get_string j ''text'') (\<lambda>t.
     bindE (jfield_opt get_string j ''blob'') (\<lambda>b.
     Inr \<lparr>rc_uri = u, rc_mime_type = (case m of None \<Rightarrow> [] | Some x \<Rightarrow> x), rc_text = t, rc_blob = b\<rparr>))))"

definition embedded_resource_to_json :: "embedded_resource \<Rightarrow> json" where
  [codec_simps]: "embedded_resource_to_json e =
     jobject [(''type'', JStr (er_type e)), (''resource'', resource_contents_to_json (er_resource e))]"

definition embedded_resource_from_json :: "json \<Rightarrow> embedded_resource res" where
  [codec_simps]: "embedded_resource_from_json j =
     bindE (jfield get_string j ''type'') (\<lambda>ty.
     bindE (jfield resource_contents_from_json j ''resource'') (\<lambda>r.
     Inr \<lparr>er_type = ty, er_resource = r\<rparr>))"

definition resource_link_to_json :: "resource_link \<Rightarrow> json" where
  [codec_simps]: "resource_link_to_json rl =
     JObj (oset_opt ''mimeType'' (map_option JStr (rl_mime_type rl))
          (oset_opt ''description'' (map_option JStr (rl_description rl))
          (omap_of_list [(''type'', JStr (rl_type rl)), (''name'', JStr (rl_name rl)), (''uri'', JStr (rl_uri rl))])))"

definition resource_link_from_json :: "json \<Rightarrow> resource_link res" where
  [codec_simps]: "resource_link_from_json j =
     bindE (jfield get_string j ''type'') (\<lambda>ty.
     bindE (jfield get_string j ''name'') (\<lambda>n.
     bindE (jfield get_string j ''uri'') (\<lambda>u.
     bindE (jfield_opt get_string j ''description'') (\<lambda>d.
     bindE (jfield_opt get_string j ''mimeType'') (\<lambda>m.
     Inr \<lparr>rl_type = ty, rl_name = n, rl_uri = u, rl_description = d, rl_mime_type = m\<rparr>)))))"

fun content_to_json :: "content \<Rightarrow> json" where
  "content_to_json (CText t) = text_content_to_json t"
| "content_to_json (CImage i) = image_content_to_json i"
| "content_to_json (CAudio a) = audio_content_to_json a"
| "content_to_json (CEmbedded e) = embedded_resource_to_json e"
| "content_to_json (CLink l) = resource_link_to_json l"

definition content_from_json :: "json \<Rightarrow> content res" where
  "content_from_json j =
     bindE (jfield get_string j ''type'') (\<lambda>ty.
     if ty = ''text'' then bindE (text_content_from_json j) (\<lambda>x. Inr (CText x))
     else if ty = ''image'' then bindE (image_content_from_json j) (\<lambda>x. Inr (CImage x))
     else if ty = ''audio'' then bindE (audio_content_from_json j) (\<lambda>x. Inr (CAudio x))
     else if ty = ''resource'' then bindE (embedded_resource_from_json j) (\<lambda>x. Inr (CEmbedded x))
     else if ty = ''resource_link'' then bindE (resource_link_from_json j) (\<lambda>x. Inr (CLink x))
     else Inl (StdEx (''Unknown content type: '' @ ty)))"

text \<open>The type member of each alternative holds the tag its default initialiser gives it.\<close>

fun content_ok :: "content \<Rightarrow> bool" where
  "content_ok (CText t) = (tc_type t = ''text'')"
| "content_ok (CImage i) = (ic_type i = ''image'')"
| "content_ok (CAudio a) = (ac_type a = ''audio'')"
| "content_ok (CEmbedded e) = (er_type e = ''resource'')"
| "content_ok (CLink l) = (rl_type l = ''resource_link'')"


section \<open>Tools\<close>

record tool_annotations =
  ta_read_only_hint :: "bool option"
  ta_destructive_hint :: "bool option"
  ta_idempotent_hint :: "bool option"
  ta_open_world_hint :: "bool option"

record tool =
  tool_name :: string
  tool_title :: "string option"
  tool_description :: "string option"
  tool_input_schema :: json
  tool_output_schema :: "json option"
  tool_annots :: "tool_annotations option"

record call_tool_result =
  ctr_content :: "content list"
  ctr_structured_content :: "json option"
  ctr_is_error :: bool

definition tool_annotations_to_json :: "tool_annotations \<Rightarrow> json" where
  [codec_simps]: "tool_annotations_to_json ta =
     JObj (oset_opt ''openWorldHint'' (map_option JBool (ta_open_world_hint ta))
          (oset_opt ''idempotentHint'' (map_option JBool (ta_idempotent_hint ta))
          (oset_opt ''destructiveHint'' (map_option JBool (ta_destructive_hint ta))
          (oset_opt ''readOnlyHint'' (map_option JBool (ta_read_only_hint ta)) []))))"

definition tool_annotations_from_json :: "json \<Rightarrow> tool_annotations res" where
  [codec_simps]: "tool_annotations_from_json j =
     bindE (jfield_opt get_bool j ''readOnlyHint'') (\<lambda>r.
     bindE (jfield_opt get_bool j ''destructiveHint'') (\<lambda>d.
     bindE (jfield_opt get_bool j ''idempotentHint'') (\<lambda>i.
     bindE (jfield_opt get_bool j ''openWorldHint'') (\<lambda>w.
     Inr \<lparr>ta_read_only_hint = r, ta_destructive_hint = d, ta_idempotent_hint = i, ta_open_world_hint = w\<rparr>))))"

definition tool_to_json :: "tool \<Rightarrow> json" where
  [codec_simps]: "tool_to_json t =
     JObj (oset_opt ''annotations'' (map_option tool_annotations_to_json (tool_annots t))
          (oset_opt ''outputSchema'' (tool_output_schema t)
          (oset_opt ''description'' (map_option JStr (tool_description t))
          (oset_opt ''title'' (map_option JStr (tool_title t))
          (omap_of_list [(''name'', JStr (tool_name t)), (''inputSchema'', tool_input_schema t)])))))"

definition tool_from_json :: "json \<Rightarrow> tool res" where
  [codec_simps]: "tool_from_json j =
     bindE (jfield get_string j ''name'') (\<lambda>n.
     bindE (jfield Inr j ''inputSchema'') (\<lambda>s.
     bindE (jfield_opt get_string j ''title'') (\<lambda>t.
     bindE (jfield_opt get_string j ''description'') (\<lambda>d.
     bindE (jfield_opt Inr j ''outputSchema'') (\<lambda>os.
     bindE (jfield_opt tool_annotations_from_json j ''annotations'') (\<lambda>a.
     Inr \<lparr>tool_name = n, tool_title = t, tool_description = d, tool_input_schema = s,
          tool_output_schema = os, tool_annots = a\<rparr>))))))"

definition call_tool_result_to_json :: "call_tool_result \<Rightarrow> json" where
  [codec_simps]: "call_tool_result_to_json r =
     JObj (oset_opt ''isError'' (if ctr_is_error r then Some (JBool True) else None)
          (oset_opt ''structuredContent'' (ctr_structured_content r)
          (omap_of_list [(''content'', JArr (map content_to_json (ctr_content r)))])))"

definition call_tool_result_from_json :: "json \<Rightarrow> call_tool_result res" where
  [codec_simps]: "call_tool_result_from_json j =
     bindE (jfield (\<lambda>c. traverse content_from_json (jitems c)) j ''content'') (\<lambda>cs.
     bindE (jfield_opt Inr j ''structuredContent'') (\<lambda>s.
     bindE (jvalue get_bool j ''isError'' False) (\<lambda>e.
     Inr \<lparr>ctr_content = cs, ctr_structured_content = s, ctr_is_error = e\<rparr>)))"

definition call_tool_result_ok :: "call_tool_result \<Rightarrow> bool" where
  "call_tool_result_ok r \<longleftrightarrow> list_all content_ok (ctr_content r)"


section \<open>Resources\<close>

record resource_annotations =
  ra_audience :: "string list option"
  ra_priority :: "double option"

record resource =
  res_name :: string
  res_title :: "string option"
  res_uri :: string
  res_description :: "string option"
  res_mime_type :: "string option"
  res_annotations :: "resource_annotations option"

record read_resource_result =
  rrr_contents :: "resource_contents list"

record resource_template =
  rt_name :: string
  rt_title :: "string option"
  rt_uri_template :: string
  rt_description :: "string option"
  rt_mime_type :: "string option"

definition resource_annotations_to_json :: "resource_annotations \<Rightarrow> json" where
  [codec_simps]: "resource_annotations_to_json ra =
     JObj (oset_opt ''priority'' (map_option JFloat (ra_priority ra))
          (oset_opt ''audience'' (map_option (\<lambda>a. JArr (map JStr a)) (ra_audience ra)) []))"

definition resource_annotations_from_json :: "json \<Rightarrow> resource_annotations res" where
  [codec_simps]: "resource_annotations_from_json j =
     bindE (jfield_opt (get_vector get_string) j ''audience'') (\<lambda>a.
     bindE (jfield_opt get_double j ''priority'') (\<lambda>p.
     Inr \<lparr>ra_audience = a, ra_priority = p\<rparr>))"

definition resource_to_json :: "resource \<Rightarrow> json" where
  [codec_simps]: "resource_to_json r =
     JObj (oset_opt ''annotations'' (map_option resource_annotations_to_json (res_annotations r))
          (oset_opt ''mimeType'' (map_option JStr (res_mime_type r))
          (oset_opt ''description'' (map_option JStr (res_description r))
          (oset_opt ''title'' (map_option JStr (res_title r))
          (omap_of_list [(''name'', JStr (res_name r)), (''uri'', JStr (res_uri r))])))))"

definition resource_from_json :: "json \<Rightarrow> resource res" where
  [codec_simps]: "resource_from_json j =
     bindE (jfield get_string j ''name'') (\<lambda>n.
     bindE (jfield get_string j ''uri'') (\<lambda>u.
     bindE (jfield_opt get_string j ''title'') (\<lambda>t.
     bindE (jfield_opt get_string j ''description'') (\<lambda>d.
     bindE (jfield_opt get_string j ''mimeType'') (\<lambda>m.
     bindE (jfield_opt resource_annotations_from_json j ''annotations'') (\<lambda>a.
     Inr \<lparr>res_name = n, res_title = t, res_uri = u, res_description = d, res_mime_type = m,
          res_annotations = a\<rparr>))))))"

definition read_resource_result_to_json :: "read_resource_result \<Rightarrow> json" where
  [codec_simps]: "read_resource_result_to_json r =
     jobject [(''contents'', JArr (map resource_contents_to_json (rrr_contents r)))]"

definition read_resource_result_from_json :: "json \<Rightarrow> read_resource_result res" where
  [codec_simps]: "read_resource_result_from_json j =
     bindE (jfield (get_vector resource_contents_from_json) j ''contents'') (\<lambda>cs.
     Inr \<lparr>rrr_contents = cs\<rparr>)"

definition resource_template_to_json :: "resource_template \<Rightarrow> json" where
  [codec_simps]: "resource_template_to_json rt =
     JObj (oset_opt ''mimeType'' (map_option JStr (rt_mime_type rt))
          (oset_opt ''description'' (map_option JStr (rt_description rt))
          (oset_opt ''title'' (map_option JStr (rt_title rt))
          (omap_of_list [(''name'', JStr (rt_name rt)), (''uriTemplate'', JStr (rt_uri_template rt))]))))"

definition resource_template_from_json :: "json \<Rightarrow> resource_template res" where
  [codec_simps]: "resource_template_from_json j =
     bindE (jfield get_string j ''name'') (\<lambda>n.
     bindE (jfield get_string j ''uriTemplate'') (\<lambda>u.
     bindE (jfield_opt get_string j ''title'') (\<lambda>t.
     bindE (jfield_opt get_string j ''description'') (\<lambda>d.
     bindE (jfield_opt get_string j ''mimeType'') (\<lambda>m.
     Inr \<lparr>rt_name = n, rt_title = t, rt_uri_template = u, rt_description = d, rt_mime_type = m\<rparr>)))))"


section \<open>Prompts\<close>

record prompt_argument =
  pa_name :: string
  pa_description :: "string option"
  pa_required :: "bool option"

record prompt =
  prompt_name :: string
  prompt_title :: "string option"
  prompt_description :: "string option"
  prompt_arguments :: "prompt_argument list option"

record prompt_message =
  pm_role :: string
  pm_content :: content

record get_prompt_result =
  gpr_description :: "string option"
  gpr_messages :: "prompt_message list"

definition prompt_argument_to_json :: "prompt_argument \<Rightarrow> json" where
  [codec_simps]: "prompt_argument_to_json pa =
     JObj (oset_opt ''required'' (map_option JBool (pa_required pa))
          (oset_opt ''description'' (map_option JStr (pa_description pa))
          (omap_of_list [(''name'', JStr (pa_name pa))])))"

definition prompt_argument_from_json :: "json \<Rightarrow> prompt_argument res" where
  [codec_simps]: "prompt_argument_from_json j =
     bindE (jfield get_string j ''name'') (\<lambda>n.
     bindE (jfield_opt get_string j ''description'') (\<lambda>d.
     bindE (jfield_opt get_bool j ''required'') (\<lambda>r.
     Inr \<lparr>pa_name = n, pa_description = d, pa_required = r\<rparr>)))"

definition prompt_to_json :: "prompt \<Rightarrow> json" where
  [codec_simps]: "prompt_to_json p =
     JObj (oset_opt ''arguments'' (map_option (\<lambda>a. JArr (map prompt_argument_to_json a)) (prompt_arguments p))
          (oset_opt ''description'' (map_option JStr (prompt_description p))
          (oset_opt ''title'' (map_option JStr (prompt_title p))
          (omap_of_list [(''name'', JStr (prompt_name p))]))))"

definition prompt_from_json :: "json \<Rightarrow> prompt res" where
  [codec_simps]: "prompt_from_json j =
     bindE (jfield get_string j ''name'') (\<lambda>n.
     bindE (jfield_opt get_string j ''title'') (\<lambda>t.
     bindE (jfield_opt get_string j ''description'') (\<lambda>d.
     bindE (jfield_opt (get_vector prompt_argument_from_json) j ''arguments'') (\<lambda>a.
     Inr \<lparr>prompt_name = n, prompt_title = t, prompt_description = d, prompt_arguments = a\<rparr>))))"

definition prompt_message_to_json :: "prompt_message \<Rightarrow> json" where
  [codec_simps]: "prompt_message_to_json pm =
     jobject [(''role'', JStr (pm_role pm)), (''content'', content_to_json (pm_content pm))]"

definition prompt_message_from_json :: "json \<Rightarrow> prompt_message res" where
  [codec_simps]: "prompt_message_from_json j =
     bindE (jfield get_string j ''role'') (\<lambda>r.
     bindE (jfield content_from_json j ''content'') (\<lambda>c.
     Inr \<lparr>pm_role = r, pm_content = c\<rparr>))"

definition get_prompt_result_to_json :: "get_prompt_result \<Rightarrow> json" where
  [codec_simps]: "get_prompt_result_to_json r =
     JObj (oset ''messages'' (JArr (map prompt_message_to_json (gpr_messages r)))
          (oset_opt ''description'' (map_option JStr (gpr_description r)) []))"

definition get_prompt_result_from_json :: "json \<Rightarrow> get_prompt_result res" where
  [codec_simps]: "get_prompt_result_from_json j =
     bindE (jfield_opt get_string j ''description'') (\<lambda>d.
     bindE (jfield (get_vector prompt_message_from_json) j ''messages'') (\<lambda>ms.
     Inr \<lparr>gpr_description = d, gpr_messages = ms\<rparr>))"

definition prompt_message_ok :: "prompt_message \<Rightarrow> bool" where
  "prompt_message_ok pm \<longleftrightarrow> content_ok (pm_content pm)"

definition get_prompt_result_ok :: "get_prompt_result \<Rightarrow> bool" where
  "get_prompt_result_ok r \<longleftrightarrow> list_all prompt_message_ok (gpr_messages r)"



section \<open>Every pair is a codec\<close>

interpretation text_content_codec: codec text_content_to_json text_content_from_json "\<lambda>_. True"
  by unfold_locales (simp add: codec_simps)

interpretation image_content_codec: codec image_content_to_json image_content_from_json "\<lambda>_. True"
  by unfold_locales (simp add: codec_simps)

interpretation audio_content_codec: codec audio_content_to_json audio_content_from_json "\<lambda>_. True"
  by unfold_locales (simp add: codec_simps)

interpretation resource_contents_codec: codec resource_contents_to_json resource_contents_from_json "\<lambda>_. True"
  by unfold_locales (simp add: codec_simps)

interpretation embedded_resource_codec: codec embedded_resource_to_json embedded_resource_from_json "\<lambda>_. True"
  by unfold_locales
    (simp add: embedded_resource_to_json_def embedded_resource_from_json_def jfield_jobject
      resource_contents_codec.dec_enc)

interpretation resource_link_codec: codec resource_link_to_json resource_link_from_json "\<lambda>_. True"
  by unfold_locales (simp add: codec_simps)

lemma content_type_member:
  "content_ok c \<Longrightarrow>
     jfield get_string (content_to_json c) ''type'' =
       Inr (case c of CText _ \<Rightarrow> ''text'' | CImage _ \<Rightarrow> ''image'' | CAudio _ \<Rightarrow> ''audio''
              | CEmbedded _ \<Rightarrow> ''resource'' | CLink _ \<Rightarrow> ''resource_link'')"
  by (cases c) (simp_all add: codec_simps)

lemmas content_parts =
  text_content_codec.dec_enc image_content_codec.dec_enc audio_content_codec.dec_enc
  embedded_resource_codec.dec_enc resource_link_codec.dec_enc

interpretation content_codec: codec content_to_json content_from_json content_ok
proof unfold_locales
  fix c
  assume "content_ok c"
  from content_type_member [OF this] show "content_from_json (content_to_json c) = Inr c"
    by (cases c) (simp_all add: content_from_json_def content_parts)
qed

interpretation tool_annotations_codec: codec tool_annotations_to_json tool_annotations_from_json "\<lambda>_. True"
  by unfold_locales (simp add: codec_simps)

interpretation tool_codec: codec tool_to_json tool_from_json "\<lambda>_. True"
  by unfold_locales
    (simp add: tool_to_json_def tool_from_json_def jfield_JObj jfield_opt_JObj
      tool_annotations_codec.dec_enc)

interpretation call_tool_result_codec:
  codec call_tool_result_to_json call_tool_result_from_json call_tool_result_ok
  by unfold_locales
    (simp add: call_tool_result_to_json_def call_tool_result_from_json_def call_tool_result_ok_def
      jfield_JObj jfield_opt_JObj content_codec.traverse_enc)

interpretation resource_annotations_codec:
  codec resource_annotations_to_json resource_annotations_from_json "\<lambda>_. True"
  by unfold_locales (simp add: codec_simps vector_simps)

interpretation resource_codec: codec resource_to_json resource_from_json "\<lambda>_. True"
  by unfold_locales
    (simp add: resource_to_json_def resource_from_json_def jfield_JObj jfield_opt_JObj
      resource_annotations_codec.dec_enc)

interpretation read_resource_result_codec:
  codec read_resource_result_to_json read_resource_result_from_json "\<lambda>_. True"
  by unfold_locales
    (simp add: read_resource_result_to_json_def read_resource_result_from_json_def jfield_jobject
      resource_contents_codec.vector_enc)

interpretation resource_template_codec:
  codec resource_template_to_json resource_template_from_json "\<lambda>_. True"
  by unfold_locales (simp add: codec_simps)

interpretation prompt_argument_codec: codec prompt_argument_to_json prompt_argument_from_json "\<lambda>_. True"
  by unfold_locales (simp add: codec_simps)

interpretation prompt_codec: codec prompt_to_json prompt_from_json "\<lambda>_. True"
  by unfold_locales
    (simp add: prompt_to_json_def prompt_from_json_def jfield_JObj jfield_opt_JObj
      prompt_argument_codec.vector_enc)

interpretation prompt_message_codec: codec prompt_message_to_json prompt_message_from_json prompt_message_ok
  by unfold_locales
    (simp add: prompt_message_to_json_def prompt_message_from_json_def prompt_message_ok_def jfield_jobject
      content_codec.dec_enc)

interpretation get_prompt_result_codec:
  codec get_prompt_result_to_json get_prompt_result_from_json get_prompt_result_ok
  by unfold_locales
    (simp add: get_prompt_result_to_json_def get_prompt_result_from_json_def get_prompt_result_ok_def
      jfield_JObj jfield_opt_JObj prompt_message_codec.vector_enc)

end
