(* ===== verification/Mcp_Session_Types.thy ===== *)
theory Mcp_Session_Types
  imports Mcp_Types
begin

text \<open>
  The second half of \<open>types.hpp\<close> and \<open>types.cpp\<close>: capabilities, initialisation, completion,
  and the payloads of the requests a server sends to its client (sampling, elicitation,
  roots), again with the statement that each pair of conversions is a codec.
\<close>

section \<open>Capabilities\<close>

record prompts_capability = pc_list_changed :: "bool option"

record resources_capability =
  rcap_subscribe :: "bool option"
  rcap_list_changed :: "bool option"

record tools_capability = tcap_list_changed :: "bool option"

record server_capabilities =
  sc_prompts :: "prompts_capability option"
  sc_resources :: "resources_capability option"
  sc_tools :: "tools_capability option"
  sc_logging :: "unit option"
  sc_completions :: "unit option"
  sc_experimental :: "json option"

record roots_capability = rootcap_list_changed :: "bool option"

record client_capabilities =
  cc_sampling :: "unit option"
  cc_elicitation :: "unit option"
  cc_roots :: "roots_capability option"
  cc_experimental :: "json option"

definition empty_client_capabilities :: client_capabilities where
  "empty_client_capabilities =
     \<lparr>cc_sampling = None, cc_elicitation = None, cc_roots = None, cc_experimental = None\<rparr>"

definition prompts_capability_to_json :: "prompts_capability \<Rightarrow> json" where
  [codec_simps]: "prompts_capability_to_json c = JObj (oset_opt ''listChanged'' (map_option JBool (pc_list_changed c)) [])"

definition resources_capability_to_json :: "resources_capability \<Rightarrow> json" where
  [codec_simps]: "resources_capability_to_json c =
     JObj (oset_opt ''listChanged'' (map_option JBool (rcap_list_changed c))
          (oset_opt ''subscribe'' (map_option JBool (rcap_subscribe c)) []))"

definition tools_capability_to_json :: "tools_capability \<Rightarrow> json" where
  [codec_simps]: "tools_capability_to_json c = JObj (oset_opt ''listChanged'' (map_option JBool (tcap_list_changed c)) [])"

text \<open>\<open>LoggingCapability\<close>, \<open>CompletionsCapability\<close>, \<open>SamplingCapability\<close>,
  \<open>ElicitationCapability\<close> and \<open>EmptyResult\<close> are empty structs written as the empty object.\<close>

definition empty_struct_to_json :: "unit \<Rightarrow> json" where
  [codec_simps]: "empty_struct_to_json u = JObj []"

definition server_capabilities_to_json :: "server_capabilities \<Rightarrow> json" where
  [codec_simps]: "server_capabilities_to_json c =
     JObj (oset_opt ''experimental'' (sc_experimental c)
          (oset_opt ''completions'' (map_option empty_struct_to_json (sc_completions c))
          (oset_opt ''logging'' (map_option empty_struct_to_json (sc_logging c))
          (oset_opt ''tools'' (map_option tools_capability_to_json (sc_tools c))
          (oset_opt ''resources'' (map_option resources_capability_to_json (sc_resources c))
          (oset_opt ''prompts'' (map_option prompts_capability_to_json (sc_prompts c)) []))))))"

definition server_capabilities_from_json :: "json \<Rightarrow> server_capabilities res" where
  [codec_simps]: "server_capabilities_from_json j =
     bindE (jfield_opt (\<lambda>p. bindE (jfield_opt get_bool p ''listChanged'') (\<lambda>l. Inr \<lparr>pc_list_changed = l\<rparr>)) j ''prompts'') (\<lambda>p.
     bindE (jfield_opt (\<lambda>r. bindE (jfield_opt get_bool r ''subscribe'') (\<lambda>s.
                            bindE (jfield_opt get_bool r ''listChanged'') (\<lambda>l.
                            Inr \<lparr>rcap_subscribe = s, rcap_list_changed = l\<rparr>))) j ''resources'') (\<lambda>r.
     bindE (jfield_opt (\<lambda>t. bindE (jfield_opt get_bool t ''listChanged'') (\<lambda>l. Inr \<lparr>tcap_list_changed = l\<rparr>)) j ''tools'') (\<lambda>t.
     Inr \<lparr>sc_prompts = p, sc_resources = r, sc_tools = t,
          sc_logging = (if jcontains j ''logging'' then Some () else None),
          sc_completions = (if jcontains j ''completions'' then Some () else None),
          sc_experimental = jget j ''experimental''\<rparr>)))"

definition roots_capability_to_json :: "roots_capability \<Rightarrow> json" where
  [codec_simps]: "roots_capability_to_json c = JObj (oset_opt ''listChanged'' (map_option JBool (rootcap_list_changed c)) [])"

definition client_capabilities_to_json :: "client_capabilities \<Rightarrow> json" where
  [codec_simps]: "client_capabilities_to_json c =
     JObj (oset_opt ''experimental'' (cc_experimental c)
          (oset_opt ''roots'' (map_option roots_capability_to_json (cc_roots c))
          (oset_opt ''elicitation'' (map_option empty_struct_to_json (cc_elicitation c))
          (oset_opt ''sampling'' (map_option empty_struct_to_json (cc_sampling c)) []))))"

definition client_capabilities_from_json :: "json \<Rightarrow> client_capabilities res" where
  [codec_simps]: "client_capabilities_from_json j =
     bindE (jfield_opt (\<lambda>r. bindE (jfield_opt get_bool r ''listChanged'') (\<lambda>l. Inr \<lparr>rootcap_list_changed = l\<rparr>)) j ''roots'') (\<lambda>r.
     Inr \<lparr>cc_sampling = (if jcontains j ''sampling'' then Some () else None),
          cc_elicitation = (if jcontains j ''elicitation'' then Some () else None),
          cc_roots = r,
          cc_experimental = jget j ''experimental''\<rparr>)"


section \<open>Initialisation\<close>

record implementation =
  impl_name :: string
  impl_version :: string

record initialize_result =
  ir_protocol_version :: string
  ir_capabilities :: server_capabilities
  ir_server_info :: implementation
  ir_instructions :: "string option"

definition implementation_to_json :: "implementation \<Rightarrow> json" where
  [codec_simps]: "implementation_to_json i = jobject [(''name'', JStr (impl_name i)), (''version'', JStr (impl_version i))]"

definition implementation_from_json :: "json \<Rightarrow> implementation res" where
  [codec_simps]: "implementation_from_json j =
     bindE (jfield get_string j ''name'') (\<lambda>n.
     bindE (jfield get_string j ''version'') (\<lambda>v.
     Inr \<lparr>impl_name = n, impl_version = v\<rparr>))"

definition initialize_result_to_json :: "initialize_result \<Rightarrow> json" where
  [codec_simps]: "initialize_result_to_json r =
     JObj (oset_opt ''instructions'' (map_option JStr (ir_instructions r))
          (omap_of_list [(''protocolVersion'', JStr (ir_protocol_version r)),
                         (''capabilities'', server_capabilities_to_json (ir_capabilities r)),
                         (''serverInfo'', implementation_to_json (ir_server_info r))]))"

definition initialize_result_from_json :: "json \<Rightarrow> initialize_result res" where
  [codec_simps]: "initialize_result_from_json j =
     bindE (jfield get_string j ''protocolVersion'') (\<lambda>v.
     bindE (jfield server_capabilities_from_json j ''capabilities'') (\<lambda>c.
     bindE (jfield implementation_from_json j ''serverInfo'') (\<lambda>i.
     bindE (jfield_opt get_string j ''instructions'') (\<lambda>n.
     Inr \<lparr>ir_protocol_version = v, ir_capabilities = c, ir_server_info = i, ir_instructions = n\<rparr>))))"


section \<open>Completion\<close>

record completion_argument =
  carg_name :: string
  carg_value :: string

record completion_reference =
  cref_type :: string
  cref_name :: string

record completion =
  comp_values :: "string list"
  comp_has_more :: "bool option"
  comp_total :: "64 word option"

record complete_result =
  cr_completion :: completion

definition completion_to_json :: "completion \<Rightarrow> json" where
  [codec_simps]: "completion_to_json c =
     JObj (oset_opt ''total'' (map_option JInt (comp_total c))
          (oset_opt ''hasMore'' (map_option JBool (comp_has_more c))
          (omap_of_list [(''values'', JArr (map JStr (comp_values c)))])))"

definition complete_result_to_json :: "complete_result \<Rightarrow> json" where
  [codec_simps]: "complete_result_to_json r = jobject [(''completion'', completion_to_json (cr_completion r))]"


section \<open>Sampling\<close>

record sampling_message =
  sm_role :: string
  sm_content :: content

record model_hint = mh_name :: "string option"

record model_preferences =
  mp_hints :: "model_hint list"
  mp_cost_priority :: "double option"
  mp_speed_priority :: "double option"
  mp_intelligence_priority :: "double option"

record create_message_params =
  cmp_messages :: "sampling_message list"
  cmp_model_preferences :: "model_preferences option"
  cmp_system_prompt :: "string option"
  cmp_include_context :: "string option"
  cmp_temperature :: "double option"
  cmp_max_tokens :: "64 word option"
  cmp_stop_sequences :: "string list"
  cmp_metadata :: "json option"

record create_message_result =
  cmr_role :: string
  cmr_content :: content
  cmr_model :: string
  cmr_stop_reason :: string

definition model_hint_to_json :: "model_hint \<Rightarrow> json" where
  [codec_simps]: "model_hint_to_json h = JObj (oset_opt ''name'' (map_option JStr (mh_name h)) [])"

definition model_hint_from_json :: "json \<Rightarrow> model_hint res" where
  [codec_simps]: "model_hint_from_json j = bindE (jfield_opt get_string j ''name'') (\<lambda>n. Inr \<lparr>mh_name = n\<rparr>)"

definition model_preferences_to_json :: "model_preferences \<Rightarrow> json" where
  [codec_simps]: "model_preferences_to_json p =
     JObj (oset_opt ''intelligencePriority'' (map_option JFloat (mp_intelligence_priority p))
          (oset_opt ''speedPriority'' (map_option JFloat (mp_speed_priority p))
          (oset_opt ''costPriority'' (map_option JFloat (mp_cost_priority p))
          (oset_opt ''hints'' (if mp_hints p = [] then None else Some (JArr (map model_hint_to_json (mp_hints p)))) []))))"

definition model_preferences_from_json :: "json \<Rightarrow> model_preferences res" where
  [codec_simps]: "model_preferences_from_json j =
     bindE (jfield_opt (\<lambda>h. traverse model_hint_from_json (jitems h)) j ''hints'') (\<lambda>h.
     bindE (jfield_opt get_double j ''costPriority'') (\<lambda>c.
     bindE (jfield_opt get_double j ''speedPriority'') (\<lambda>s.
     bindE (jfield_opt get_double j ''intelligencePriority'') (\<lambda>i.
     Inr \<lparr>mp_hints = (case h of None \<Rightarrow> [] | Some hs \<Rightarrow> hs), mp_cost_priority = c,
          mp_speed_priority = s, mp_intelligence_priority = i\<rparr>))))"

definition sampling_message_to_json :: "sampling_message \<Rightarrow> json" where
  [codec_simps]: "sampling_message_to_json m =
     jobject [(''role'', JStr (sm_role m)), (''content'', content_to_json (sm_content m))]"

definition sampling_message_from_json :: "json \<Rightarrow> sampling_message res" where
  [codec_simps]: "sampling_message_from_json j =
     bindE (jfield get_string j ''role'') (\<lambda>r.
     bindE (jfield content_from_json j ''content'') (\<lambda>c.
     Inr \<lparr>sm_role = r, sm_content = c\<rparr>))"

definition create_message_params_to_json :: "create_message_params \<Rightarrow> json" where
  [codec_simps]: "create_message_params_to_json p =
     JObj (oset_opt ''metadata'' (cmp_metadata p)
          (oset_opt ''stopSequences'' (if cmp_stop_sequences p = [] then None else Some (JArr (map JStr (cmp_stop_sequences p))))
          (oset_opt ''maxTokens'' (map_option JInt (cmp_max_tokens p))
          (oset_opt ''temperature'' (map_option JFloat (cmp_temperature p))
          (oset_opt ''includeContext'' (map_option JStr (cmp_include_context p))
          (oset_opt ''systemPrompt'' (map_option JStr (cmp_system_prompt p))
          (oset_opt ''modelPreferences'' (map_option model_preferences_to_json (cmp_model_preferences p))
          (omap_of_list [(''messages'', JArr (map sampling_message_to_json (cmp_messages p)))]))))))))"

definition create_message_params_from_json :: "json \<Rightarrow> create_message_params res" where
  [codec_simps]: "create_message_params_from_json j =
     bindE (jfield (\<lambda>m. traverse sampling_message_from_json (jitems m)) j ''messages'') (\<lambda>ms.
     bindE (jfield_opt model_preferences_from_json j ''modelPreferences'') (\<lambda>mp.
     bindE (jfield_opt get_string j ''systemPrompt'') (\<lambda>sp.
     bindE (jfield_opt get_string j ''includeContext'') (\<lambda>ic.
     bindE (jfield_opt get_double j ''temperature'') (\<lambda>t.
     bindE (jfield_opt get_int64 j ''maxTokens'') (\<lambda>mt.
     bindE (jfield_opt (get_vector get_string) j ''stopSequences'') (\<lambda>ss.
     Inr \<lparr>cmp_messages = ms, cmp_model_preferences = mp, cmp_system_prompt = sp, cmp_include_context = ic,
          cmp_temperature = t, cmp_max_tokens = mt,
          cmp_stop_sequences = (case ss of None \<Rightarrow> [] | Some x \<Rightarrow> x),
          cmp_metadata = jget j ''metadata''\<rparr>)))))))"

definition create_message_result_to_json :: "create_message_result \<Rightarrow> json" where
  [codec_simps]: "create_message_result_to_json r =
     jobject [(''role'', JStr (cmr_role r)), (''content'', content_to_json (cmr_content r)),
              (''model'', JStr (cmr_model r)), (''stopReason'', JStr (cmr_stop_reason r))]"

definition create_message_result_from_json :: "json \<Rightarrow> create_message_result res" where
  [codec_simps]: "create_message_result_from_json j =
     bindE (jfield get_string j ''role'') (\<lambda>r.
     bindE (jfield content_from_json j ''content'') (\<lambda>c.
     bindE (jfield get_string j ''model'') (\<lambda>m.
     bindE (jfield_opt get_string j ''stopReason'') (\<lambda>s.
     Inr \<lparr>cmr_role = r, cmr_content = c, cmr_model = m,
          cmr_stop_reason = (case s of None \<Rightarrow> [] | Some x \<Rightarrow> x)\<rparr>))))"

definition sampling_message_ok :: "sampling_message \<Rightarrow> bool" where
  "sampling_message_ok m \<longleftrightarrow> content_ok (sm_content m)"

definition create_message_params_ok :: "create_message_params \<Rightarrow> bool" where
  "create_message_params_ok p \<longleftrightarrow> list_all sampling_message_ok (cmp_messages p)"

definition create_message_result_ok :: "create_message_result \<Rightarrow> bool" where
  "create_message_result_ok r \<longleftrightarrow> content_ok (cmr_content r)"


section \<open>Elicitation and roots\<close>

record elicit_params =
  ep_message :: string
  ep_requested_schema :: "json option"

record elicit_result =
  elr_action :: string
  elr_content :: "json option"

record root =
  root_uri :: string
  root_name :: "string option"

record list_roots_result =
  lrr_roots :: "root list"

definition elicit_params_to_json :: "elicit_params \<Rightarrow> json" where
  [codec_simps]: "elicit_params_to_json p =
     JObj (oset_opt ''requestedSchema'' (ep_requested_schema p) (omap_of_list [(''message'', JStr (ep_message p))]))"

definition elicit_params_from_json :: "json \<Rightarrow> elicit_params res" where
  [codec_simps]: "elicit_params_from_json j =
     bindE (jfield get_string j ''message'') (\<lambda>m.
     Inr \<lparr>ep_message = m, ep_requested_schema = jget j ''requestedSchema''\<rparr>)"

definition elicit_result_to_json :: "elicit_result \<Rightarrow> json" where
  [codec_simps]: "elicit_result_to_json r =
     JObj (oset_opt ''content'' (elr_content r) (omap_of_list [(''action'', JStr (elr_action r))]))"

definition elicit_result_from_json :: "json \<Rightarrow> elicit_result res" where
  [codec_simps]: "elicit_result_from_json j =
     bindE (jfield get_string j ''action'') (\<lambda>a.
     Inr \<lparr>elr_action = a, elr_content = jget j ''content''\<rparr>)"

definition root_to_json :: "root \<Rightarrow> json" where
  [codec_simps]: "root_to_json r =
     JObj (oset_opt ''name'' (map_option JStr (root_name r)) (omap_of_list [(''uri'', JStr (root_uri r))]))"

definition root_from_json :: "json \<Rightarrow> root res" where
  [codec_simps]: "root_from_json j =
     bindE (jfield get_string j ''uri'') (\<lambda>u.
     bindE (jfield_opt get_string j ''name'') (\<lambda>n.
     Inr \<lparr>root_uri = u, root_name = n\<rparr>))"

definition list_roots_result_to_json :: "list_roots_result \<Rightarrow> json" where
  [codec_simps]: "list_roots_result_to_json r = jobject [(''roots'', JArr (map root_to_json (lrr_roots r)))]"

definition list_roots_result_from_json :: "json \<Rightarrow> list_roots_result res" where
  [codec_simps]: "list_roots_result_from_json j =
     bindE (jfield (get_vector root_from_json) j ''roots'') (\<lambda>rs. Inr \<lparr>lrr_roots = rs\<rparr>)"


section \<open>Every pair is a codec\<close>

lemma jcontains_iff_Some: "(if jcontains j k then Some () else None) = map_option (\<lambda>_. ()) (jget j k)"
  by (cases "jget j k") (simp_all add: jcontains_def)

lemma map_option_unit [simp]: "map_option (\<lambda>_. ()) (map_option f (w :: unit option)) = w"
  by (cases w) simp_all

declare option.map_ident [simp]

lemma capability_eta [simp]:
  "\<lparr>pc_list_changed = pc_list_changed (a :: prompts_capability)\<rparr> = a"
  "\<lparr>rcap_subscribe = rcap_subscribe b, rcap_list_changed = rcap_list_changed (b :: resources_capability)\<rparr> = b"
  "\<lparr>tcap_list_changed = tcap_list_changed (c :: tools_capability)\<rparr> = c"
  "\<lparr>rootcap_list_changed = rootcap_list_changed (d :: roots_capability)\<rparr> = d"
  by simp_all

lemma opt_res_const [simp]: "opt_res (\<lambda>x. Inr (f x)) w = Inr (map_option f w)"
  by (cases w) simp_all

interpretation server_capabilities_codec:
  codec server_capabilities_to_json server_capabilities_from_json "\<lambda>_. True"
  by unfold_locales (simp add: codec_simps jcontains_iff_Some del: jcontains_JObj)

interpretation client_capabilities_codec:
  codec client_capabilities_to_json client_capabilities_from_json "\<lambda>_. True"
  by unfold_locales (simp add: codec_simps jcontains_iff_Some del: jcontains_JObj)

interpretation implementation_codec: codec implementation_to_json implementation_from_json "\<lambda>_. True"
  by unfold_locales (simp add: codec_simps)

interpretation initialize_result_codec:
  codec initialize_result_to_json initialize_result_from_json "\<lambda>_. True"
  by unfold_locales
    (simp add: initialize_result_to_json_def initialize_result_from_json_def jfield_JObj jfield_opt_JObj
      server_capabilities_codec.dec_enc implementation_codec.dec_enc)

interpretation model_hint_codec: codec model_hint_to_json model_hint_from_json "\<lambda>_. True"
  by unfold_locales (simp add: codec_simps)

interpretation model_preferences_codec:
  codec model_preferences_to_json model_preferences_from_json "\<lambda>_. True"
  by unfold_locales
    (simp add: model_preferences_to_json_def model_preferences_from_json_def jfield_opt_JObj
      model_hint_codec.traverse_enc)

interpretation sampling_message_codec:
  codec sampling_message_to_json sampling_message_from_json sampling_message_ok
  by unfold_locales
    (simp add: sampling_message_to_json_def sampling_message_from_json_def sampling_message_ok_def
      jfield_jobject content_codec.dec_enc)

interpretation create_message_params_codec:
  codec create_message_params_to_json create_message_params_from_json create_message_params_ok
  by unfold_locales
    (simp add: create_message_params_to_json_def create_message_params_from_json_def
      create_message_params_ok_def jfield_JObj jfield_opt_JObj model_preferences_codec.dec_enc
      sampling_message_codec.traverse_enc vector_simps)

interpretation create_message_result_codec:
  codec create_message_result_to_json create_message_result_from_json create_message_result_ok
  by unfold_locales
    (simp add: create_message_result_to_json_def create_message_result_from_json_def
      create_message_result_ok_def jfield_jobject jfield_opt_def content_codec.dec_enc)

interpretation elicit_params_codec: codec elicit_params_to_json elicit_params_from_json "\<lambda>_. True"
  by unfold_locales (simp add: codec_simps)

interpretation elicit_result_codec: codec elicit_result_to_json elicit_result_from_json "\<lambda>_. True"
  by unfold_locales (simp add: codec_simps)

interpretation root_codec: codec root_to_json root_from_json "\<lambda>_. True"
  by unfold_locales (simp add: codec_simps)

interpretation list_roots_result_codec:
  codec list_roots_result_to_json list_roots_result_from_json "\<lambda>_. True"
  by unfold_locales
    (simp add: list_roots_result_to_json_def list_roots_result_from_json_def jfield_jobject
      root_codec.vector_enc)



section \<open>Properties\<close>

lemma content_from_json_ok: "content_from_json j = Inr c \<Longrightarrow> content_ok c"
  by (auto simp: content_from_json_def bindE_Inr_iff text_content_from_json_def
      image_content_from_json_def audio_content_from_json_def embedded_resource_from_json_def
      resource_link_from_json_def split: if_splits)

text \<open>Content survives the wire: every content value whose type tag matches its
  alternative is read back unchanged by \<open>content_from_json\<close>, and every value
  \<open>content_from_json\<close> ever produces is such a value, so reading, writing and reading again
  gives the same content.\<close>

theorem content_roundtrip:
  assumes "content_ok c \<or> content_from_json j = Inr c"
  shows "content_from_json (content_to_json c) = Inr c"
proof -
  have "content_ok c" using assms content_from_json_ok by blast
  then show ?thesis by (rule content_codec.dec_enc)
qed

theorem content_roundtrip_witness:
  "content_from_json (content_to_json (CLink \<lparr>rl_type = ''resource_link'', rl_name = ''n'', rl_uri = ''u'',
      rl_description = None, rl_mime_type = Some ''text/plain''\<rparr>))
   = Inr (CLink \<lparr>rl_type = ''resource_link'', rl_name = ''n'', rl_uri = ''u'',
      rl_description = None, rl_mime_type = Some ''text/plain''\<rparr>)"
  by (rule content_roundtrip) simp

text \<open>The result of a tool call, of reading a resource and of getting a prompt is read
  by the client exactly as the handler returned it, provided the content blocks carry their
  own type tags.\<close>

theorem call_results_roundtrip:
  assumes "call_tool_result_ok r" and "get_prompt_result_ok g"
  shows "call_tool_result_from_json (call_tool_result_to_json r) = Inr r \<and>
         get_prompt_result_from_json (get_prompt_result_to_json g) = Inr g \<and>
         read_resource_result_from_json (read_resource_result_to_json rr) = Inr rr"
  using assms
  by (simp add: call_tool_result_codec.dec_enc get_prompt_result_codec.dec_enc
      read_resource_result_codec.dec_enc)

theorem call_results_roundtrip_witness:
  "call_tool_result_from_json (call_tool_result_to_json
       \<lparr>ctr_content = [CText \<lparr>tc_type = ''text'', tc_text = ''hi''\<rparr>], ctr_structured_content = None, ctr_is_error = True\<rparr>)
     = Inr \<lparr>ctr_content = [CText \<lparr>tc_type = ''text'', tc_text = ''hi''\<rparr>], ctr_structured_content = None, ctr_is_error = True\<rparr> \<and>
   get_prompt_result_from_json (get_prompt_result_to_json \<lparr>gpr_description = None, gpr_messages = []\<rparr>)
     = Inr \<lparr>gpr_description = None, gpr_messages = []\<rparr> \<and>
   read_resource_result_from_json (read_resource_result_to_json \<lparr>rrr_contents = []\<rparr>) = Inr \<lparr>rrr_contents = []\<rparr>"
  by (rule call_results_roundtrip) (simp_all add: call_tool_result_ok_def get_prompt_result_ok_def)

text \<open>The descriptors a server advertises, tools, resources, resource templates and
  prompts, and the two sides of the initialize handshake, the initialize result and the
  client capabilities, are read back exactly as they were written, with every optional
  member absent or present.\<close>

theorem descriptor_roundtrip:
  "tool_from_json (tool_to_json t) = Inr t \<and>
   resource_from_json (resource_to_json r) = Inr r \<and>
   resource_template_from_json (resource_template_to_json rt) = Inr rt \<and>
   prompt_from_json (prompt_to_json p) = Inr p \<and>
   initialize_result_from_json (initialize_result_to_json ir) = Inr ir \<and>
   client_capabilities_from_json (client_capabilities_to_json cc) = Inr cc"
  by (simp add: tool_codec.dec_enc resource_codec.dec_enc resource_template_codec.dec_enc
      prompt_codec.dec_enc initialize_result_codec.dec_enc client_capabilities_codec.dec_enc)

text \<open>The payloads of the requests a server sends to its client (sampling, elicitation,
  roots) and of their answers are read back exactly as they were written.\<close>

theorem server_request_payload_roundtrip:
  assumes "create_message_params_ok p" and "create_message_result_ok r"
  shows "create_message_params_from_json (create_message_params_to_json p) = Inr p \<and>
         create_message_result_from_json (create_message_result_to_json r) = Inr r \<and>
         elicit_params_from_json (elicit_params_to_json ep) = Inr ep \<and>
         elicit_result_from_json (elicit_result_to_json er) = Inr er \<and>
         list_roots_result_from_json (list_roots_result_to_json lr) = Inr lr"
  using assms
  by (simp add: create_message_params_codec.dec_enc create_message_result_codec.dec_enc
      elicit_params_codec.dec_enc elicit_result_codec.dec_enc list_roots_result_codec.dec_enc)

theorem server_request_payload_roundtrip_witness:
  "create_message_params_from_json (create_message_params_to_json
       \<lparr>cmp_messages = [], cmp_model_preferences = None, cmp_system_prompt = Some ''s'', cmp_include_context = None,
        cmp_temperature = None, cmp_max_tokens = Some 100, cmp_stop_sequences = [''x''], cmp_metadata = None\<rparr>)
     = Inr \<lparr>cmp_messages = [], cmp_model_preferences = None, cmp_system_prompt = Some ''s'', cmp_include_context = None,
        cmp_temperature = None, cmp_max_tokens = Some 100, cmp_stop_sequences = [''x''], cmp_metadata = None\<rparr> \<and>
   create_message_result_from_json (create_message_result_to_json
       \<lparr>cmr_role = ''user'', cmr_content = CText \<lparr>tc_type = ''text'', tc_text = []\<rparr>, cmr_model = ''m'', cmr_stop_reason = []\<rparr>)
     = Inr \<lparr>cmr_role = ''user'', cmr_content = CText \<lparr>tc_type = ''text'', tc_text = []\<rparr>, cmr_model = ''m'', cmr_stop_reason = []\<rparr> \<and>
   elicit_params_from_json (elicit_params_to_json \<lparr>ep_message = ''q'', ep_requested_schema = None\<rparr>)
     = Inr \<lparr>ep_message = ''q'', ep_requested_schema = None\<rparr> \<and>
   elicit_result_from_json (elicit_result_to_json \<lparr>elr_action = ''accept'', elr_content = Some (JBool True)\<rparr>)
     = Inr \<lparr>elr_action = ''accept'', elr_content = Some (JBool True)\<rparr> \<and>
   list_roots_result_from_json (list_roots_result_to_json \<lparr>lrr_roots = [\<lparr>root_uri = ''file:///'', root_name = None\<rparr>]\<rparr>)
     = Inr \<lparr>lrr_roots = [\<lparr>root_uri = ''file:///'', root_name = None\<rparr>]\<rparr>"
  by (rule server_request_payload_roundtrip) (simp_all add: create_message_params_ok_def create_message_result_ok_def)

end
