(* ===== verification/Client.thy ===== *)
theory Client
  imports Pending_Request Mcp_Session_Types
begin

text \<open>
  The client (\<open>client.hpp\<close>, \<open>client.cpp\<close>). Its tables belong to a strand: whatever touches them
  is a task posted to the strand, and the strand runs its tasks one at a time in the order in
  which they were posted. The model keeps the queue of posted tasks in the state; an operation a
  user thread calls changes the atomic flags and posts, and \<open>io_run_one\<close> runs the first task.
  A \<open>PendingRequest\<close> is shared by the user, the table (under up to two keys) and its timer, so the
  requests live in a store, \<open>cl_reqs\<close>, and everything else holds their addresses.

  What the transport is told, which callbacks and handlers were called, and what was logged is
  recorded in the state. User callbacks and handlers are functions of their arguments; the
  environment tells which of the callbacks throw.
\<close>

datatype transport_call = TConnect | TDisconnect | TSend json

record log_message =
  lm_level :: string
  lm_data :: string
  lm_logger :: "string option"

datatype notified =
    NResourceUpdated string
  | NListChanged string
  | NServerLog log_message
  | NRootsChanged
  | NDisconnected

datatype strand_task =
    Register nat "json option"
  | CancelTask request_id string
  | Message json
  | TransportDown
  | Drain string
  | Timer nat bool
  | Reply json

record submit_args =
  sa_method :: string
  sa_params :: "json option"
  sa_complete :: bool
  sa_error :: bool
  sa_progress :: bool
  sa_timeout :: int
  sa_token :: "request_id option"

record inbound_job =
  ij_id :: request_id
  ij_run :: "json \<Rightarrow> json res"
  ij_params :: json

record client =
  cl_info :: implementation
  cl_caps :: client_capabilities
  cl_workers :: nat
  cl_default_timeout :: int
  cl_owns_io :: bool
  cl_io_alive :: bool
  cl_running :: bool
  cl_stopping :: bool
  cl_transport :: bool
  cl_executor :: bool
  cl_pool_alive :: bool
  cl_cb_exec :: bool
  cl_pending :: "(request_id \<times> nat) list"
  cl_next_id :: "64 word"
  cl_server_result :: "initialize_result option"
  cl_connected :: bool
  cl_initialized :: bool
  cl_sampling_handler :: "(create_message_params \<Rightarrow> create_message_result res) option"
  cl_elicitation_handler :: "(elicit_params \<Rightarrow> elicit_result res) option"
  cl_roots_handler :: "(unit \<Rightarrow> list_roots_result res) option"
  cl_disconnect_handler :: "(unit \<Rightarrow> exn option) option"
  cl_resource_updated_handler :: "(string \<Rightarrow> exn option) option"
  cl_list_changed_handler :: "(string \<Rightarrow> exn option) option"
  cl_server_log_handler :: "(log_message \<Rightarrow> exn option) option"
  cl_roots_changed_handler :: "(unit \<Rightarrow> exn option) option"
  cl_reqs :: "pending_request list"
  cl_tasks :: "strand_task list"
  cl_submitting :: "submit_args list"
  cl_pool :: "inbound_job list"
  cl_posted :: "callback list"
  cl_calls :: "transport_call list"
  cl_fired :: "callback list"
  cl_notified :: "notified list"
  cl_log :: "string list"

record client_env =
  ce_what :: "json_error \<Rightarrow> string"
  ce_callback :: "callback \<Rightarrow> exn option"

definition McpClient :: "implementation \<Rightarrow> client_capabilities \<Rightarrow> client" where
  "McpClient info caps =
     \<lparr>cl_info = info, cl_caps = caps, cl_workers = 0, cl_default_timeout = 0, cl_owns_io = True,
      cl_io_alive = True, cl_running = False, cl_stopping = False, cl_transport = False,
      cl_executor = False, cl_pool_alive = False, cl_cb_exec = False, cl_pending = [], cl_next_id = 1, cl_server_result = None,
      cl_connected = False, cl_initialized = False, cl_sampling_handler = None,
      cl_elicitation_handler = None, cl_roots_handler = None, cl_disconnect_handler = None,
      cl_resource_updated_handler = None, cl_list_changed_handler = None, cl_server_log_handler = None,
      cl_roots_changed_handler = None, cl_reqs = [], cl_tasks = [], cl_submitting = [], cl_pool = [],
      cl_posted = [], cl_calls = [], cl_fired = [], cl_notified = [], cl_log = []\<rparr>"

definition post :: "strand_task \<Rightarrow> client \<Rightarrow> client" where
  "post t s = s\<lparr>cl_tasks := cl_tasks s @ [t]\<rparr>"

definition clog :: "string \<Rightarrow> client \<Rightarrow> client" where
  "clog m s = s\<lparr>cl_log := cl_log s @ [m]\<rparr>"

definition tcall :: "transport_call \<Rightarrow> client \<Rightarrow> client" where
  "tcall c s = s\<lparr>cl_calls := cl_calls s @ [c]\<rparr>"

definition raw_send :: "json \<Rightarrow> client \<Rightarrow> client" where
  "raw_send m s = (if cl_transport s then tcall (TSend m) s else s)"

definition send_notification :: "string \<Rightarrow> json \<Rightarrow> client \<Rightarrow> client" where
  "send_notification m p s = raw_send (serialize_notification \<lparr>notif_method = m, notif_params = Some p\<rparr>) s"


section \<open>Configuration\<close>

definition use_transport :: "client \<Rightarrow> client" where
  "use_transport s =
     (if cl_running s \<and> cl_connected s
      then clog ''McpClient: use_transport ignored - client is connected'' s
      else s\<lparr>cl_transport := True\<rparr>)"

definition set_io_context :: "client \<Rightarrow> client" where
  "set_io_context s = (if cl_running s then s else s\<lparr>cl_owns_io := False\<rparr>)"

definition set_worker_threads :: "nat \<Rightarrow> client \<Rightarrow> client" where
  "set_worker_threads n s = s\<lparr>cl_workers := n\<rparr>"

definition set_callback_executor :: "client \<Rightarrow> client" where
  "set_callback_executor s = s\<lparr>cl_cb_exec := True\<rparr>"

definition set_default_request_timeout :: "int \<Rightarrow> client \<Rightarrow> client" where
  "set_default_request_timeout t s = s\<lparr>cl_default_timeout := t\<rparr>"

definition ensure_executor :: "client \<Rightarrow> client" where
  "ensure_executor s = (if cl_workers s > 0 \<and> \<not> cl_executor s then s\<lparr>cl_executor := True, cl_pool_alive := True\<rparr> else s)"

definition ensure_started :: "client \<Rightarrow> client" where
  "ensure_started s = (if cl_running s then s else ensure_executor (s\<lparr>cl_running := True\<rparr>))"

definition has_capability :: "string \<Rightarrow> client \<Rightarrow> bool" where
  "has_capability cap s =
     (case cl_server_result s of None \<Rightarrow> False
      | Some r \<Rightarrow> let c = ir_capabilities r in
          if cap = ''tools'' then sc_tools c \<noteq> None
          else if cap = ''resources'' then sc_resources c \<noteq> None
          else if cap = ''prompts'' then sc_prompts c \<noteq> None
          else if cap = ''logging'' then sc_logging c \<noteq> None
          else if cap = ''completions'' then sc_completions c \<noteq> None
          else False)"


section \<open>Callbacks and completion\<close>

fun callback_log_text :: "callback \<Rightarrow> string" where
  "callback_log_text (OnProgress _ _ _) = ''on_progress callback threw''"
| "callback_log_text _ = ''request callback threw''"

definition run_callback :: "client_env \<Rightarrow> callback \<Rightarrow> client \<Rightarrow> client" where
  "run_callback env c s =
     (let s' = s\<lparr>cl_fired := cl_fired s @ [c]\<rparr> in
      case ce_callback env c of None \<Rightarrow> s'
      | Some e \<Rightarrow> if is_std_exception e
          then clog (callback_log_text c @ '': '' @ exn_what (ce_what env) e) s'
          else clog (callback_log_text c @ '' an unknown exception'') s')"

text \<open>Inline on the strand, or posted to the callback executor.\<close>

definition fire :: "client_env \<Rightarrow> bool \<Rightarrow> callback \<Rightarrow> client \<Rightarrow> client" where
  "fire env posted c s =
     (if posted then s\<lparr>cl_posted := cl_posted s @ [c]\<rparr> else run_callback env c s)"

definition finish_at :: "client_env \<Rightarrow> nat \<Rightarrow> mcp_outcome \<Rightarrow> client \<Rightarrow> client" where
  "finish_at env a o' s =
     (case finish a o' (cl_reqs s ! a) of (pr, cbs) \<Rightarrow>
        fold (fire env (pr_cb_exec pr)) cbs (s\<lparr>cl_reqs := (cl_reqs s)[a := pr]\<rparr>))"

definition check_negotiated_version :: "json \<Rightarrow> unit res" where
  "check_negotiated_version result =
     (if \<not> jmember result ''protocolVersion'' is_string
      then Inl (McpEx INVALID_REQUEST ''server response missing protocolVersion'' None)
      else bindE (jfield get_string result ''protocolVersion'') (\<lambda>v.
        if \<not> is_supported_version v
        then Inl (McpEx INVALID_REQUEST (''server negotiated unsupported protocolVersion: '' @ v) None)
        else Inr ()))"

text \<open>The keys of a request: its id, and its progress token when that is another value.\<close>

definition own_token :: "pending_request \<Rightarrow> request_id option" where
  "own_token pr = (if \<not> is_null_id (pr_token pr) \<and> pr_token pr \<noteq> pr_id pr then Some (pr_token pr) else None)"

definition register_pending :: "nat \<Rightarrow> client \<Rightarrow> client" where
  "register_pending a s =
     (let pr = cl_reqs s ! a; m = oset (pr_id pr) a (cl_pending s) in
      s\<lparr>cl_pending := (case own_token pr of None \<Rightarrow> m | Some tok \<Rightarrow> oset tok a m)\<rparr>)"

definition erase_pending :: "request_id \<Rightarrow> pending_request \<Rightarrow> client \<Rightarrow> client" where
  "erase_pending i pr s =
     (let m = oerase i (cl_pending s) in
      s\<lparr>cl_pending := (case own_token pr of None \<Rightarrow> m | Some tok \<Rightarrow> oerase tok m)\<rparr>)"

definition handshake_failure :: mcp_outcome where
  "handshake_failure = (mcp_outcome Errored)\<lparr>out_rpc_error :=
     Some \<lparr>ed_code = INVALID_REQUEST, ed_message = ''server negotiated an unsupported protocolVersion'',
           ed_data = None\<rparr>\<rparr>"

definition accept_handshake :: "json \<Rightarrow> initialize_result res" where
  "accept_handshake result =
     bindE (initialize_result_from_json result) (\<lambda>ir.
     bindE (check_negotiated_version result) (\<lambda>_. Inr ir))"

definition log_handshake_error :: "client_env \<Rightarrow> exn \<Rightarrow> client \<Rightarrow> client" where
  "log_handshake_error env e s =
     (case e of McpEx _ _ _ \<Rightarrow> s
      | _ \<Rightarrow> clog (''initialize result parse failed: '' @ exn_what (ce_what env) e) s)"

definition complete_pending :: "client_env \<Rightarrow> request_id \<Rightarrow> mcp_outcome \<Rightarrow> client \<Rightarrow> client" where
  "complete_pending env i o' s =
     (case map_of (cl_pending s) i of None \<Rightarrow> s
      | Some a \<Rightarrow>
          let pr = cl_reqs s ! a in
          if out_terminal o' = Succeeded \<and> pr_method pr = METHOD_INITIALIZE then
            (case accept_handshake (out_result o') of
               Inl e \<Rightarrow> finish_at env a handshake_failure (erase_pending i pr (log_handshake_error env e s))
             | Inr ir \<Rightarrow>
                 finish_at env a o' (erase_pending i pr
                   (raw_send (serialize_notification \<lparr>notif_method = NOTIF_INITIALIZED, notif_params = None\<rparr>)
                     (s\<lparr>cl_server_result := Some ir, cl_connected := True, cl_initialized := True\<rparr>))))
          else finish_at env a o' (erase_pending i pr s))"

definition fail_all_pending :: "client_env \<Rightarrow> string \<Rightarrow> client \<Rightarrow> client" where
  "fail_all_pending env reason s =
     (let s' = fold (\<lambda>(k, a) t.
         if pr_state (cl_reqs t ! a) \<noteq> Waiting then t
         else finish_at env a ((mcp_outcome Failed)\<lparr>out_failure := Some (McpEx REQUEST_FAILED reason None)\<rparr>) t)
        (cl_pending s) s
      in s'\<lparr>cl_pending := []\<rparr>)"


section \<open>Requests of the user\<close>

text \<open>\<open>submit_request\<close> reads the flags first and posts at the end; another thread can come in
  between, so that the check and the rest are two operations.\<close>

definition submit_check :: "submit_args \<Rightarrow> client \<Rightarrow> unit res" where
  "submit_check args s =
     (if cl_stopping s \<or> (\<not> cl_connected s \<and> sa_method args \<noteq> METHOD_INITIALIZE)
      then Inl (McpEx CLIENT_NOT_CONNECTED
             (if cl_stopping s then ''client is shutting down''
              else ''client is not connected (connect() first)'') None)
      else Inr ())"

definition submit_token :: "submit_args \<Rightarrow> request_id \<Rightarrow> request_id" where
  "submit_token args num =
     (if sa_progress args
      then (case sa_token args of None \<Rightarrow> num | Some (IntId _) \<Rightarrow> num | Some tok \<Rightarrow> tok)
      else (case sa_token args of None \<Rightarrow> NullId | Some tok \<Rightarrow> tok))"

definition with_progress_token :: "request_id \<Rightarrow> json option \<Rightarrow> json option res" where
  "with_progress_token tok params =
     (let p = (case params of None \<Rightarrow> JObj [] | Some p \<Rightarrow> p) in
      bindE (if \<not> jmember p ''_meta'' is_object then jassign p ''_meta'' (JObj []) else Inr p) (\<lambda>p'.
      bindE (jfield (\<lambda>meta. jassign meta ''progressToken'' (request_id_to_json tok)) p' ''_meta'') (\<lambda>meta.
      bindE (jassign p' ''_meta'' meta) (\<lambda>p''. Inr (Some p'')))))"

definition submit_post :: "submit_args \<Rightarrow> client \<Rightarrow> nat res \<times> client" where
  "submit_post args s =
     (let timeout = (if sa_timeout args \<le> 0 \<and> cl_default_timeout s > 0 then cl_default_timeout s
                     else sa_timeout args);
          num = IntId (cl_next_id s);
          s1 = s\<lparr>cl_next_id := cl_next_id s + 1\<rparr>;
          tok = submit_token args num
      in case (if sa_progress args then with_progress_token tok (sa_params args) else Inr (sa_params args)) of
           Inl e \<Rightarrow> (Inl e, s1)
         | Inr params \<Rightarrow>
             let pr = (PendingRequest num (sa_method args) tok)
                        \<lparr>pr_has_complete := sa_complete args, pr_has_error := sa_error args,
                         pr_has_progress := sa_progress args, pr_timeout := timeout, pr_cb_exec := cl_cb_exec s\<rparr>;
                 a = length (cl_reqs s)
             in (Inr a, post (Register a params) (s1\<lparr>cl_reqs := cl_reqs s @ [pr]\<rparr>)))"

text \<open>The whole of \<open>submit_request\<close> when no other thread comes in between.\<close>

definition submit_request :: "submit_args \<Rightarrow> client \<Rightarrow> nat res \<times> client" where
  "submit_request args s =
     (case submit_check args s of Inl e \<Rightarrow> (Inl e, s) | Inr _ \<Rightarrow> submit_post args s)"

text \<open>The task \<open>submit_request\<close> posts.\<close>

definition run_register :: "nat \<Rightarrow> json option \<Rightarrow> client \<Rightarrow> client" where
  "run_register a params s =
     (let s1 = register_pending a s;
          s2 = s1\<lparr>cl_reqs := (cl_reqs s1)[a := arm_timer (cl_reqs s1 ! a)]\<rparr>;
          pr = cl_reqs s ! a
      in raw_send (serialize_request \<lparr>req_id = pr_id pr, req_method = pr_method pr, req_params = params\<rparr>) s2)"

definition cancelled_outcome :: "string \<Rightarrow> mcp_outcome" where
  "cancelled_outcome reason = (mcp_outcome Cancelled)\<lparr>out_failure :=
     Some (McpEx REQUEST_CANCELLED (if reason = [] then ''cancelled by client'' else reason) None)\<rparr>"

definition run_cancel :: "client_env \<Rightarrow> request_id \<Rightarrow> string \<Rightarrow> client \<Rightarrow> client" where
  "run_cancel env i reason s =
     (case map_of (cl_pending s) i of None \<Rightarrow> s
      | Some a \<Rightarrow>
          if pr_state (cl_reqs s ! a) \<noteq> Waiting then s
          else complete_pending env i (cancelled_outcome reason)
            (raw_send (serialize_notification \<lparr>notif_method = NOTIF_CANCELLED,
               notif_params = Some (jobject [(''requestId'', request_id_to_json i), (''reason'', JStr reason)])\<rparr>) s))"

definition on_timer :: "client_env \<Rightarrow> nat \<Rightarrow> bool \<Rightarrow> client \<Rightarrow> client" where
  "on_timer env a aborted s =
     (if aborted then s
      else if pr_state (cl_reqs s ! a) \<noteq> Waiting then s
      else complete_pending env (pr_id (cl_reqs s ! a)) timeout_outcome s)"

definition on_transport_disconnect :: "client_env \<Rightarrow> client \<Rightarrow> client" where
  "on_transport_disconnect env s =
     (let s' = fail_all_pending env ''transport disconnected'' (s\<lparr>cl_connected := False\<rparr>) in
      case cl_disconnect_handler s' of None \<Rightarrow> s'
      | Some h \<Rightarrow>
          let s'' = s'\<lparr>cl_notified := cl_notified s' @ [NDisconnected]\<rparr> in
          case h () of None \<Rightarrow> s''
          | Some e \<Rightarrow> if is_std_exception e
              then clog (''disconnect handler threw: '' @ exn_what (ce_what env) e) s''
              else clog ''disconnect handler threw an unknown exception'' s'')"


section \<open>Messages from the server\<close>

text \<open>A progress notification. Reading \<open>progress\<close> and \<open>total\<close> is not guarded: a value of
  another type throws out of the task.\<close>

definition handle_progress :: "client_env \<Rightarrow> json \<Rightarrow> client \<Rightarrow> client \<times> exn option" where
  "handle_progress env p s =
     (case jget p ''progressToken'' of None \<Rightarrow> (s, None)
      | Some tj \<Rightarrow>
        (case request_id_from_json tj of Inl _ \<Rightarrow> (s, None)
         | Inr tok \<Rightarrow>
           (case bindE (jvalue get_double p ''progress'' 0) (\<lambda>progress.
                 bindE (jfield_opt get_double p ''total'') (\<lambda>tot. Inr (progress, tot))) of
              Inl e \<Rightarrow> (s, Some e)
            | Inr (progress, tot) \<Rightarrow>
              (case map_of (cl_pending s) tok of None \<Rightarrow> (s, None)
               | Some a \<Rightarrow>
                   (fold (fire env (pr_cb_exec (cl_reqs s ! a)))
                      (deliver_progress a progress tot (cl_reqs s ! a)) s, None)))))"

definition notify :: "notified \<Rightarrow> exn option \<Rightarrow> client \<Rightarrow> client \<times> exn option" where
  "notify n r s = (s\<lparr>cl_notified := cl_notified s @ [n]\<rparr>, r)"

definition read_log_message :: "json \<Rightarrow> log_message res" where
  "read_log_message p =
     bindE (jvalue get_string p ''level'' ''info'') (\<lambda>lv.
     bindE (jvalue get_string p ''data'' []) (\<lambda>d.
     bindE (if jmember p ''logger'' is_string then jfield_opt get_string p ''logger'' else Inr None) (\<lambda>lg.
     Inr \<lparr>lm_level = lv, lm_data = d, lm_logger = lg\<rparr>)))"

text \<open>The body of the \<open>try\<close> block for the other notifications; the second component is the
  exception thrown in it.\<close>

definition handle_push :: "string \<Rightarrow> json \<Rightarrow> client \<Rightarrow> client \<times> exn option" where
  "handle_push m p s =
     (if m = NOTIF_RESOURCES_UPDATED then
        (case cl_resource_updated_handler s of None \<Rightarrow> (s, None)
         | Some h \<Rightarrow> (case jvalue get_string p ''uri'' [] of Inl e \<Rightarrow> (s, Some e)
             | Inr uri \<Rightarrow> notify (NResourceUpdated uri) (h uri) s))
      else if m = NOTIF_TOOLS_LIST_CHANGED \<or> m = NOTIF_RESOURCES_LIST_CHANGED \<or> m = NOTIF_PROMPTS_LIST_CHANGED then
        (case cl_list_changed_handler s of None \<Rightarrow> (s, None)
         | Some h \<Rightarrow>
             let kind = (if m = NOTIF_TOOLS_LIST_CHANGED then ''tools''
                         else if m = NOTIF_RESOURCES_LIST_CHANGED then ''resources'' else ''prompts'')
             in notify (NListChanged kind) (h kind) s)
      else if m = NOTIF_MESSAGE then
        (case cl_server_log_handler s of None \<Rightarrow> (s, None)
         | Some h \<Rightarrow> (case read_log_message p of Inl e \<Rightarrow> (s, Some e)
             | Inr msg \<Rightarrow> notify (NServerLog msg) (h msg) s))
      else if m = NOTIF_ROOTS_LIST_CHANGED then
        (case cl_roots_changed_handler s of None \<Rightarrow> (s, None)
         | Some h \<Rightarrow> notify NRootsChanged (h ()) s)
      else (s, None))"

definition params_or_empty :: "json option \<Rightarrow> json" where
  "params_or_empty p = (case p of None \<Rightarrow> JObj [] | Some j \<Rightarrow> j)"

definition handle_notification :: "client_env \<Rightarrow> rpc_notification \<Rightarrow> client \<Rightarrow> client \<times> exn option" where
  "handle_notification env n s =
     (if notif_method n = NOTIF_PROGRESS then handle_progress env (params_or_empty (notif_params n)) s
      else case handle_push (notif_method n) (params_or_empty (notif_params n)) s of
        (s', None) \<Rightarrow> (s', None)
      | (s', Some e) \<Rightarrow>
          if is_std_exception e
          then (clog (''notification handler threw: '' @ exn_what (ce_what env) e) s', None)
          else (clog ''notification handler threw an unknown exception'' s', None))"

text \<open>The reply to a request of the server, from what its handler returned or threw.\<close>

definition inbound_reply :: "client_env \<Rightarrow> request_id \<Rightarrow> json res \<Rightarrow> json" where
  "inbound_reply env i r =
     (case r of Inr j \<Rightarrow> make_success_response i j
      | Inl (McpEx c m d) \<Rightarrow> make_error_response i c m d
      | Inl e \<Rightarrow> make_error_response i INTERNAL_ERROR
          (if is_std_exception e then exn_what (ce_what env) e else ''unknown handler exception'') None)"

definition run_inbound :: "client_env \<Rightarrow> inbound_job \<Rightarrow> client \<Rightarrow> client" where
  "run_inbound env j s = post (Reply (inbound_reply env (ij_id j) (ij_run j (ij_params j)))) s"

definition dispatch_inbound_request :: "client_env \<Rightarrow> rpc_request \<Rightarrow> (json \<Rightarrow> json res) \<Rightarrow> client \<Rightarrow> client" where
  "dispatch_inbound_request env r run s =
     (let job = \<lparr>ij_id = req_id r, ij_run = run, ij_params = params_or_empty (req_params r)\<rparr> in
      if cl_executor s \<and> (req_method r = METHOD_SAMPLING_CREATE \<or> req_method r = METHOD_ELICITATION_CREATE
           \<or> req_method r = METHOD_ROOTS_LIST)
      then s\<lparr>cl_pool := cl_pool s @ [job]\<rparr>
      else run_inbound env job s)"

definition run_sampling :: "(create_message_params \<Rightarrow> create_message_result res) option \<Rightarrow> json \<Rightarrow> json res" where
  "run_sampling h params =
     (case h of None \<Rightarrow> Inl (MethodNotFoundError METHOD_SAMPLING_CREATE)
      | Some f \<Rightarrow> bindE (create_message_params_from_json params) (\<lambda>p.
          bindE (f p) (\<lambda>r. Inr (create_message_result_to_json r))))"

definition run_elicitation :: "(elicit_params \<Rightarrow> elicit_result res) option \<Rightarrow> json \<Rightarrow> json res" where
  "run_elicitation h params =
     (case h of None \<Rightarrow> Inl (MethodNotFoundError METHOD_ELICITATION_CREATE)
      | Some f \<Rightarrow> bindE (elicit_params_from_json params) (\<lambda>p.
          bindE (f p) (\<lambda>r. Inr (elicit_result_to_json r))))"

definition run_roots :: "(unit \<Rightarrow> list_roots_result res) option \<Rightarrow> json \<Rightarrow> json res" where
  "run_roots h params =
     (case h of None \<Rightarrow> Inl (MethodNotFoundError METHOD_ROOTS_LIST)
      | Some f \<Rightarrow> bindE (f ()) (\<lambda>r. Inr (list_roots_result_to_json r)))"

definition handle_inbound_request :: "client_env \<Rightarrow> rpc_request \<Rightarrow> client \<Rightarrow> client" where
  "handle_inbound_request env r s =
     (if req_method r = METHOD_PING then raw_send (make_success_response (req_id r) (JObj [])) s
      else if req_method r = METHOD_SAMPLING_CREATE
        then dispatch_inbound_request env r (run_sampling (cl_sampling_handler s)) s
      else if req_method r = METHOD_ELICITATION_CREATE
        then dispatch_inbound_request env r (run_elicitation (cl_elicitation_handler s)) s
      else if req_method r = METHOD_ROOTS_LIST
        then dispatch_inbound_request env r (run_roots (cl_roots_handler s)) s
      else raw_send (make_error_response (req_id r) METHOD_NOT_FOUND (''Method not found: '' @ req_method r) None) s)"

definition on_transport_message :: "client_env \<Rightarrow> json \<Rightarrow> client \<Rightarrow> client \<times> exn option" where
  "on_transport_message env m s =
     (case parse_message_client (ce_what env) m of
        Inl e \<Rightarrow> (clog (''McpClient message parse error: '' @ exn_what (ce_what env) e) s, None)
      | Inr (PRequest r) \<Rightarrow> (handle_inbound_request env r s, None)
      | Inr (PNotification n) \<Rightarrow> handle_notification env n s
      | Inr (PSuccess k) \<Rightarrow>
          (complete_pending env (ok_id k) ((mcp_outcome Succeeded)\<lparr>out_result := ok_result k\<rparr>) s, None)
      | Inr (PError k) \<Rightarrow>
          (complete_pending env (err_id k) ((mcp_outcome Errored)\<lparr>out_rpc_error := Some (err_error k)\<rparr>) s, None))"


section \<open>The strand and the life cycle\<close>

definition drain_now :: "client_env \<Rightarrow> string \<Rightarrow> client \<Rightarrow> client" where
  "drain_now env reason s = fail_all_pending env reason (s\<lparr>cl_connected := False\<rparr>)"

definition run_task :: "client_env \<Rightarrow> strand_task \<Rightarrow> client \<Rightarrow> client \<times> exn option" where
  "run_task env t s =
     (case t of
        Register a params \<Rightarrow> (run_register a params s, None)
      | CancelTask i reason \<Rightarrow> (run_cancel env i reason s, None)
      | Message m \<Rightarrow> on_transport_message env m s
      | TransportDown \<Rightarrow> (on_transport_disconnect env s, None)
      | Drain reason \<Rightarrow> (drain_now env reason s, None)
      | Timer a aborted \<Rightarrow> (on_timer env a aborted s, None)
      | Reply m \<Rightarrow> (raw_send m s, None))"

text \<open>One round of the I/O loop. An exception that leaves a task ends the loop of the client's
  own thread, which then fails what is pending; the thread runs no further task.\<close>

definition io_run_one :: "client_env \<Rightarrow> client \<Rightarrow> client" where
  "io_run_one env s =
     (case cl_tasks s of [] \<Rightarrow> s
      | t # ts \<Rightarrow>
          if \<not> cl_io_alive s then s
          else case run_task env t (s\<lparr>cl_tasks := ts\<rparr>) of
            (s', None) \<Rightarrow> s'
          | (s', Some e) \<Rightarrow>
              on_transport_disconnect env
                (clog (''McpClient io loop died: '' @ exn_what (ce_what env) e) (s'\<lparr>cl_io_alive := False\<rparr>)))"

text \<open>\<open>drain_pending\<close>: inline on the I/O thread, when the loop never ran, or during destruction
  (no reference to the client can be had any more); otherwise a task of the strand.\<close>

definition drain_pending :: "client_env \<Rightarrow> bool \<Rightarrow> bool \<Rightarrow> string \<Rightarrow> client \<Rightarrow> client" where
  "drain_pending env on_io destructing reason s =
     (if (cl_owns_io s \<and> \<not> cl_running s) \<or> on_io \<or> destructing
      then drain_now env reason s
      else post (Drain reason) s)"

definition transport_disconnect :: "client \<Rightarrow> client" where
  "transport_disconnect s = (if cl_transport s then tcall TDisconnect s else s)"

definition disconnect :: "client_env \<Rightarrow> bool \<Rightarrow> client \<Rightarrow> client" where
  "disconnect env on_io s =
     drain_pending env on_io False ''client disconnected'' (transport_disconnect s)"

text \<open>\<open>stop\<close> up to the wait for the drain, and what follows it: the worker pool is stopped
  and what it has not begun is dropped, the client's own I/O thread, which ends when it has no task left, is joined.\<close>

definition stop_begin :: "client_env \<Rightarrow> bool \<Rightarrow> bool \<Rightarrow> client \<Rightarrow> client" where
  "stop_begin env on_io destructing s =
     (if cl_stopping s then s
      else drain_pending env on_io destructing ''client shutting down''
             (transport_disconnect (s\<lparr>cl_stopping := True\<rparr>)))"

definition stop_end :: "client \<Rightarrow> client" where
  "stop_end s = s\<lparr>cl_pool_alive := False, cl_pool := [], cl_io_alive := cl_io_alive s \<and> \<not> cl_owns_io s,
     cl_transport := False, cl_running := False\<rparr>"

definition make_initialize_params :: "client \<Rightarrow> json" where
  "make_initialize_params s =
     jobject [(''protocolVersion'', JStr LATEST_PROTOCOL_VERSION),
              (''capabilities'', client_capabilities_to_json (cl_caps s)),
              (''clientInfo'', implementation_to_json (cl_info s))]"

definition initialize_args :: "int \<Rightarrow> client \<Rightarrow> submit_args" where
  "initialize_args timeout s =
     \<lparr>sa_method = METHOD_INITIALIZE, sa_params = Some (make_initialize_params s), sa_complete = False,
      sa_error = False, sa_progress = False, sa_timeout = timeout, sa_token = None\<rparr>"

text \<open>\<open>async_connect\<close>; \<open>conn\<close> is what the transport's \<open>connect\<close> throws, if it does.\<close>

definition async_connect :: "exn option \<Rightarrow> int \<Rightarrow> client \<Rightarrow> nat res \<times> client" where
  "async_connect conn timeout s =
     (if \<not> cl_transport s then (Inl (McpEx CLIENT_NOT_CONNECTED ''no transport attached'' None), s)
      else
        let s1 = tcall TConnect (ensure_started s) in
        case conn of Some e \<Rightarrow> (Inl e, s1)
        | None \<Rightarrow> submit_request (initialize_args timeout s1) s1)"

text \<open>What \<open>connect\<close> does once the request it sent, at address \<open>a\<close>, is finished; \<open>None\<close> while
  it waits.\<close>

definition connect_end :: "nat \<Rightarrow> client \<Rightarrow> (initialize_result res \<times> client) option" where
  "connect_end a s =
     (case pr_get (cl_reqs s ! a) of None \<Rightarrow> None
      | Some (Inl e) \<Rightarrow> Some (Inl e, tcall TDisconnect (s\<lparr>cl_connected := False\<rparr>))
      | Some (Inr _) \<Rightarrow>
          (case cl_server_result s of
             None \<Rightarrow> Some (Inl (McpEx INTERNAL_ERROR ''initialize completed but server result missing'' None),
                          tcall TDisconnect (s\<lparr>cl_connected := False\<rparr>))
           | Some r \<Rightarrow> Some (Inr r, s)))"


section \<open>Handler registration\<close>

definition register_sampling_handler where
  "register_sampling_handler h s = s\<lparr>cl_sampling_handler := Some h\<rparr>"

definition register_elicitation_handler where
  "register_elicitation_handler h s = s\<lparr>cl_elicitation_handler := Some h\<rparr>"

definition register_roots_handler where
  "register_roots_handler h s = s\<lparr>cl_roots_handler := Some h\<rparr>"

definition on_disconnect where
  "on_disconnect h s = s\<lparr>cl_disconnect_handler := Some h\<rparr>"

definition on_resource_updated where
  "on_resource_updated h s = s\<lparr>cl_resource_updated_handler := Some h\<rparr>"

definition on_list_changed where
  "on_list_changed h s = s\<lparr>cl_list_changed_handler := Some h\<rparr>"

definition on_server_log where
  "on_server_log h s = s\<lparr>cl_server_log_handler := Some h\<rparr>"

definition on_roots_changed where
  "on_roots_changed h s = s\<lparr>cl_roots_changed_handler := Some h\<rparr>"


section \<open>The synchronous interface\<close>

text \<open>Each call prepares a request, waits for its result and reads it: the request and the
  reader are given, the wait is that of \<open>pr_get\<close>.\<close>

definition prepare :: "string \<Rightarrow> json option \<Rightarrow> submit_args" where
  "prepare m p = \<lparr>sa_method = m, sa_params = p, sa_complete = False, sa_error = False,
     sa_progress = False, sa_timeout = 0, sa_token = None\<rparr>"

definition take_next_cursor :: "json \<Rightarrow> string" where
  "take_next_cursor r = (case jget r ''nextCursor'' of Some (JStr s) \<Rightarrow> s | _ \<Rightarrow> [])"

definition list_params :: "string option \<Rightarrow> json" where
  "list_params c = (case c of None \<Rightarrow> JObj [] | Some s \<Rightarrow> jobject [(''cursor'', JStr s)])"

text \<open>The part the four list calls share: the items under \<open>key\<close> (none when it is absent) and
  the next cursor.\<close>

definition list_result :: "(json \<Rightarrow> 'a res) \<Rightarrow> string \<Rightarrow> json \<Rightarrow> ('a list \<times> string) res" where
  "list_result f key r =
     bindE (case jget r key of None \<Rightarrow> Inr [] | Some v \<Rightarrow> get_vector f v) (\<lambda>xs. Inr (xs, take_next_cursor r))"

definition list_tools_request :: "string option \<Rightarrow> submit_args" where
  "list_tools_request c = prepare METHOD_TOOLS_LIST (Some (list_params c))"

definition list_tools_result :: "json \<Rightarrow> (tool list \<times> string) res" where
  "list_tools_result = list_result tool_from_json ''tools''"

definition list_resources_request :: "string option \<Rightarrow> submit_args" where
  "list_resources_request c = prepare METHOD_RESOURCES_LIST (Some (list_params c))"

definition list_resources_result :: "json \<Rightarrow> (resource list \<times> string) res" where
  "list_resources_result = list_result resource_from_json ''resources''"

definition list_resource_templates_request :: "string option \<Rightarrow> submit_args" where
  "list_resource_templates_request c = prepare METHOD_RESOURCES_TEMPLATE_LIST (Some (list_params c))"

definition list_resource_templates_result :: "json \<Rightarrow> (resource_template list \<times> string) res" where
  "list_resource_templates_result = list_result resource_template_from_json ''resourceTemplates''"

definition list_prompts_request :: "string option \<Rightarrow> submit_args" where
  "list_prompts_request c = prepare METHOD_PROMPTS_LIST (Some (list_params c))"

definition list_prompts_result :: "json \<Rightarrow> (prompt list \<times> string) res" where
  "list_prompts_result = list_result prompt_from_json ''prompts''"

definition call_tool_request :: "string \<Rightarrow> json \<Rightarrow> submit_args" where
  "call_tool_request name args =
     prepare METHOD_TOOLS_CALL (Some (jobject [(''name'', JStr name), (''arguments'', args)]))"

definition read_resource_request :: "string \<Rightarrow> submit_args" where
  "read_resource_request uri = prepare METHOD_RESOURCES_READ (Some (jobject [(''uri'', JStr uri)]))"

definition get_prompt_request :: "string \<Rightarrow> json \<Rightarrow> submit_args" where
  "get_prompt_request name args =
     prepare METHOD_PROMPTS_GET (Some (jobject [(''name'', JStr name), (''arguments'', args)]))"

definition set_logging_level_request :: "string \<Rightarrow> submit_args" where
  "set_logging_level_request level =
     prepare METHOD_LOGGING_SET_LEVEL (Some (jobject [(''level'', JStr level)]))"

definition complete_request :: "completion_reference \<Rightarrow> completion_argument \<Rightarrow> submit_args" where
  "complete_request ref arg = prepare METHOD_COMPLETION_COMPLETE (Some (jobject
     [(''ref'', jobject [(''type'', JStr (cref_type ref)), (''name'', JStr (cref_name ref))]),
      (''argument'', jobject [(''name'', JStr (carg_name arg)), (''value'', JStr (carg_value arg))])]))"

definition complete_reply :: "json \<Rightarrow> complete_result res" where
  "complete_reply r =
     (let sub = (case jget r ''completion'' of None \<Rightarrow> JObj [] | Some j \<Rightarrow> j) in
      bindE (case jget sub ''values'' of None \<Rightarrow> Inr [] | Some v \<Rightarrow> get_vector get_string v) (\<lambda>vs.
      bindE (jfield_opt get_bool sub ''hasMore'') (\<lambda>hm.
      bindE (jfield_opt get_int64 sub ''total'') (\<lambda>tot.
      Inr \<lparr>cr_completion = \<lparr>comp_values = vs, comp_has_more = hm, comp_total = tot\<rparr>\<rparr>))))"

definition subscribe_resource_request :: "string \<Rightarrow> submit_args" where
  "subscribe_resource_request uri = prepare METHOD_RESOURCES_SUBSCRIBE (Some (jobject [(''uri'', JStr uri)]))"

definition unsubscribe_resource_request :: "string \<Rightarrow> submit_args" where
  "unsubscribe_resource_request uri = prepare METHOD_RESOURCES_UNSUBSCRIBE (Some (jobject [(''uri'', JStr uri)]))"

definition ping_request :: submit_args where
  "ping_request = prepare METHOD_PING None"

end
