(* ===== verification/Client_Run.thy ===== *)
theory Client_Run
  imports Client
begin

text \<open>
  The client as its threads run it: the step relation of user calls, the strand, the worker
  pool, timers and the transport, and the invariants of every reachable state: a request's
  promise is set exactly when it leaves the state \<open>Waiting\<close>, its completion callback fires at
  most once, and, unless numeric progress tokens are used without a progress callback, a waiting
  request is always either in the table under its id or on its way there.
\<close>

definition drop_nth :: "nat \<Rightarrow> 'a list \<Rightarrow> 'a list" where
  "drop_nth n xs = take n xs @ drop (Suc n) xs"

text \<open>\<open>P\<close> restricts the arguments of the requests that are submitted. Identifiers come from a
  64-bit counter; the steps are those of a run in which it has not gone round.\<close>

inductive client_step :: "client_env \<Rightarrow> (submit_args \<Rightarrow> bool) \<Rightarrow> client \<Rightarrow> client \<Rightarrow> bool"
  for env P where
  submit_begin: "submit_check args s = Inr () \<Longrightarrow> P args \<Longrightarrow>
    client_step env P s (s\<lparr>cl_submitting := cl_submitting s @ [args]\<rparr>)"
| submit_end: "n < length (cl_submitting s) \<Longrightarrow> Suc (unat (cl_next_id s)) < 2 ^ 64 \<Longrightarrow>
    client_step env P s
      (snd (submit_post (cl_submitting s ! n) (s\<lparr>cl_submitting := drop_nth n (cl_submitting s)\<rparr>)))"
| connect: "P (initialize_args timeout (tcall TConnect (ensure_started s))) \<Longrightarrow>
    Suc (unat (cl_next_id s)) < 2 ^ 64 \<Longrightarrow>
    client_step env P s (snd (async_connect conn timeout s))"
| connected: "connect_end a s = Some (r, t) \<Longrightarrow> client_step env P s t"
| run: "client_step env P s (io_run_one env s)"
| received: "client_step env P s (post (Message m) s)"
| closed: "client_step env P s (post TransportDown s)"
| cancel: "client_step env P s (post (CancelTask i reason) s)"
| timer: "a < length (cl_reqs s) \<Longrightarrow> client_step env P s (post (Timer a aborted) s)"
| worker: "cl_pool s = j # js \<Longrightarrow> cl_pool_alive s \<Longrightarrow> client_step env P s (run_inbound env j (s\<lparr>cl_pool := js\<rparr>))"
| callback: "cl_posted s = c # cs \<Longrightarrow> client_step env P s (run_callback env c (s\<lparr>cl_posted := cs\<rparr>))"
| disconnect: "client_step env P s (disconnect env on_io s)"
| stop_begin: "client_step env P s (stop_begin env on_io destructing s)"
| stop_end: "cl_stopping s \<Longrightarrow> (cl_owns_io s \<and> cl_io_alive s \<longrightarrow> cl_tasks s = []) \<Longrightarrow>
    client_step env P s (stop_end s)"
| use_transport: "client_step env P s (use_transport s)"

inductive_cases client_stepE: "client_step env P s t"

definition client_start :: "client \<Rightarrow> bool" where
  "client_start s \<longleftrightarrow> cl_reqs s = [] \<and> cl_pending s = [] \<and> cl_tasks s = [] \<and> cl_submitting s = []
     \<and> cl_fired s = [] \<and> cl_posted s = [] \<and> cl_next_id s = 1 \<and> cl_stopping s = False
     \<and> cl_connected s = False"

lemma client_start_McpClient [simp]: "client_start (McpClient info caps)"
  by (simp add: client_start_def McpClient_def)


section \<open>What the operations leave alone\<close>

lemma neutral_ops [simp]:
  "cl_reqs (clog m s) = cl_reqs s" "cl_pending (clog m s) = cl_pending s" "cl_tasks (clog m s) = cl_tasks s"
  "cl_fired (clog m s) = cl_fired s" "cl_posted (clog m s) = cl_posted s" "cl_next_id (clog m s) = cl_next_id s"
  "cl_submitting (clog m s) = cl_submitting s"
  "cl_reqs (tcall c s) = cl_reqs s" "cl_pending (tcall c s) = cl_pending s" "cl_tasks (tcall c s) = cl_tasks s"
  "cl_fired (tcall c s) = cl_fired s" "cl_posted (tcall c s) = cl_posted s" "cl_next_id (tcall c s) = cl_next_id s"
  "cl_submitting (tcall c s) = cl_submitting s"
  "cl_reqs (post t s) = cl_reqs s" "cl_pending (post t s) = cl_pending s" "cl_tasks (post t s) = cl_tasks s @ [t]"
  "cl_fired (post t s) = cl_fired s" "cl_posted (post t s) = cl_posted s" "cl_next_id (post t s) = cl_next_id s"
  "cl_submitting (post t s) = cl_submitting s"
  by (simp_all add: clog_def tcall_def post_def)

lemma raw_send_neutral [simp]:
  "cl_reqs (raw_send m s) = cl_reqs s" "cl_pending (raw_send m s) = cl_pending s"
  "cl_tasks (raw_send m s) = cl_tasks s" "cl_fired (raw_send m s) = cl_fired s"
  "cl_posted (raw_send m s) = cl_posted s" "cl_next_id (raw_send m s) = cl_next_id s"
  "cl_submitting (raw_send m s) = cl_submitting s"
  by (simp_all add: raw_send_def)

text \<open>The parts of the state the invariants speak of.\<close>

definition core_eq :: "client \<Rightarrow> client \<Rightarrow> bool" where
  "core_eq s t \<longleftrightarrow> cl_reqs t = cl_reqs s \<and> cl_pending t = cl_pending s \<and> cl_tasks t = cl_tasks s
     \<and> cl_fired t = cl_fired s \<and> cl_posted t = cl_posted s \<and> cl_next_id t = cl_next_id s
     \<and> cl_submitting t = cl_submitting s"

definition completions :: "nat \<Rightarrow> callback list \<Rightarrow> nat" where
  "completions a cs = length (filter (\<lambda>c. is_terminal_callback c \<and> callback_owner c = a) cs)"

definition completed :: "nat \<Rightarrow> client \<Rightarrow> nat" where
  "completed a s = completions a (cl_fired s) + completions a (cl_posted s)"

lemma completions_simps [simp]:
  "completions a [] = 0"
  "completions a (c # cs) = (if is_terminal_callback c \<and> callback_owner c = a then 1 else 0) + completions a cs"
  "completions a (cs @ ds) = completions a cs + completions a ds"
  by (simp_all add: completions_def)

lemma run_callback_neutral [simp]:
  "cl_reqs (run_callback env c s) = cl_reqs s" "cl_pending (run_callback env c s) = cl_pending s"
  "cl_tasks (run_callback env c s) = cl_tasks s" "cl_fired (run_callback env c s) = cl_fired s @ [c]"
  "cl_posted (run_callback env c s) = cl_posted s" "cl_next_id (run_callback env c s) = cl_next_id s"
  "cl_submitting (run_callback env c s) = cl_submitting s"
  by (simp_all add: run_callback_def Let_def split: option.split)

lemma fire_neutral [simp]:
  "cl_reqs (fire env b c s) = cl_reqs s" "cl_pending (fire env b c s) = cl_pending s"
  "cl_tasks (fire env b c s) = cl_tasks s" "cl_next_id (fire env b c s) = cl_next_id s"
  "cl_submitting (fire env b c s) = cl_submitting s"
  "completed a (fire env b c s) = completions a [c] + completed a s"
  by (simp_all add: fire_def completed_def)

lemma fold_fire_neutral [simp]:
  "cl_reqs (fold (fire env b) cs s) = cl_reqs s" "cl_pending (fold (fire env b) cs s) = cl_pending s"
  "cl_tasks (fold (fire env b) cs s) = cl_tasks s" "cl_next_id (fold (fire env b) cs s) = cl_next_id s"
  "cl_submitting (fold (fire env b) cs s) = cl_submitting s"
  "completed a (fold (fire env b) cs s) = completions a cs + completed a s"
  by (induction cs arbitrary: s) simp_all

lemma completed_reqs_update [simp]: "completed a (s\<lparr>cl_reqs := rs\<rparr>) = completed a s"
  by (simp add: completed_def)

lemma finish_at_neutral [simp]:
  "cl_pending (finish_at env a o' s) = cl_pending s"
  "cl_tasks (finish_at env a o' s) = cl_tasks s" "cl_next_id (finish_at env a o' s) = cl_next_id s"
  "cl_submitting (finish_at env a o' s) = cl_submitting s"
  "cl_reqs (finish_at env a o' s) = (cl_reqs s)[a := fst (finish a o' (cl_reqs s ! a))]"
  "completed b (finish_at env a o' s) = completions b (snd (finish a o' (cl_reqs s ! a))) + completed b s"
  by (simp_all add: finish_at_def split: prod.split)

lemma own_token_finish [simp]: "own_token (fst (finish a o' pr)) = own_token pr"
  by (simp add: own_token_def)

lemma own_token_arm [simp]: "own_token (arm_timer pr) = own_token pr"
  by (simp add: own_token_def)



section \<open>Invariants\<close>

definition callback_limit :: "pending_request list \<Rightarrow> nat \<Rightarrow> nat" where
  "callback_limit rs a = (if a < length rs \<and> pr_promise (rs ! a) \<noteq> None then 1 else 0)"

definition reqs_ok :: "client \<Rightarrow> bool" where
  "reqs_ok s \<longleftrightarrow> (\<forall>a < length (cl_reqs s). pr_ok (cl_reqs s ! a))
     \<and> (\<forall>a. completed a s \<le> callback_limit (cl_reqs s) a)"

definition table_ok :: "client \<Rightarrow> bool" where
  "table_ok s \<longleftrightarrow> (\<forall>(k, a) \<in> set (cl_pending s). a < length (cl_reqs s)
     \<and> (k = pr_id (cl_reqs s ! a) \<or> own_token (cl_reqs s ! a) = Some k))"

fun task_ok :: "nat \<Rightarrow> strand_task \<Rightarrow> bool" where
  "task_ok n (Register a p) = (a < n)"
| "task_ok n (Timer a b) = (a < n)"
| "task_ok n _ = True"

definition tasks_ok :: "client \<Rightarrow> bool" where
  "tasks_ok s \<longleftrightarrow> (\<forall>t \<in> set (cl_tasks s). task_ok (length (cl_reqs s)) t)"

definition ids_ok :: "client \<Rightarrow> bool" where
  "ids_ok s \<longleftrightarrow> (let ids = map pr_id (cl_reqs s) in
     distinct ids \<and> (\<forall>i \<in> set ids. \<exists>n. i = IntId n \<and> unat n < unat (cl_next_id s)))"

definition cinv :: "client \<Rightarrow> bool" where
  "cinv s \<longleftrightarrow> reqs_ok s \<and> table_ok s \<and> tasks_ok s \<and> ids_ok s"

text \<open>How a request may change: it keeps its identity, a promise once set stays, and a
  request never goes back to waiting.\<close>

definition evolves :: "client \<Rightarrow> client \<Rightarrow> bool" where
  "evolves s t \<longleftrightarrow> length (cl_reqs s) \<le> length (cl_reqs t)
     \<and> (\<forall>a < length (cl_reqs s).
          pr_id (cl_reqs t ! a) = pr_id (cl_reqs s ! a)
        \<and> pr_token (cl_reqs t ! a) = pr_token (cl_reqs s ! a)
        \<and> pr_method (cl_reqs t ! a) = pr_method (cl_reqs s ! a)
        \<and> (\<forall>x. pr_promise (cl_reqs s ! a) = Some x \<longrightarrow> pr_promise (cl_reqs t ! a) = Some x)
        \<and> (pr_state (cl_reqs t ! a) = Waiting \<longrightarrow> pr_state (cl_reqs s ! a) = Waiting))"

lemma evolves_refl [simp]: "evolves s s"
  by (simp add: evolves_def)

lemma evolves_trans: "evolves s t \<Longrightarrow> evolves t u \<Longrightarrow> evolves s u"
  by (simp add: evolves_def)

lemma evolves_same [intro]: "cl_reqs t = cl_reqs s \<Longrightarrow> evolves s t"
  by (simp add: evolves_def)

lemma core_eq_cinv: "core_eq s t \<Longrightarrow> cinv s \<Longrightarrow> cinv t"
  by (simp add: core_eq_def cinv_def reqs_ok_def table_ok_def tasks_ok_def ids_ok_def completed_def)

lemma cinv_update_pending:
  "cinv s \<Longrightarrow> set m \<subseteq> set (cl_pending s) \<Longrightarrow> cinv (s\<lparr>cl_pending := m\<rparr>)"
  by (auto simp: cinv_def reqs_ok_def table_ok_def tasks_ok_def ids_ok_def completed_def)

lemma cinv_update_tasks:
  "cinv s \<Longrightarrow> (\<forall>t \<in> set ts. task_ok (length (cl_reqs s)) t) \<Longrightarrow> cinv (s\<lparr>cl_tasks := ts\<rparr>)"
  by (simp add: cinv_def reqs_ok_def table_ok_def tasks_ok_def ids_ok_def completed_def)

lemma cinv_post: "cinv s \<Longrightarrow> task_ok (length (cl_reqs s)) t \<Longrightarrow> cinv (post t s)"
  unfolding post_def by (rule cinv_update_tasks) (auto simp: cinv_def tasks_ok_def)

lemma dispatch_completions: "completions b (dispatch_callbacks a pr) \<le> (if b = a then 1 else 0)"
  by (simp add: dispatch_callbacks_def)

lemma finish_completions:
  "pr_ok pr \<Longrightarrow> completions b (snd (finish a o' pr)) \<le> (if b = a \<and> pr_promise pr = None then 1 else 0)"
  using dispatch_completions [of b a "pr\<lparr>pr_outcome := o'\<rparr>"] by (auto simp: finish_callbacks split: if_splits)

lemma reqs_ok_finish:
  assumes "reqs_ok s" "a < length (cl_reqs s)" "out_terminal o' \<noteq> Waiting"
  shows "reqs_ok (finish_at env a o' s)"
proof -
  let ?pr = "cl_reqs s ! a" and ?rs = "(cl_reqs s)[a := fst (finish a o' (cl_reqs s ! a))]"
  have ok: "pr_ok ?pr"
    using assms(1,2) by (simp add: reqs_ok_def)
  have fin: "pr_ok (fst (finish a o' ?pr))" "pr_promise (fst (finish a o' ?pr)) \<noteq> None"
    using finish_ok [OF ok assms(3)] finish_promise [OF ok] by (auto split: option.splits)
  have "completions b (snd (finish a o' ?pr)) + completed b s \<le> callback_limit ?rs b" for b
  proof -
    have "completed b s \<le> callback_limit (cl_reqs s) b"
      using assms(1) by (simp add: reqs_ok_def)
    then show ?thesis
      using finish_completions [OF ok, of b a o'] fin(2) assms(2)
      by (cases "b = a") (simp_all add: callback_limit_def split: if_splits)
  qed
  then show ?thesis
    using assms(1,2) fin(1) by (simp add: reqs_ok_def nth_list_update)
qed

lemma evolves_finish:
  assumes "cinv s" "a < length (cl_reqs s)" "out_terminal o' \<noteq> Waiting"
  shows "evolves s (finish_at env a o' s)"
proof -
  have "pr_ok (cl_reqs s ! a)"
    using assms(1,2) by (simp add: cinv_def reqs_ok_def)
  then show ?thesis
    using assms(2,3) by (simp add: evolves_def nth_list_update finish_promise)
qed

lemma ids_ok_same_ids:
  "map pr_id (cl_reqs t) = map pr_id (cl_reqs s) \<Longrightarrow> cl_next_id t = cl_next_id s \<Longrightarrow> ids_ok t = ids_ok s"
  by (simp only: ids_ok_def)

lemma cinv_finish:
  assumes "cinv s" "a < length (cl_reqs s)" "out_terminal o' \<noteq> Waiting"
  shows "cinv (finish_at env a o' s)"
proof -
  have "map pr_id ((cl_reqs s)[a := fst (finish a o' (cl_reqs s ! a))]) = map pr_id (cl_reqs s)"
    using assms(2) by (simp add: list_eq_iff_nth_eq nth_list_update)
  then have "ids_ok (finish_at env a o' s) = ids_ok s"
    by (intro ids_ok_same_ids) simp_all
  then show ?thesis
    using assms reqs_ok_finish [of s a o' env]
    by (auto simp: cinv_def table_ok_def tasks_ok_def nth_list_update)
qed

lemma cinv_erase: "cinv s \<Longrightarrow> cinv (erase_pending i pr s)"
  unfolding erase_pending_def Let_def
  by (rule cinv_update_pending) (auto simp: oerase_def split: option.splits)


text \<open>A step that keeps the invariant and lets the requests evolve.\<close>

definition sound :: "client \<Rightarrow> client \<Rightarrow> bool" where
  "sound s t \<longleftrightarrow> cinv t \<and> evolves s t"

lemma soundI [intro?]: "cinv t \<Longrightarrow> evolves s t \<Longrightarrow> sound s t"
  by (simp add: sound_def)

lemma sound_refl: "cinv s \<Longrightarrow> sound s s"
  by (simp add: sound_def)

lemma sound_trans: "sound s t \<Longrightarrow> (cinv t \<Longrightarrow> sound t u) \<Longrightarrow> sound s u"
  by (auto simp: sound_def intro: evolves_trans)

lemma sound_core: "cinv s \<Longrightarrow> core_eq s t \<Longrightarrow> sound s t"
  by (auto simp: sound_def core_eq_def intro: core_eq_cinv)

lemma sound_post: "cinv s \<Longrightarrow> task_ok (length (cl_reqs s)) t \<Longrightarrow> sound s (post t s)"
  by (auto simp: sound_def intro: cinv_post)

lemma sound_erase: "cinv s \<Longrightarrow> sound s (erase_pending i pr s)"
  by (auto simp: sound_def erase_pending_def Let_def intro: cinv_erase [unfolded erase_pending_def Let_def])

lemma sound_finish:
  "cinv s \<Longrightarrow> a < length (cl_reqs s) \<Longrightarrow> out_terminal o' \<noteq> Waiting \<Longrightarrow> sound s (finish_at env a o' s)"
  by (auto simp: sound_def intro: cinv_finish evolves_finish)

lemma pending_bound: "cinv s \<Longrightarrow> map_of (cl_pending s) i = Some a \<Longrightarrow> a < length (cl_reqs s)"
  by (auto simp: cinv_def table_ok_def dest!: map_of_SomeD)

lemma reqs_erase [simp]: "cl_reqs (erase_pending i pr s) = cl_reqs s"
  by (simp add: erase_pending_def Let_def)

lemma core_log_handshake: "core_eq s (log_handshake_error env e s)"
  by (simp add: core_eq_def log_handshake_error_def split: exn.split)

lemma terminal_mcp_outcome [simp]: "out_terminal (mcp_outcome st) = st"
  by (simp add: mcp_outcome_def)

lemma terminal_outcomes [simp]:
  "out_terminal handshake_failure = Errored" "out_terminal timeout_outcome = TimedOut"
  "out_terminal (cancelled_outcome reason) = Cancelled"
  by (simp_all add: handshake_failure_def timeout_outcome_def cancelled_outcome_def)

lemma sound_erase_finish:
  assumes "core_eq s t" "cinv s" "a < length (cl_reqs s)" "out_terminal o' \<noteq> Waiting"
  shows "sound s (finish_at env a o' (erase_pending i pr t))"
proof (rule sound_trans [OF sound_core [OF assms(2,1)]], rule sound_trans [OF sound_erase])
  assume "cinv (erase_pending i pr t)"
  then show "sound (erase_pending i pr t) (finish_at env a o' (erase_pending i pr t))"
    using assms by (intro sound_finish) (auto simp: core_eq_def)
qed

lemma sound_complete:
  assumes "cinv s" "out_terminal o' \<noteq> Waiting"
  shows "sound s (complete_pending env i o' s)"
proof (cases "map_of (cl_pending s) i")
  case None
  then show ?thesis
    using assms by (simp add: complete_pending_def sound_refl)
next
  case (Some a)
  note lt = pending_bound [OF assms(1) Some]
  show ?thesis
    using Some assms lt
    by (auto simp: complete_pending_def Let_def core_eq_def core_log_handshake
        core_log_handshake [unfolded core_eq_def] intro!: sound_erase_finish split: sum.split)
qed

definition fail_one :: "client_env \<Rightarrow> string \<Rightarrow> request_id \<times> nat \<Rightarrow> client \<Rightarrow> client" where
  "fail_one env reason = (\<lambda>(k, a) t.
     if pr_state (cl_reqs t ! a) \<noteq> Waiting then t
     else finish_at env a ((mcp_outcome Failed)\<lparr>out_failure := Some (McpEx REQUEST_FAILED reason None)\<rparr>) t)"

lemma fail_all_pending_fold:
  "fail_all_pending env reason s = (fold (fail_one env reason) (cl_pending s) s)\<lparr>cl_pending := []\<rparr>"
  by (simp add: fail_all_pending_def fail_one_def Let_def)

lemma sound_fail_one:
  "cinv s \<Longrightarrow> snd ka < length (cl_reqs s) \<Longrightarrow> sound s (fail_one env reason ka s)"
  by (cases ka) (auto simp: fail_one_def intro: sound_refl sound_finish)

lemma fail_one_neutral [simp]:
  "length (cl_reqs (fail_one env reason ka s)) = length (cl_reqs s)"
  "cl_tasks (fail_one env reason ka s) = cl_tasks s"
  "cl_submitting (fail_one env reason ka s) = cl_submitting s"
  by (cases ka, simp add: fail_one_def)+

lemma fold_fail_neutral [simp]:
  "length (cl_reqs (fold (fail_one env reason) kas s)) = length (cl_reqs s)"
  "cl_tasks (fold (fail_one env reason) kas s) = cl_tasks s"
  "cl_submitting (fold (fail_one env reason) kas s) = cl_submitting s"
  by (induction kas arbitrary: s) simp_all

lemma sound_fold_fail:
  "cinv s \<Longrightarrow> (\<forall>ka \<in> set kas. snd ka < length (cl_reqs s)) \<Longrightarrow> sound s (fold (fail_one env reason) kas s)"
proof (induction kas arbitrary: s)
  case (Cons ka kas)
  have "sound s (fail_one env reason ka s)"
    using Cons.prems by (intro sound_fail_one) auto
  then show ?case
    using Cons by (auto intro: sound_trans)
qed (simp add: sound_refl)

lemma sound_fail_all: "cinv s \<Longrightarrow> sound s (fail_all_pending env reason s)"
proof -
  assume inv: "cinv s"
  then have "\<forall>ka \<in> set (cl_pending s). snd ka < length (cl_reqs s)"
    by (auto simp: cinv_def table_ok_def)
  then have "sound s (fold (fail_one env reason) (cl_pending s) s)"
    using inv by (intro sound_fold_fail)
  then show ?thesis
    unfolding fail_all_pending_fold
    by (rule sound_trans) (auto simp: sound_def intro: cinv_update_pending)
qed

lemma sound_drain_now: "cinv s \<Longrightarrow> sound s (drain_now env reason s)"
  unfolding drain_now_def
  by (rule sound_trans [OF sound_core [of _ "s\<lparr>cl_connected := False\<rparr>"]])
    (auto simp: core_eq_def intro: sound_fail_all)

lemma core_transport_down:
  "core_eq (drain_now env ''transport disconnected'' s) (on_transport_disconnect env s)"
  by (simp add: on_transport_disconnect_def drain_now_def Let_def core_eq_def split: option.split)

lemma sound_transport_down: "cinv s \<Longrightarrow> sound s (on_transport_disconnect env s)"
  by (rule sound_trans [OF sound_drain_now]) (auto intro: sound_core core_transport_down)

lemma sound_register:
  assumes inv: "cinv s" and a: "a < length (cl_reqs s)"
  shows "sound s (run_register a params s)"
proof -
  let ?m = "cl_pending (register_pending a s)"
  let ?rs = "(cl_reqs s)[a := arm_timer (cl_reqs s ! a)]"
  have reqs: "cl_reqs (run_register a params s) = ?rs"
    and pend: "cl_pending (run_register a params s) = ?m"
    and rest: "cl_tasks (run_register a params s) = cl_tasks s"
      "completed b (run_register a params s) = completed b s"
      "cl_next_id (run_register a params s) = cl_next_id s" for b
    by (simp_all add: run_register_def register_pending_def Let_def completed_def)
  have "p \<in> set ?m \<Longrightarrow> p \<in> set (cl_pending s) \<or> p = (pr_id (cl_reqs s ! a), a)
      \<or> (\<exists>k. own_token (cl_reqs s ! a) = Some k \<and> p = (k, a))" for p
    by (auto simp: register_pending_def Let_def dest!: oset_members split: option.splits)
  then have "table_ok (run_register a params s)"
    using inv a unfolding cinv_def table_ok_def reqs pend
    by (simp add: nth_list_update case_prod_beta) (metis fst_conv snd_conv)
  moreover have "map pr_id ?rs = map pr_id (cl_reqs s)"
    using a by (simp add: list_eq_iff_nth_eq nth_list_update)
  moreover have "callback_limit ?rs b = callback_limit (cl_reqs s) b" for b
    using a by (simp add: callback_limit_def nth_list_update)
  ultimately show ?thesis
    using inv a
    by (simp add: sound_def cinv_def evolves_def reqs_ok_def tasks_ok_def ids_ok_def reqs rest nth_list_update)
qed

lemma sound_submit_post:
  assumes inv: "cinv s" and room: "Suc (unat (cl_next_id s)) < 2 ^ 64"
  shows "sound s (snd (submit_post args s))"
proof -
  have nxt: "unat (cl_next_id s + 1) = Suc (unat (cl_next_id s))"
    using room by (simp add: unat_word_ariths)
  let ?params = "if sa_progress args then with_progress_token (submit_token args (IntId (cl_next_id s))) (sa_params args)
     else Inr (sa_params args)"
  have ids: "ids_ok (s\<lparr>cl_next_id := cl_next_id s + 1\<rparr>)"
    using inv by (auto simp: cinv_def ids_ok_def nxt Let_def less_Suc_eq)
  show ?thesis
  proof (cases ?params)
    case (Inl e)
    then show ?thesis
      using inv ids
      by (auto simp: submit_post_def Let_def sound_def cinv_def reqs_ok_def table_ok_def tasks_ok_def completed_def)
  next
    case (Inr params)
    obtain pr where t: "snd (submit_post args s) =
        post (Register (length (cl_reqs s)) params) (s\<lparr>cl_next_id := cl_next_id s + 1, cl_reqs := cl_reqs s @ [pr]\<rparr>)"
      and pr: "pr_ok pr" "pr_promise pr = None" "pr_id pr = IntId (cl_next_id s)"
      using Inr by (simp add: submit_post_def Let_def PendingRequest_def pr_ok_def)
    let ?t = "s\<lparr>cl_next_id := cl_next_id s + 1, cl_reqs := cl_reqs s @ [pr]\<rparr>"
    have "callback_limit (cl_reqs s @ [pr]) b = callback_limit (cl_reqs s) b" for b
      using pr by (simp add: callback_limit_def nth_append less_Suc_eq)
    then have "reqs_ok ?t"
      using inv pr by (auto simp: cinv_def reqs_ok_def completed_def nth_append less_Suc_eq)
    moreover have "task_ok n t \<Longrightarrow> task_ok (Suc n) t" for n t
      by (cases t) simp_all
    then have "tasks_ok ?t"
      using inv by (auto simp: cinv_def tasks_ok_def)
    moreover have "ids_ok ?t"
      using inv ids pr(3) by (auto simp: cinv_def ids_ok_def nxt Let_def)
    moreover have "table_ok ?t"
      using inv by (fastforce simp: cinv_def table_ok_def nth_append)
    ultimately have "cinv ?t"
      by (simp add: cinv_def)
    then show ?thesis
      unfolding t sound_def by (auto simp: evolves_def nth_append intro: cinv_post)
  qed
qed

lemma sound_fire:
  "cinv s \<Longrightarrow> (\<And>b. completions b cs = 0) \<Longrightarrow> sound s (fold (fire env x) cs s)"
  by (auto simp: sound_def cinv_def reqs_ok_def table_ok_def tasks_ok_def ids_ok_def)

lemma sound_fire_progress: "cinv s \<Longrightarrow> sound s (fire env x (OnProgress a p tot) s)"
  using sound_fire [of s "[OnProgress a p tot]" env x] by simp

lemma sound_progress: "cinv s \<Longrightarrow> sound s (fst (handle_progress env p s))"
  by (auto simp: handle_progress_def deliver_progress_def sound_refl
      intro!: sound_fire_progress split: option.split sum.split)

lemma core_push: "core_eq s (fst (handle_push m p s))"
  by (simp add: handle_push_def notify_def core_eq_def Let_def split: option.split sum.split)

lemma core_eq_raw_send: "core_eq s (raw_send m s)"
  by (simp add: core_eq_def)

lemma sound_clog: "sound s t \<Longrightarrow> sound s (clog m t)"
  by (erule sound_trans) (simp add: sound_core core_eq_def)

lemma sound_notification: "cinv s \<Longrightarrow> sound s (fst (handle_notification env n s))"
  using core_push [of s "notif_method n" "params_or_empty (notif_params n)"]
  by (auto simp: handle_notification_def sound_progress
      intro!: sound_clog intro: sound_core split: prod.split option.split)

lemma sound_inbound: "cinv s \<Longrightarrow> sound s (handle_inbound_request env r s)"
proof -
  assume inv: "cinv s"
  have "sound s (dispatch_inbound_request env r run s)" for run
    using inv by (auto simp: dispatch_inbound_request_def run_inbound_def Let_def core_eq_def
        intro: sound_core sound_post)
  with inv show ?thesis
    by (simp add: handle_inbound_request_def sound_core core_eq_raw_send)
qed

lemma sound_message: "cinv s \<Longrightarrow> sound s (fst (on_transport_message env m s))"
  by (auto simp: on_transport_message_def sound_inbound sound_notification
      intro!: sound_clog intro: sound_complete sound_refl split: sum.split parsed_message.split)

lemma sound_raw_send_complete:
  assumes "cinv s" "out_terminal o' \<noteq> Waiting"
  shows "sound s (complete_pending env i o' (raw_send m s))"
  by (rule sound_trans [OF sound_core [OF assms(1) core_eq_raw_send]])
    (rule sound_complete [OF _ assms(2)])

lemma sound_cancel: "cinv s \<Longrightarrow> sound s (run_cancel env i reason s)"
  by (simp add: run_cancel_def sound_refl sound_raw_send_complete split: option.split)

lemma sound_timer: "cinv s \<Longrightarrow> sound s (on_timer env a aborted s)"
  by (auto simp: on_timer_def intro: sound_refl sound_complete)

lemma sound_run_task:
  assumes "cinv s" "task_ok (length (cl_reqs s)) t"
  shows "sound s (fst (run_task env t s))"
  using assms
  by (cases t) (auto simp: run_task_def sound_register sound_cancel sound_message
      sound_transport_down sound_drain_now sound_timer sound_core core_eq_raw_send)

lemma sound_io_run: "cinv s \<Longrightarrow> sound s (io_run_one env s)"
proof (cases "cl_tasks s")
  case (Cons t ts)
  assume inv: "cinv s"
  let ?s = "s\<lparr>cl_tasks := ts\<rparr>"
  have "sound s ?s"
    unfolding sound_def using inv Cons
    by (intro conjI cinv_update_tasks evolves_same) (auto simp: cinv_def tasks_ok_def)
  moreover have "task_ok (length (cl_reqs ?s)) t"
    using inv Cons by (simp add: cinv_def tasks_ok_def)
  ultimately have "sound s (fst (run_task env t ?s))"
    by (rule_tac sound_trans) (auto intro: sound_run_task)
  moreover have "sound u (on_transport_disconnect env (clog m (u\<lparr>cl_io_alive := False\<rparr>)))" if "cinv u" for u m
    by (rule sound_trans [OF sound_core [of u "clog m (u\<lparr>cl_io_alive := False\<rparr>)"]])
      (simp_all add: that core_eq_def sound_transport_down)
  ultimately show ?thesis
    using inv Cons
    by (cases "run_task env t ?s")
      (auto simp: io_run_one_def sound_refl intro: sound_trans split: option.split)
qed (simp add: io_run_one_def sound_refl)


lemma sound_drain_pending: "cinv s \<Longrightarrow> sound s (drain_pending env on_io destructing reason s)"
  by (simp add: drain_pending_def sound_drain_now sound_post)

lemma core_transport_disconnect: "core_eq s (transport_disconnect s)"
  by (simp add: transport_disconnect_def core_eq_def)

lemma sound_disconnect: "cinv s \<Longrightarrow> sound s (disconnect env on_io s)"
  unfolding disconnect_def
  by (rule sound_trans [OF sound_core [OF _ core_transport_disconnect]]) (auto intro: sound_drain_pending)

lemma sound_stop_begin: "cinv s \<Longrightarrow> sound s (stop_begin env on_io destructing s)"
proof -
  assume inv: "cinv s"
  let ?t = "transport_disconnect (s\<lparr>cl_stopping := True\<rparr>)"
  have "core_eq s ?t"
    by (simp add: transport_disconnect_def core_eq_def)
  then have "sound s (drain_pending env on_io destructing ''client shutting down'' ?t)"
    by (rule sound_trans [OF sound_core [OF inv]]) (rule sound_drain_pending)
  with inv show ?thesis
    by (simp add: stop_begin_def sound_refl)
qed

lemma sound_connect:
  assumes "cinv s" "Suc (unat (cl_next_id s)) < 2 ^ 64"
  shows "sound s (snd (async_connect conn timeout s))"
proof -
  let ?t = "tcall TConnect (ensure_started s)"
  have eq: "core_eq s ?t"
    by (simp add: core_eq_def ensure_started_def ensure_executor_def)
  then have n: "Suc (unat (cl_next_id ?t)) < 2 ^ 64"
    using assms(2) by (simp add: core_eq_def)
  have "sound ?t (snd (submit_request args ?t))" if "cinv ?t" for args
    using that n by (simp add: submit_request_def sound_refl sound_submit_post split: sum.split)
  then show ?thesis
    using assms(1) eq
    by (auto simp: async_connect_def Let_def sound_refl intro: sound_core sound_trans split: option.split)
qed

lemma sound_submitting: "cinv s \<Longrightarrow> sound s (s\<lparr>cl_submitting := xs\<rparr>)"
  by (auto simp: sound_def cinv_def reqs_ok_def table_ok_def tasks_ok_def ids_ok_def completed_def)

lemma core_use_transport: "core_eq s (use_transport s)"
  by (simp add: use_transport_def core_eq_def)

lemma core_connect_end: "connect_end a s = Some (r, t) \<Longrightarrow> core_eq s t"
  by (auto simp: connect_end_def core_eq_def split: option.splits sum.splits)

lemma client_step_sound: "client_step env P s t \<Longrightarrow> cinv s \<Longrightarrow> sound s t"
proof (induction rule: client_step.induct)
  case (submit_end n s)
  show ?case
    by (rule sound_trans [OF sound_submitting [OF submit_end(3)]], rule sound_submit_post)
      (use submit_end(2) in simp_all)
next
  case (callback s c cs)
  then have "completed a (run_callback env c (s\<lparr>cl_posted := cs\<rparr>)) = completed a s" for a
    by (simp add: completed_def)
  with callback show ?case
    by (auto simp: sound_def cinv_def reqs_ok_def table_ok_def tasks_ok_def ids_ok_def)
next
  case (worker s j js)
  then have "sound s (s\<lparr>cl_pool := js\<rparr>)"
    by (simp add: sound_core core_eq_def)
  then show ?case
    unfolding run_inbound_def by (rule sound_trans) (simp add: sound_post)
qed (simp_all add: sound_submitting sound_connect sound_io_run sound_post sound_disconnect
    sound_stop_begin sound_core [OF _ core_use_transport] sound_core [OF _ core_connect_end]
    sound_core core_eq_def stop_end_def)


interpretation cl: invariant_system client_start "client_step env P" cinv for env P
proof
  show "cinv s" if "client_start s" for s
    using that
    by (simp add: client_start_def cinv_def reqs_ok_def table_ok_def tasks_ok_def ids_ok_def completed_def)
  show "cinv t" if "cinv s" "client_step env P s t" for s t
    using client_step_sound [OF that(2,1)] by (simp add: sound_def)
qed

lemma steps_evolve: "(client_step env P)\<^sup>*\<^sup>* s t \<Longrightarrow> cinv s \<Longrightarrow> evolves s t"
proof (induction rule: rtranclp_induct)
  case (step t u)
  then have "cinv t"
    using cl.steps_inv by blast
  with step show ?case
    using client_step_sound [of env P t u] by (auto simp: sound_def intro: evolves_trans)
qed simp


section \<open>No request is lost\<close>

text \<open>The arguments the comment in \<open>submit_request\<close> has in mind: a custom token that is a number
  is replaced by the id, which the code does only when there is a progress callback.\<close>

definition careful :: "submit_args \<Rightarrow> bool" where
  "careful args \<longleftrightarrow> sa_progress args \<or> (\<forall>n. sa_token args \<noteq> Some (IntId n))"

definition tokens_ok :: "client \<Rightarrow> bool" where
  "tokens_ok s \<longleftrightarrow> (\<forall>a < length (cl_reqs s). \<forall>n. own_token (cl_reqs s ! a) \<noteq> Some (IntId n))
     \<and> (\<forall>args \<in> set (cl_submitting s). careful args)"

definition queued :: "nat \<Rightarrow> client \<Rightarrow> bool" where
  "queued a s \<longleftrightarrow> (\<exists>p. Register a p \<in> set (cl_tasks s))"

definition nolost :: "nat set \<Rightarrow> client \<Rightarrow> bool" where
  "nolost A s \<longleftrightarrow> (\<forall>a < length (cl_reqs s). a \<notin> A \<longrightarrow> pr_state (cl_reqs s ! a) = Waiting \<longrightarrow>
     queued a s \<or> map_of (cl_pending s) (pr_id (cl_reqs s ! a)) = Some a)"

definition live :: "nat set \<Rightarrow> client \<Rightarrow> bool" where
  "live A s \<longleftrightarrow> cinv s \<and> tokens_ok s \<and> nolost A s"

lemma liveD: "live A s \<Longrightarrow> cinv s" by (simp add: live_def)

lemma own_token_evolves:
  "evolves s t \<Longrightarrow> a < length (cl_reqs s) \<Longrightarrow> own_token (cl_reqs t ! a) = own_token (cl_reqs s ! a)"
  by (simp add: evolves_def own_token_def)

lemma live_evolves:
  assumes "live A s" "sound s t" "length (cl_reqs t) = length (cl_reqs s)" "cl_pending t = cl_pending s"
    "set (cl_tasks s) \<subseteq> set (cl_tasks t)" "set (cl_submitting t) \<subseteq> set (cl_submitting s)"
  shows "live A t"
proof -
  have ev: "evolves s t"
    using assms(2) by (simp add: sound_def)
  have "tokens_ok t"
    using assms own_token_evolves [OF ev] unfolding live_def tokens_ok_def by auto
  moreover have "nolost A t"
    using assms ev unfolding live_def nolost_def queued_def evolves_def by fastforce
  ultimately show ?thesis
    using assms(2) by (simp add: live_def sound_def)
qed

lemma live_core: "live A s \<Longrightarrow> core_eq s t \<Longrightarrow> live A t"
  by (rule live_evolves [OF _ sound_core]) (auto simp: core_eq_def dest: liveD)

lemma live_post: "live A s \<Longrightarrow> task_ok (length (cl_reqs s)) t \<Longrightarrow> live A (post t s)"
  by (rule live_evolves [OF _ sound_post]) (auto dest: liveD)

lemma live_finish:
  assumes "live A s" "a < length (cl_reqs s)" "out_terminal o' \<noteq> Waiting"
  shows "live (A - {a}) (finish_at env a o' s)"
proof -
  have "live A (finish_at env a o' s)"
    by (rule live_evolves [OF assms(1) sound_finish]) (use assms in \<open>auto dest: liveD\<close>)
  then show ?thesis
    using assms(2,3) by (auto simp: live_def nolost_def)
qed

lemma id_is_int: "cinv s \<Longrightarrow> a < length (cl_reqs s) \<Longrightarrow> \<exists>n. pr_id (cl_reqs s ! a) = IntId n"
  unfolding cinv_def ids_ok_def Let_def by (metis length_map nth_map nth_mem)

lemma id_inj:
  "cinv s \<Longrightarrow> a < length (cl_reqs s) \<Longrightarrow> b < length (cl_reqs s) \<Longrightarrow>
   pr_id (cl_reqs s ! a) = pr_id (cl_reqs s ! b) \<Longrightarrow> a = b"
  unfolding cinv_def ids_ok_def Let_def by (metis distinct_conv_nth length_map nth_map)

lemma id_not_token:
  "live A s \<Longrightarrow> a < length (cl_reqs s) \<Longrightarrow> b < length (cl_reqs s) \<Longrightarrow>
   own_token (cl_reqs s ! b) \<noteq> Some (pr_id (cl_reqs s ! a))"
  using id_is_int [of s a] by (fastforce simp: live_def tokens_ok_def)

lemma live_erase:
  assumes live: "live {} s" and i: "map_of (cl_pending s) i = Some a"
  shows "live {a} (erase_pending i (cl_reqs s ! a) s)"
proof -
  have a: "a < length (cl_reqs s)"
    using live i by (auto intro: pending_bound dest: liveD)
  have "map_of (cl_pending (erase_pending i (cl_reqs s ! a) s)) (pr_id (cl_reqs s ! b)) = Some b"
    if b: "b < length (cl_reqs s)" "b \<noteq> a" "map_of (cl_pending s) (pr_id (cl_reqs s ! b)) = Some b" for b
  proof -
    have "pr_id (cl_reqs s ! b) \<noteq> i"
      using i b by auto
    moreover have "own_token (cl_reqs s ! a) \<noteq> Some (pr_id (cl_reqs s ! b))"
      by (rule id_not_token [OF live b(1) a])
    ultimately show ?thesis
      using b(3) by (auto simp: erase_pending_def Let_def map_of_oerase split: option.split)
  qed
  moreover have "cl_tasks (erase_pending i (cl_reqs s ! a) s) = cl_tasks s"
    "cl_submitting (erase_pending i (cl_reqs s ! a) s) = cl_submitting s"
    by (simp_all add: erase_pending_def Let_def)
  ultimately show ?thesis
    using live by (auto simp: live_def cinv_erase tokens_ok_def nolost_def queued_def)
qed

lemma live_complete:
  assumes live: "live {} s" and o: "out_terminal o' \<noteq> Waiting"
  shows "live {} (complete_pending env i o' s)"
proof (cases "map_of (cl_pending s) i")
  case None
  with live show ?thesis by (simp add: complete_pending_def)
next
  case (Some a)
  have *: "live {} (finish_at env a p (erase_pending i (cl_reqs s ! a) t))"
    if "core_eq s t" "out_terminal p \<noteq> Waiting" for t p
  proof -
    have t: "live {} t" "map_of (cl_pending t) i = Some a" "cl_reqs t = cl_reqs s"
      using live that(1) Some by (auto intro: live_core simp: core_eq_def)
    have "a < length (cl_reqs t)"
      by (rule pending_bound [OF liveD [OF t(1)] t(2)])
    then show ?thesis
      using live_finish [OF live_erase [OF t(1,2)], of a p env] that(2) t(3) by simp
  qed
  show ?thesis
    using Some o core_log_handshake
    by (auto simp: complete_pending_def Let_def intro!: * split: sum.split) (simp_all add: core_eq_def)
qed


lemma fail_one_state:
  assumes "cinv s" "snd ka < length (cl_reqs s)"
  shows "pr_state (cl_reqs (fail_one env reason ka s) ! snd ka) \<noteq> Waiting"
  using assms by (cases ka) (simp add: fail_one_def)

lemma fold_fail_state:
  "cinv s \<Longrightarrow> (\<forall>ka \<in> set kas. snd ka < length (cl_reqs s)) \<Longrightarrow> ka \<in> set kas \<Longrightarrow>
   pr_state (cl_reqs (fold (fail_one env reason) kas s) ! snd ka) \<noteq> Waiting"
proof (induction kas arbitrary: s)
  case (Cons kb kas)
  let ?s = "fail_one env reason kb s"
  have s: "cinv ?s"
    using Cons.prems sound_fail_one [of s kb env reason] by (simp add: sound_def)
  show ?case
  proof (cases "ka \<in> set kas")
    case True
    with Cons s show ?thesis by simp
  next
    case False
    then have "pr_state (cl_reqs ?s ! snd ka) \<noteq> Waiting"
      using Cons.prems fail_one_state by auto
    moreover have "evolves ?s (fold (fail_one env reason) kas ?s)"
      using s Cons.prems sound_fold_fail [of ?s kas env reason] by (simp add: sound_def)
    ultimately show ?thesis
      using Cons.prems by (auto simp: evolves_def)
  qed
qed simp

lemma live_fail_all:
  assumes live: "live {} s"
  shows "live {} (fail_all_pending env reason s)"
proof -
  let ?f = "fold (fail_one env reason) (cl_pending s) s"
  have inv: "cinv s" and b: "\<forall>ka \<in> set (cl_pending s). snd ka < length (cl_reqs s)"
    using live by (auto simp: live_def cinv_def table_ok_def)
  have ev: "evolves s (fail_all_pending env reason s)"
    using sound_fail_all [OF inv] by (simp add: sound_def)
  have st: "pr_state (cl_reqs ?f ! a) \<noteq> Waiting" if "map_of (cl_pending s) k = Some a" for k a
    using fold_fail_state [OF inv b map_of_SomeD [OF that]] by simp
  have "nolost {} (fail_all_pending env reason s)"
    using live ev st unfolding live_def nolost_def queued_def evolves_def
    by (auto simp: fail_all_pending_fold)
  moreover have "tokens_ok (fail_all_pending env reason s)"
    using live own_token_evolves [OF ev] by (auto simp: live_def tokens_ok_def fail_all_pending_fold)
  ultimately show ?thesis
    using sound_fail_all [OF inv] by (simp add: live_def sound_def)
qed

lemma live_drain_now: "live {} s \<Longrightarrow> live {} (drain_now env reason s)"
  unfolding drain_now_def by (rule live_fail_all, erule live_core) (simp add: core_eq_def)

lemma live_transport_down: "live {} s \<Longrightarrow> live {} (on_transport_disconnect env s)"
  by (rule live_core [OF live_drain_now core_transport_down])

lemma live_register:
  assumes live: "live {a} s" and a: "a < length (cl_reqs s)"
  shows "live {} (run_register a params s)"
proof -
  let ?t = "run_register a params s"
  have snd: "sound s ?t"
    by (rule sound_register [OF liveD [OF live] a])
  then have ev: "evolves s ?t"
    by (simp add: sound_def)
  have rest: "length (cl_reqs ?t) = length (cl_reqs s)" "cl_tasks ?t = cl_tasks s" "cl_submitting ?t = cl_submitting s"
    by (simp_all add: run_register_def register_pending_def Let_def)
  have id: "map_of (cl_pending ?t) (pr_id (cl_reqs s ! b)) =
      (if b = a then Some a else map_of (cl_pending s) (pr_id (cl_reqs s ! b)))" if "b < length (cl_reqs s)" for b
    using id_not_token [OF live that a] id_inj [OF liveD [OF live] that a]
    by (auto simp: run_register_def register_pending_def Let_def map_of_oset split: option.split)
  have "tokens_ok ?t"
    using live own_token_evolves [OF ev] by (auto simp: live_def tokens_ok_def rest)
  moreover have "nolost {} ?t"
    using live ev id unfolding live_def nolost_def queued_def evolves_def rest by auto
  ultimately show ?thesis
    using snd by (simp add: live_def sound_def)
qed

lemma live_pop:
  assumes "live {} s" "cl_tasks s = t # ts"
  shows "live (case t of Register a p \<Rightarrow> {a} | _ \<Rightarrow> {}) (s\<lparr>cl_tasks := ts\<rparr>)"
proof -
  have "cinv (s\<lparr>cl_tasks := ts\<rparr>)"
    by (rule cinv_update_tasks) (use assms in \<open>auto simp: live_def cinv_def tasks_ok_def\<close>)
  then show ?thesis
    using assms by (cases t) (auto simp: live_def tokens_ok_def nolost_def queued_def)
qed

lemma live_message: "live {} s \<Longrightarrow> live {} (fst (on_transport_message env m s))"
proof -
  assume live: "live {} s"
  have prog: "live {} (fst (handle_progress env p s))" for p
    by (rule live_evolves [OF live sound_progress [OF liveD [OF live]]])
      (auto simp: handle_progress_def split: option.split sum.split)
  have notif: "live {} (fst (handle_notification env n s))" for n
    using core_push [of s "notif_method n" "params_or_empty (notif_params n)"]
    by (auto simp: handle_notification_def prog core_eq_def intro!: live_core [OF live]
        split: prod.split option.split)
  have "live {} (dispatch_inbound_request env r run s)" for r run
    using live by (auto simp: dispatch_inbound_request_def run_inbound_def Let_def core_eq_def
        intro!: live_post intro: live_core)
  then have "live {} (handle_inbound_request env r s)" for r
    using live by (simp add: handle_inbound_request_def live_core [OF _ core_eq_raw_send])
  then show ?thesis
    using live notif live_core [OF live, of "clog x s" for x]
    by (simp add: on_transport_message_def live_complete core_eq_def split: sum.split parsed_message.split)
qed


lemma live_cancel: "live {} s \<Longrightarrow> live {} (run_cancel env i reason s)"
  by (simp add: run_cancel_def live_complete live_core [OF _ core_eq_raw_send] split: option.split)

lemma live_run_task:
  assumes "live {} s" "cl_tasks s = t # ts"
  shows "live {} (fst (run_task env t (s\<lparr>cl_tasks := ts\<rparr>)))"
proof -
  have "a < length (cl_reqs s)" if "t = Register a p" for a p
    using assms that by (auto simp: live_def cinv_def tasks_ok_def)
  then show ?thesis
    using live_pop [OF assms]
    by (cases t) (auto simp: run_task_def on_timer_def live_register live_cancel live_message
        live_transport_down live_drain_now live_complete live_core [OF _ core_eq_raw_send])
qed

lemma live_io_run:
  assumes live: "live {} s"
  shows "live {} (io_run_one env s)"
proof (cases "cl_tasks s")
  case (Cons t ts)
  have "live {} (on_transport_disconnect env (clog m (u\<lparr>cl_io_alive := False\<rparr>)))" if "live {} u" for u m
    by (rule live_transport_down, rule live_core [OF that]) (simp add: core_eq_def)
  then show ?thesis
    using live Cons live_run_task [OF live Cons, of env]
    by (cases "run_task env t (s\<lparr>cl_tasks := ts\<rparr>)") (auto simp: io_run_one_def split: option.split)
qed (simp add: io_run_one_def live)

lemma submit_token_ok:
  "careful args \<Longrightarrow> pr_id pr = i \<Longrightarrow> pr_token pr = submit_token args i \<Longrightarrow> own_token pr \<noteq> Some (IntId n)"
  by (auto simp: careful_def own_token_def submit_token_def split: option.splits request_id.splits)

lemma live_submit_post:
  assumes live: "live {} s" and room: "Suc (unat (cl_next_id s)) < 2 ^ 64" and c: "careful args"
  shows "live {} (snd (submit_post args s))"
proof -
  let ?tok = "submit_token args (IntId (cl_next_id s))"
  let ?params = "if sa_progress args then with_progress_token ?tok (sa_params args) else Inr (sa_params args)"
  have snd: "sound s (snd (submit_post args s))"
    by (rule sound_submit_post [OF liveD [OF live] room])
  show ?thesis
  proof (cases ?params)
    case (Inl e)
    then show ?thesis
      by (intro live_evolves [OF live snd]) (auto simp: submit_post_def Let_def)
  next
    case (Inr params)
    let ?t = "snd (submit_post args s)"
    obtain pr where t: "cl_reqs ?t = cl_reqs s @ [pr]" "cl_pending ?t = cl_pending s"
        "cl_tasks ?t = cl_tasks s @ [Register (length (cl_reqs s)) params]" "cl_submitting ?t = cl_submitting s"
      and pr: "pr_id pr = IntId (cl_next_id s)" "pr_token pr = ?tok"
      using Inr by (simp add: submit_post_def Let_def PendingRequest_def)
    have "own_token pr \<noteq> Some (IntId n)" for n
      by (rule submit_token_ok [OF c pr])
    then have "tokens_ok ?t"
      using live unfolding live_def tokens_ok_def t by (auto simp: nth_append less_Suc_eq)
    moreover have "nolost {} ?t"
      using live unfolding live_def nolost_def queued_def t by (auto simp: nth_append less_Suc_eq)
    ultimately show ?thesis
      using snd by (simp add: live_def sound_def)
  qed
qed

lemma live_drain_pending: "live {} s \<Longrightarrow> live {} (drain_pending env on_io destructing reason s)"
  by (simp add: drain_pending_def live_drain_now live_post)

lemma live_submitting:
  "live {} s \<Longrightarrow> set xs \<subseteq> Collect careful \<Longrightarrow> live {} (s\<lparr>cl_submitting := xs\<rparr>)"
  using sound_submitting [of s xs]
  by (auto simp: live_def sound_def tokens_ok_def nolost_def queued_def)

lemma drop_nth_subset: "set (drop_nth n xs) \<subseteq> set xs"
  by (auto simp: drop_nth_def dest: in_set_takeD in_set_dropD)

lemma client_step_live: "client_step env careful s t \<Longrightarrow> live {} s \<Longrightarrow> live {} t"
proof (induction rule: client_step.induct)
  case (submit_begin args s)
  then show ?case
    by (intro live_submitting) (auto simp: live_def tokens_ok_def)
next
  case (submit_end n s)
  then have "careful (cl_submitting s ! n)" "set (drop_nth n (cl_submitting s)) \<subseteq> Collect careful"
    using drop_nth_subset [of n "cl_submitting s"] by (auto simp: live_def tokens_ok_def)
  with submit_end show ?case
    by (intro live_submit_post live_submitting) simp_all
next
  case (connect timeout s conn)
  let ?t = "tcall TConnect (ensure_started s)"
  have "core_eq s ?t"
    by (simp add: core_eq_def ensure_started_def ensure_executor_def)
  then have "live {} ?t" "Suc (unat (cl_next_id ?t)) < 2 ^ 64"
    using connect by (auto intro: live_core simp: core_eq_def)
  with connect show ?case
    by (simp add: async_connect_def Let_def submit_request_def live_submit_post split: option.split sum.split)
next
  case (worker s j js)
  then have "live {} (s\<lparr>cl_pool := js\<rparr>)"
    by (auto simp: core_eq_def intro: live_core)
  then show ?case
    by (simp add: run_inbound_def live_post)
next
  case (callback s c cs)
  then have "sound s (run_callback env c (s\<lparr>cl_posted := cs\<rparr>))"
    using client_step_sound [OF client_step.callback] liveD by blast
  then show ?case
    by (rule live_evolves [OF callback(2)]) simp_all
next
  case (disconnect s on_io)
  then show ?case
    by (simp add: disconnect_def live_drain_pending live_core [OF _ core_transport_disconnect])
next
  case (stop_begin s on_io destructing)
  then have "live {} (transport_disconnect (s\<lparr>cl_stopping := True\<rparr>))"
    by (rule live_core) (simp add: transport_disconnect_def core_eq_def)
  with stop_begin show ?case
    by (simp add: stop_begin_def live_drain_pending)
next
  case (stop_end s)
  then show ?case
    by (simp add: stop_end_def core_eq_def live_core)
qed (auto simp: live_io_run live_post live_core [OF _ core_use_transport] intro: live_core core_connect_end)

lemma live_start: "client_start s \<Longrightarrow> live {} s"
  using cl.start_inv by (simp add: live_def client_start_def tokens_ok_def nolost_def)

interpretation careful_cl: invariant_system client_start "client_step env careful" "live {}" for env
  by unfold_locales (auto intro: live_start client_step_live)

end
