(* ===== verification/Client_Props.thy ===== *)
theory Client_Props
  imports Client_Run
begin

text \<open>
  The properties of the client: every request is finished once and only once, none is lost,
  responses and errors reach the request they answer, the handshake accepts exactly the
  supported versions, every request of the server is answered; and three places where the
  client falls short of what its comments promise.
\<close>

section \<open>An example session\<close>

definition ex_env :: client_env where
  "ex_env = \<lparr>ce_what = (\<lambda>_. ''json''), ce_callback = (\<lambda>_. None)\<rparr>"

definition ex_server :: initialize_result where
  "ex_server = \<lparr>ir_protocol_version = VERSION_2025_03_26,
     ir_capabilities = \<lparr>sc_prompts = None, sc_resources = None, sc_tools = None, sc_logging = None,
       sc_completions = None, sc_experimental = None\<rparr>,
     ir_server_info = \<lparr>impl_name = ''s'', impl_version = ''1''\<rparr>, ir_instructions = None\<rparr>"

text \<open>A client with a transport; the handshake request is sent; it is answered.\<close>

definition ex_new :: client where
  "ex_new = McpClient \<lparr>impl_name = ''c'', impl_version = ''1''\<rparr> empty_client_capabilities"

definition ex_start :: client where
  "ex_start = use_transport ex_new"

definition ex_sent :: client where
  "ex_sent = io_run_one ex_env (snd (async_connect None 0 ex_start))"

definition ex_connected :: client where
  "ex_connected = io_run_one ex_env
     (post (Message (make_success_response (IntId 1) (initialize_result_to_json ex_server))) ex_sent)"

text \<open>A ping: checked, posted, registered and sent.\<close>

definition ex_submitting :: client where
  "ex_submitting = ex_connected\<lparr>cl_submitting := cl_submitting ex_connected @ [ping_request]\<rparr>"

definition ex_posted :: client where
  "ex_posted = snd (submit_post (cl_submitting ex_submitting ! 0)
     (ex_submitting\<lparr>cl_submitting := drop_nth 0 (cl_submitting ex_submitting)\<rparr>))"

definition ex_ping :: client where
  "ex_ping = io_run_one ex_env ex_posted"

lemma ex_new_start [simp]: "client_start ex_new"
  by (simp add: ex_new_def)

lemma accept_handshake_enc:
  "accept_handshake (initialize_result_to_json r) =
     (if is_supported_version (ir_protocol_version r) then Inr r
      else Inl (McpEx INVALID_REQUEST
        (''server negotiated unsupported protocolVersion: '' @ ir_protocol_version r) None))"
proof -
  have "jget (initialize_result_to_json r) ''protocolVersion'' = Some (JStr (ir_protocol_version r))"
    by (simp add: initialize_result_to_json_def)
  then show ?thesis
    by (simp add: accept_handshake_def initialize_result_codec.dec_enc check_negotiated_version_def
        jmember_def str_codec.field_enc)
qed

text \<open>What the table, the strand and the flags are at each point of the session.\<close>

definition stage :: "client \<Rightarrow> pending_request list \<Rightarrow> (request_id \<times> nat) list \<Rightarrow> strand_task list \<Rightarrow>
    64 word \<Rightarrow> submit_args list \<Rightarrow> bool \<Rightarrow> bool" where
  "stage s rs m ts n sub conn \<longleftrightarrow> cl_reqs s = rs \<and> cl_pending s = m \<and> cl_tasks s = ts \<and> cl_next_id s = n
     \<and> cl_submitting s = sub \<and> cl_connected s = conn \<and> cl_io_alive s \<and> cl_running s \<and> cl_owns_io s
     \<and> \<not> cl_stopping s \<and> cl_transport s \<and> \<not> cl_cb_exec s \<and> cl_default_timeout s = 0"

lemmas stage_simps = stage_def io_run_one_def run_task_def on_transport_message_def parse_built_success
  complete_pending_def raw_send_def tcall_def post_def Let_def

definition ex_init_req :: pending_request where
  "ex_init_req = PendingRequest (IntId 1) METHOD_INITIALIZE NullId"

definition ex_ping_req :: pending_request where
  "ex_ping_req = PendingRequest (IntId 2) METHOD_PING NullId"

lemma ex_reqs [simp]:
  "pr_id ex_init_req = IntId 1" "pr_token ex_init_req = NullId" "pr_method ex_init_req = METHOD_INITIALIZE"
  "own_token ex_init_req = None" "arm_timer ex_init_req = ex_init_req" "pr_state ex_init_req = Waiting"
  "pr_id ex_ping_req = IntId 2" "pr_token ex_ping_req = NullId" "pr_method ex_ping_req = METHOD_PING"
  "own_token ex_ping_req = None" "arm_timer ex_ping_req = ex_ping_req" "pr_state ex_ping_req = Waiting"
  "pr_get ex_ping_req = None"
  by (simp_all add: ex_init_req_def ex_ping_req_def PendingRequest_def own_token_def is_null_id_def arm_timer_def
      pr_get_def)

lemma ex_connecting_stage:
  "stage (snd (async_connect None 0 ex_start)) [ex_init_req] []
     [Register 0 (Some (make_initialize_params ex_start))] 2 [] False"
  by (simp add: stage_def async_connect_def ex_start_def ex_new_def use_transport_def McpClient_def
      ensure_started_def ensure_executor_def tcall_def Let_def submit_request_def submit_check_def
      submit_post_def initialize_args_def submit_token_def ex_init_req_def post_def PendingRequest_def
      make_initialize_params_def)

lemma ex_sent_stage: "stage ex_sent [ex_init_req] [(IntId 1, 0)] [] 2 [] False"
  using ex_connecting_stage
  by (simp add: ex_sent_def stage_simps run_register_def register_pending_def)

definition ex_done_req :: pending_request where
  "ex_done_req = fst (finish 0 ((mcp_outcome Succeeded)\<lparr>out_result := initialize_result_to_json ex_server\<rparr>) ex_init_req)"

lemma ex_done_req_get: "pr_get ex_done_req = Some (Inr (initialize_result_to_json ex_server))"
  by (simp add: ex_done_req_def ex_init_req_def PendingRequest_def finish_def Let_def pr_get_def
      outcome_result_def mcp_outcome_def)

lemma ex_connected_stage: "stage ex_connected [ex_done_req] [] [] 2 [] True"
proof -
  have f: "finish 0 ((mcp_outcome Succeeded)\<lparr>out_result := initialize_result_to_json ex_server\<rparr>) ex_init_req
      = (ex_done_req, [])"
    by (simp add: ex_done_req_def finish_def Let_def dispatch_callbacks_def ex_init_req_def PendingRequest_def
        mcp_outcome_def)
  have v: "is_supported_version (ir_protocol_version ex_server)"
    by (simp add: ex_server_def version_defs)
  show ?thesis
    using ex_sent_stage
    by (simp add: ex_connected_def stage_simps accept_handshake_enc v finish_at_def f erase_pending_def oerase_def)
qed

lemma ex_submitting_stage: "stage ex_submitting [ex_done_req] [] [] 2 [ping_request] True"
  using ex_connected_stage by (simp add: ex_submitting_def stage_def)

lemma ex_posted_stage: "stage ex_posted [ex_done_req, ex_ping_req] [] [Register 1 None] 3 [] True"
  using ex_submitting_stage
  by (simp add: ex_posted_def stage_def submit_post_def ping_request_def prepare_def submit_token_def drop_nth_def
      post_def Let_def ex_ping_req_def PendingRequest_def)

lemma ex_ping_stage: "stage ex_ping [ex_done_req, ex_ping_req] [(IntId 2, 1)] [] 3 [] True"
  using ex_posted_stage
  by (simp add: ex_ping_def stage_simps run_register_def register_pending_def)

lemma ex_next_ids: "cl_next_id ex_start = 1" "cl_next_id ex_submitting = 2" "length (cl_submitting ex_submitting) = 1"
  using ex_submitting_stage by (simp_all add: stage_def ex_start_def ex_new_def use_transport_def McpClient_def)

lemma ex_sent_step: "(client_step ex_env careful)\<^sup>*\<^sup>* ex_start ex_sent"
proof -
  have "client_step ex_env careful ex_start (snd (async_connect None 0 ex_start))"
    by (rule client_step.connect) (simp_all add: initialize_args_def careful_def ex_next_ids)
  moreover have "client_step ex_env careful (snd (async_connect None 0 ex_start)) ex_sent"
    unfolding ex_sent_def by (rule client_step.run)
  ultimately show ?thesis
    by (meson converse_rtranclp_into_rtranclp rtranclp.rtrancl_refl)
qed

lemma ex_connected_step: "(client_step ex_env careful)\<^sup>*\<^sup>* ex_sent ex_connected"
  unfolding ex_connected_def
  by (meson client_step.received client_step.run converse_rtranclp_into_rtranclp rtranclp.rtrancl_refl)

lemma ex_connected_reachable: "(client_step ex_env careful)\<^sup>*\<^sup>* ex_new ex_connected"
proof -
  have "client_step ex_env careful ex_new ex_start"
    unfolding ex_start_def by (rule client_step.use_transport)
  then show ?thesis
    using ex_sent_step ex_connected_step by (meson converse_rtranclp_into_rtranclp rtranclp_trans)
qed

lemma ex_submitting_step: "client_step ex_env careful ex_connected ex_submitting"
  unfolding ex_submitting_def
  using ex_connected_stage
  by (intro client_step.submit_begin)
    (simp_all add: stage_def submit_check_def careful_def ping_request_def prepare_def)

lemma ex_posted_step: "client_step ex_env careful ex_submitting ex_posted"
  unfolding ex_posted_def by (rule client_step.submit_end) (simp_all add: ex_next_ids)

lemma ex_ping_reachable: "(client_step ex_env careful)\<^sup>*\<^sup>* ex_new ex_ping"
  using ex_connected_reachable ex_submitting_step ex_posted_step client_step.run [of ex_env careful ex_posted]
  unfolding ex_ping_def [symmetric] by (meson rtranclp.rtrancl_into_rtrancl)


section \<open>Every request is finished once\<close>

text \<open>C1: In every run, a request is in the state \<open>Waiting\<close> exactly as long as its promise is
  unset; once the promise is set, it never changes again, so that \<open>get()\<close> returns the same
  outcome to every caller; and of its completion callbacks (\<open>on_complete\<close>, \<open>on_error\<close>) at most one
  is ever called, at most once, and none while the request waits.\<close>

theorem requests_finish_once:
  assumes "client_start s0" "(client_step env P)\<^sup>*\<^sup>* s0 s" "(client_step env P)\<^sup>*\<^sup>* s t"
    and "a < length (cl_reqs s)"
  shows "(pr_state (cl_reqs t ! a) = Waiting \<longleftrightarrow> pr_promise (cl_reqs t ! a) = None)
    \<and> (pr_get (cl_reqs s ! a) \<noteq> None \<longrightarrow> pr_get (cl_reqs t ! a) = pr_get (cl_reqs s ! a))
    \<and> completions a (cl_fired t @ cl_posted t) \<le> (if pr_get (cl_reqs t ! a) = None then 0 else 1)"
proof -
  have s: "cinv s" and t: "cinv t"
    using assms cl.reachable_inv cl.steps_inv by blast+
  have ev: "evolves s t"
    by (rule steps_evolve [OF assms(3) s])
  then have lt: "a < length (cl_reqs t)"
    using assms(4) by (simp add: evolves_def)
  have "completed a t \<le> callback_limit (cl_reqs t) a" "pr_ok (cl_reqs t ! a)"
    using t lt by (auto simp: cinv_def reqs_ok_def)
  then show ?thesis
    using ev lt assms(4)
    by (auto simp: evolves_def pr_ok_def pr_get_def completed_def callback_limit_def split: if_splits)
qed

theorem requests_finish_once_witness:
  "pr_get (cl_reqs ex_ping ! 0) = pr_get (cl_reqs ex_connected ! 0) \<and> pr_get (cl_reqs ex_connected ! 0) \<noteq> None"
proof -
  have steps: "(client_step ex_env careful)\<^sup>*\<^sup>* ex_connected ex_ping"
    using ex_submitting_step ex_posted_step client_step.run [of ex_env careful ex_posted]
    unfolding ex_ping_def [symmetric] by (meson r_into_rtranclp rtranclp.rtrancl_into_rtrancl)
  show ?thesis
    using requests_finish_once [OF ex_new_start ex_connected_reachable steps, of 0] ex_connected_stage
    by (simp add: stage_def ex_done_req_get)
qed

text \<open>C25: No request is lost: as long as custom progress tokens are not numbers (or a progress
  callback is given), every waiting request of every reachable state is either in the table under
  its own id or its registration is still queued on the strand.\<close>

theorem waiting_requests_are_tracked:
  assumes "client_start s0" "(client_step env careful)\<^sup>*\<^sup>* s0 s"
    and "a < length (cl_reqs s)" "pr_get (cl_reqs s ! a) = None"
  shows "(\<exists>p. Register a p \<in> set (cl_tasks s)) \<or> map_of (cl_pending s) (pr_id (cl_reqs s ! a)) = Some a"
proof -
  have "live {} s"
    using assms(1,2) careful_cl.reachable_inv by blast
  then show ?thesis
    using assms(3,4) by (auto simp: live_def nolost_def queued_def cinv_def reqs_ok_def pr_ok_def pr_get_def)
qed

theorem waiting_requests_are_tracked_witness:
  "map_of (cl_pending ex_ping) (pr_id (cl_reqs ex_ping ! 1)) = Some 1"
  using waiting_requests_are_tracked [OF ex_new_start ex_ping_reachable, of 1] ex_ping_stage
  by (simp add: stage_def)





section \<open>Responses\<close>

lemma reqs_log_handshake [simp]: "cl_reqs (log_handshake_error env e s) = cl_reqs s"
  using core_log_handshake [of s env e] by (simp add: core_eq_def)

lemma cinv_pr_ok: "cinv s \<Longrightarrow> map_of (cl_pending s) i = Some a \<Longrightarrow> pr_ok (cl_reqs s ! a)"
  using pending_bound [of s i a] by (simp add: cinv_def reqs_ok_def)

lemma get_finish:
  "pr_ok pr \<Longrightarrow> pr_state pr = Waiting \<Longrightarrow> pr_get (fst (finish a o' pr)) = Some (outcome_result o')"
  by (simp add: pr_get_def finish_promise pr_ok_def)

text \<open>A completed ordinary request: its outcome, the table, and the other requests.\<close>

lemma complete_ordinary:
  assumes "cinv s" "map_of (cl_pending s) i = Some a" "pr_state (cl_reqs s ! a) = Waiting"
    and "out_terminal o' = Succeeded \<longrightarrow> pr_method (cl_reqs s ! a) \<noteq> METHOD_INITIALIZE"
  shows "pr_get (cl_reqs (complete_pending env i o' s) ! a) = Some (outcome_result o')"
    and "map_of (cl_pending (complete_pending env i o' s)) i = None"
    and "b \<noteq> a \<Longrightarrow> cl_reqs (complete_pending env i o' s) ! b = cl_reqs s ! b"
    and "cl_calls (complete_pending env i o' s) = cl_calls (finish_at env a o' s)"
proof -
  have c: "complete_pending env i o' s = finish_at env a o' (erase_pending i (cl_reqs s ! a) s)"
    using assms(2,4) by (auto simp: complete_pending_def Let_def)
  have p: "map_of (cl_pending (erase_pending i (cl_reqs s ! a) s)) i = None"
    by (simp add: erase_pending_def Let_def map_of_oerase split: option.split)
  show "pr_get (cl_reqs (complete_pending env i o' s) ! a) = Some (outcome_result o')"
    and "map_of (cl_pending (complete_pending env i o' s)) i = None"
    and "b \<noteq> a \<Longrightarrow> cl_reqs (complete_pending env i o' s) ! b = cl_reqs s ! b"
    using assms p pending_bound [OF assms(1,2)] cinv_pr_ok [OF assms(1,2)] by (simp_all add: c get_finish)
  have "cl_calls (fold (fire env x) cs u) = cl_calls u" for x cs u
    by (induction cs arbitrary: u) (simp_all add: fire_def run_callback_def Let_def clog_def split: option.split)
  then show "cl_calls (complete_pending env i o' s) = cl_calls (finish_at env a o' s)"
    unfolding c by (simp add: finish_at_def erase_pending_def Let_def split: prod.split)
qed


lemma ex_ping_cinv: "cinv ex_ping"
  using ex_ping_reachable cl.reachable_inv [OF ex_new_start] by blast


lemma handshake_effect:
  assumes "cinv s" "map_of (cl_pending s) i = Some a" "pr_state (cl_reqs s ! a) = Waiting"
    and "pr_method (cl_reqs s ! a) = METHOD_INITIALIZE" "cl_transport s"
    and "t = fst (on_transport_message env (make_success_response i (initialize_result_to_json ir)) s)"
  shows "is_supported_version (ir_protocol_version ir) \<Longrightarrow>
      cl_connected t \<and> cl_initialized t \<and> cl_server_result t = Some ir
      \<and> cl_calls t = cl_calls s @
          [TSend (serialize_notification \<lparr>notif_method = NOTIF_INITIALIZED, notif_params = None\<rparr>)]
      \<and> pr_get (cl_reqs t ! a) = Some (Inr (initialize_result_to_json ir))"
    and "\<not> is_supported_version (ir_protocol_version ir) \<Longrightarrow>
      cl_connected t = cl_connected s \<and> cl_initialized t = cl_initialized s
      \<and> cl_server_result t = cl_server_result s \<and> cl_calls t = cl_calls s
      \<and> (\<exists>msg. pr_get (cl_reqs t ! a) = Some (Inl (McpEx INVALID_REQUEST msg None)))"
proof -
  have fold: "P (fold (fire env x) cs u) = P u"
    if "\<And>c v. P (v\<lparr>cl_fired := cl_fired v @ [c]\<rparr>) = P v" "\<And>m v. P (clog m v) = P v"
      "\<And>c v. P (v\<lparr>cl_posted := cl_posted v @ [c]\<rparr>) = P v" for P :: "client \<Rightarrow> 'b" and x cs u
    using that by (induction cs arbitrary: u) (simp_all add: fire_def run_callback_def Let_def split: option.split)
  have keep: "cl_connected (finish_at env a o' u) = cl_connected u" "cl_initialized (finish_at env a o' u) = cl_initialized u"
    "cl_server_result (finish_at env a o' u) = cl_server_result u" "cl_calls (finish_at env a o' u) = cl_calls u" for o' u
    by (simp_all add: finish_at_def fold clog_def split: prod.split)
  have t: "t = complete_pending env i ((mcp_outcome Succeeded)\<lparr>out_result := initialize_result_to_json ir\<rparr>) s"
    using assms(6) by (simp add: on_transport_message_def parse_built_success)
  note facts = assms(2-5) pending_bound [OF assms(1,2)] cinv_pr_ok [OF assms(1,2)]
  show "cl_connected t \<and> cl_initialized t \<and> cl_server_result t = Some ir
      \<and> cl_calls t = cl_calls s @
          [TSend (serialize_notification \<lparr>notif_method = NOTIF_INITIALIZED, notif_params = None\<rparr>)]
      \<and> pr_get (cl_reqs t ! a) = Some (Inr (initialize_result_to_json ir))"
    if "is_supported_version (ir_protocol_version ir)"
    using that facts
    by (simp add: t complete_pending_def Let_def accept_handshake_enc keep get_finish outcome_result_def mcp_outcome_def
        erase_pending_def raw_send_def tcall_def)
  show "cl_connected t = cl_connected s \<and> cl_initialized t = cl_initialized s
      \<and> cl_server_result t = cl_server_result s \<and> cl_calls t = cl_calls s
      \<and> (\<exists>msg. pr_get (cl_reqs t ! a) = Some (Inl (McpEx INVALID_REQUEST msg None)))"
    if "\<not> is_supported_version (ir_protocol_version ir)"
    using that facts
    by (simp add: t complete_pending_def Let_def accept_handshake_enc keep get_finish outcome_result_def mcp_outcome_def
        handshake_failure_def log_handshake_error_def erase_pending_def)
qed

text \<open>The handshake. For the waiting \<open>initialize\<close> request, a result with a supported version
  makes the client connected and initialized, stores exactly what the server sent, and sends
  \<open>notifications/initialized\<close>, nothing else; a result with any other version leaves the
  connection flags and the stored result as they were, sends nothing, and \<open>get()\<close> throws
  \<open>INVALID_REQUEST\<close>.\<close>

theorem handshake_outcome:
  assumes "cinv s" "map_of (cl_pending s) i = Some a" "pr_state (cl_reqs s ! a) = Waiting"
    and "pr_method (cl_reqs s ! a) = METHOD_INITIALIZE" "cl_transport s"
    and "t = fst (on_transport_message env (make_success_response i (initialize_result_to_json ir)) s)"
  shows "if is_supported_version (ir_protocol_version ir)
    then cl_connected t \<and> cl_initialized t \<and> cl_server_result t = Some ir
      \<and> cl_calls t = cl_calls s @
          [TSend (serialize_notification \<lparr>notif_method = NOTIF_INITIALIZED, notif_params = None\<rparr>)]
      \<and> pr_get (cl_reqs t ! a) = Some (Inr (initialize_result_to_json ir))
    else cl_connected t = cl_connected s \<and> cl_initialized t = cl_initialized s
      \<and> cl_server_result t = cl_server_result s \<and> cl_calls t = cl_calls s
      \<and> (\<exists>msg. pr_get (cl_reqs t ! a) = Some (Inl (McpEx INVALID_REQUEST msg None)))"
  using handshake_effect [OF assms] by simp

lemma ex_sent_cinv: "cinv ex_sent"
proof -
  have "(client_step ex_env careful)\<^sup>*\<^sup>* ex_new ex_sent"
    using client_step.use_transport [of ex_env careful ex_new] ex_sent_step
    by (simp add: ex_start_def converse_rtranclp_into_rtranclp)
  then show ?thesis
    using cl.reachable_inv [OF ex_new_start] by blast
qed

theorem handshake_outcome_witness:
  "cl_connected (fst (on_transport_message ex_env (make_success_response (IntId 1) (initialize_result_to_json ex_server)) ex_sent))"
  using handshake_outcome [OF ex_sent_cinv _ _ _ _ refl, where i = "IntId 1" and a = 0 and env = ex_env and ir = ex_server] ex_sent_stage
  by (simp add: stage_def ex_server_def version_defs)



section \<open>Requests of the server\<close>

lemma inbound_reply_response: "response_to i (inbound_reply env i r)"
  by (auto simp: inbound_reply_def response_to_def split: sum.split exn.split)

lemma parse_client_request:
  assumes "req_id r \<noteq> NullId" "structured (req_params r)"
  shows "parse_message_client what (serialize_request r) = Inr (PRequest r)"
proof -
  have "jcontains (serialize_request r) ''method''"
    by (simp add: jcontains_def)
  then show ?thesis
    by (simp add: parse_calls_agree parse_built_request [OF assms])
qed

definition server_initiated :: "string list" where
  "server_initiated = [METHOD_SAMPLING_CREATE, METHOD_ELICITATION_CREATE, METHOD_ROOTS_LIST]"

text \<open>C28: Every request of the server gets exactly one response, with the id of the request:
  it is sent at once (\<open>ping\<close> and unknown methods, the latter with \<open>METHOD_NOT_FOUND\<close>), or posted to the strand
  as the next reply to send, or, with a worker pool, is what the queued job posts when it runs.
  Without a handler the answer to a sampling, elicitation or roots request is
  \<open>METHOD_NOT_FOUND\<close>.\<close>

theorem server_requests_are_answered:
  assumes "req_id r \<noteq> NullId" "structured (req_params r)" "cl_transport s"
    and "t = fst (on_transport_message env (serialize_request r) s)"
  shows "(\<exists>m. response_to (req_id r) m \<and>
        (cl_calls t = cl_calls s @ [TSend m] \<and> cl_tasks t = cl_tasks s \<and> cl_pool t = cl_pool s
           \<and> req_method r \<notin> set server_initiated
       \<or> cl_calls t = cl_calls s \<and> cl_tasks t = cl_tasks s @ [Reply m] \<and> cl_pool t = cl_pool s
       \<or> cl_calls t = cl_calls s \<and> cl_tasks t = cl_tasks s
           \<and> (\<exists>j. cl_pool t = cl_pool s @ [j] \<and> (\<forall>u. run_inbound env j u = post (Reply m) u))))
    \<and> (req_method r \<notin> set (METHOD_PING # server_initiated) \<longrightarrow>
        cl_calls t = cl_calls s @ [TSend (make_error_response (req_id r) METHOD_NOT_FOUND
          (''Method not found: '' @ req_method r) None)])
    \<and> (\<forall>p. inbound_reply env (req_id r) (run_sampling None p)
          = make_error_response (req_id r) METHOD_NOT_FOUND (''Method not found: '' @ METHOD_SAMPLING_CREATE) None
        \<and> inbound_reply env (req_id r) (run_elicitation None p)
          = make_error_response (req_id r) METHOD_NOT_FOUND (''Method not found: '' @ METHOD_ELICITATION_CREATE) None
        \<and> inbound_reply env (req_id r) (run_roots None p)
          = make_error_response (req_id r) METHOD_NOT_FOUND (''Method not found: '' @ METHOD_ROOTS_LIST) None)"
proof -
  have t: "t = handle_inbound_request env r s"
    using assms(4) by (simp add: on_transport_message_def parse_client_request [OF assms(1,2)])
  have d: "\<exists>m. response_to (req_id r) m \<and>
       (cl_calls u = cl_calls s \<and> cl_tasks u = cl_tasks s @ [Reply m] \<and> cl_pool u = cl_pool s
       \<or> cl_calls u = cl_calls s \<and> cl_tasks u = cl_tasks s
           \<and> (\<exists>j. cl_pool u = cl_pool s @ [j] \<and> (\<forall>v. run_inbound env j v = post (Reply m) v)))"
    if "u = dispatch_inbound_request env r run s" for u run
    by (rule exI [of _ "inbound_reply env (req_id r) (run (params_or_empty (req_params r)))"])
      (auto simp: that dispatch_inbound_request_def run_inbound_def Let_def post_def inbound_reply_response)
  have "response_to (req_id r) (make_success_response (req_id r) (JObj []))"
    "response_to (req_id r) (make_error_response (req_id r) c m e)" for c m e
    by (auto simp: response_to_def)
  then show ?thesis
    using d [OF refl, of "run_sampling (cl_sampling_handler s)"] d [OF refl, of "run_elicitation (cl_elicitation_handler s)"]
      d [OF refl, of "run_roots (cl_roots_handler s)"] assms(3)
    by (auto simp: t handle_inbound_request_def server_initiated_def raw_send_def tcall_def run_sampling_def
        run_elicitation_def run_roots_def inbound_reply_def MethodNotFoundError_def)
qed

theorem server_requests_are_answered_witness:
  "cl_calls (fst (on_transport_message ex_env
        (serialize_request \<lparr>req_id = IntId 9, req_method = ''x'', req_params = None\<rparr>) ex_ping))
     = cl_calls ex_ping @ [TSend (make_error_response (IntId 9) METHOD_NOT_FOUND ''Method not found: x'' None)]"
  using server_requests_are_answered
      [of "\<lparr>req_id = IntId 9, req_method = ''x'', req_params = None\<rparr>" ex_ping _ ex_env, OF _ _ _ refl]
    ex_ping_stage
  by (simp add: stage_def structured_def server_initiated_def)


section \<open>Where the client falls short\<close>

definition bad_progress :: "64 word \<Rightarrow> string \<Rightarrow> json" where
  "bad_progress n x = serialize_notification \<lparr>notif_method = NOTIF_PROGRESS,
     notif_params = Some (jobject [(''progressToken'', JInt n), (''progress'', JStr x)])\<rparr>"

text \<open>A progress notification whose \<open>progress\<close> is no number ends the client's I/O loop: the
  exception leaves the task, every pending request fails, and the loop runs no task any more.
  \<open>disconnect()\<close> from a user thread then posts a drain that is never run, and waits for it
  forever.\<close>

theorem malformed_progress_ends_the_loop:
  assumes "cl_io_alive s" "cl_tasks s = [Message (bad_progress n x)]" "cl_running s"
    and "t = io_run_one env s" "u = disconnect env False t"
  shows "\<not> cl_io_alive t \<and> \<not> cl_connected t \<and> cl_pending t = []
    \<and> cl_tasks u = [Drain ''client disconnected''] \<and> io_run_one env u = u"
proof -
  let ?p = "jobject [(''progressToken'', JInt n), (''progress'', JStr x)]"
  have "structured (Some ?p)"
    by (simp add: structured_def jobject_def)
  then have m: "on_transport_message env (bad_progress n x) v = (v, Some (JsonEx (JsonTypeError 302 ''number'' (JStr x))))" for v
    by (simp add: bad_progress_def on_transport_message_def parse_built_notification handle_notification_def
        handle_progress_def params_or_empty_def jobject_def request_id_from_json_def)
  have fold: "P (fold (fail_one env r) ks v) = P v"
    if "\<And>a o' v. P (finish_at env a o' v) = P v" for P :: "client \<Rightarrow> bool" and r ks v
    using that by (induction ks arbitrary: v) (auto simp: fail_one_def split: prod.split)
  have fire: "P (fold (fire env y) cs v) = P v"
    if "\<And>c v. P (v\<lparr>cl_fired := cl_fired v @ [c]\<rparr>) = P v" "\<And>m v. P (clog m v) = P v"
      "\<And>c v. P (v\<lparr>cl_posted := cl_posted v @ [c]\<rparr>) = P v" for P :: "client \<Rightarrow> bool" and y cs v
    using that by (induction cs arbitrary: v) (simp_all add: fire_def run_callback_def Let_def split: option.split)
  have keep: "cl_io_alive (on_transport_disconnect env v) = cl_io_alive v"
    "cl_running (on_transport_disconnect env v) = cl_running v"
    "\<not> cl_connected (on_transport_disconnect env v)" for v
    by (simp_all add: on_transport_disconnect_def fail_all_pending_fold Let_def clog_def fold
        finish_at_def fire split: option.split prod.split)
  show ?thesis
    using assms core_transport_down [of env]
    by (simp add: io_run_one_def run_task_def m keep disconnect_def drain_pending_def transport_disconnect_def
        core_eq_def drain_now_def fail_all_pending_fold clog_def tcall_def post_def)
qed


theorem malformed_progress_ends_the_loop_witness:
  "\<not> cl_io_alive (io_run_one ex_env (post (Message (bad_progress 1 ''half'')) ex_ping))"
  using malformed_progress_ends_the_loop
      [of "post (Message (bad_progress 1 ''half'')) ex_ping", OF _ _ _ refl refl, of 1 "''half''" ex_env]
    ex_ping_stage
  by (simp add: stage_def post_def)

text \<open>The race: the ping passes the check, \<open>stop()\<close> drains the strand, the ping is posted and
  registered, \<open>stop()\<close> ends.\<close>

definition race_stopping :: client where
  "race_stopping = io_run_one ex_env (stop_begin ex_env False False ex_submitting)"

definition race_posted :: client where
  "race_posted = io_run_one ex_env (snd (submit_post (cl_submitting race_stopping ! 0)
     (race_stopping\<lparr>cl_submitting := drop_nth 0 (cl_submitting race_stopping)\<rparr>)))"

definition race_stopped :: client where
  "race_stopped = stop_end race_posted"

lemma race_stopping_facts:
  "cl_reqs race_stopping = [ex_done_req]" "cl_pending race_stopping = []" "cl_tasks race_stopping = []"
  "cl_next_id race_stopping = 2" "cl_submitting race_stopping = [ping_request]" "cl_stopping race_stopping"
  "cl_io_alive race_stopping" "cl_owns_io race_stopping" "cl_transport race_stopping" "\<not> cl_cb_exec race_stopping"
  "cl_default_timeout race_stopping = 0"
  using ex_submitting_stage
  by (simp_all add: race_stopping_def stage_def stop_begin_def drain_pending_def transport_disconnect_def
      io_run_one_def run_task_def drain_now_def fail_all_pending_def tcall_def post_def)

lemma race_posted_facts:
  "cl_reqs race_posted = [ex_done_req, ex_ping_req]" "cl_pending race_posted = [(IntId 2, 1)]" "cl_tasks race_posted = []"
  "cl_stopping race_posted" "cl_owns_io race_posted"
  using race_stopping_facts
  by (simp_all add: race_posted_def submit_post_def ping_request_def prepare_def submit_token_def drop_nth_def
      post_def Let_def ex_ping_req_def PendingRequest_def io_run_one_def run_task_def run_register_def
      register_pending_def raw_send_def tcall_def arm_timer_def own_token_def is_null_id_def)

text \<open>A request that passes the check of \<open>submit_request\<close> before \<open>stop()\<close> sets \<open>stopping_\<close>
  can still be registered after the drain: there is a run, using only requests without custom tokens,
  after which \<open>stop()\<close> has ended, the I/O thread is gone, no task is queued, no timer is armed,
  and the request still waits; its \<open>get()\<close> never returns. The check of \<open>stopping_\<close> narrows the
  window its comment describes but does not close it.\<close>

theorem submit_races_stop:
  "\<exists>s. (client_step ex_env careful)\<^sup>*\<^sup>* ex_new s \<and> cl_stopping s \<and> \<not> cl_running s \<and> \<not> cl_io_alive s
     \<and> cl_tasks s = [] \<and> 1 < length (cl_reqs s) \<and> pr_get (cl_reqs s ! 1) = None \<and> \<not> pr_timer (cl_reqs s ! 1)"
proof -
  let ?step = "client_step ex_env careful"
  have 1: "?step\<^sup>*\<^sup>* ex_new ex_submitting"
    using ex_connected_reachable ex_submitting_step by (rule rtranclp.rtrancl_into_rtrancl)
  have 2: "?step\<^sup>*\<^sup>* ex_submitting race_stopping"
    unfolding race_stopping_def
    by (meson client_step.run client_step.stop_begin converse_rtranclp_into_rtranclp r_into_rtranclp)
  have "?step race_stopping (snd (submit_post (cl_submitting race_stopping ! 0)
      (race_stopping\<lparr>cl_submitting := drop_nth 0 (cl_submitting race_stopping)\<rparr>)))"
    by (rule client_step.submit_end) (simp_all add: race_stopping_facts)
  then have 3: "?step\<^sup>*\<^sup>* race_stopping race_posted"
    unfolding race_posted_def by (meson client_step.run converse_rtranclp_into_rtranclp r_into_rtranclp)
  have 4: "?step race_posted race_stopped"
    unfolding race_stopped_def by (rule client_step.stop_end) (simp_all add: race_posted_facts)
  have "?step\<^sup>*\<^sup>* ex_new race_stopped"
    using 1 2 3 4 by (meson rtranclp.rtrancl_into_rtrancl rtranclp_trans)
  then show ?thesis
    by (rule_tac exI [of _ race_stopped])
      (simp add: race_stopped_def stop_end_def race_posted_facts, simp add: ex_ping_req_def PendingRequest_def pr_get_def)
qed

text \<open>A numeric custom token without a progress callback, which \<open>submit_request\<close> does not
  replace, captures the response of another request: when it equals the id of a request that is
  already registered, the response to that id completes the newcomer, with a result that is not
  its own, and the request that was answered waits on and is no longer in the table.\<close>

theorem numeric_token_captures_response:
  assumes "cinv s" "a < length (cl_reqs s)" "b < length (cl_reqs s)" "a \<noteq> b"
    and "pr_state (cl_reqs s ! a) = Waiting" "pr_state (cl_reqs s ! b) = Waiting"
    and "own_token (cl_reqs s ! b) = Some (pr_id (cl_reqs s ! a))"
    and "pr_method (cl_reqs s ! b) \<noteq> METHOD_INITIALIZE"
    and "t = fst (on_transport_message env (make_success_response (pr_id (cl_reqs s ! a)) r)
               (run_register b params s))"
  shows "pr_get (cl_reqs t ! b) = Some (Inr r) \<and> pr_get (cl_reqs t ! a) = None
    \<and> map_of (cl_pending t) (pr_id (cl_reqs s ! a)) = None"
proof -
  let ?s = "run_register b params s" and ?i = "pr_id (cl_reqs s ! a)"
  have inv: "cinv ?s"
    using sound_register [OF assms(1,3)] by (simp add: sound_def)
  have reqs: "cl_reqs ?s = (cl_reqs s)[b := arm_timer (cl_reqs s ! b)]"
    by (simp add: run_register_def register_pending_def Let_def)
  have p: "map_of (cl_pending ?s) ?i = Some b"
    using assms(7) by (simp add: run_register_def register_pending_def Let_def map_of_oset)
  have t: "t = complete_pending env ?i ((mcp_outcome Succeeded)\<lparr>out_result := r\<rparr>) ?s"
    using assms(9) by (simp add: on_transport_message_def parse_built_success)
  have "pr_get (cl_reqs s ! a) = None"
    using assms(1,2,5) by (simp add: cinv_def reqs_ok_def pr_ok_def pr_get_def)
  then show ?thesis
    using complete_ordinary [OF inv p, where env = env and o' = "(mcp_outcome Succeeded)\<lparr>out_result := r\<rparr>"] assms(3,4,6,8)
    by (simp add: t reqs outcome_result_def mcp_outcome_def)
qed

text \<open>The session of the example with a second request whose token is the id of the ping.\<close>

definition ex_clash :: client where
  "ex_clash = snd (submit_post (ping_request\<lparr>sa_token := Some (IntId 2)\<rparr>) ex_ping)"

theorem numeric_token_captures_response_witness:
  "pr_get (cl_reqs (fst (on_transport_message ex_env (make_success_response (IntId 2) (JBool True))
       (run_register 2 None ex_clash))) ! 1) = None"
proof -
  have "Suc (unat (cl_next_id ex_ping)) < 2 ^ 64"
    using ex_ping_stage by (simp add: stage_def)
  then have inv: "cinv ex_clash"
    using sound_submit_post [OF ex_ping_cinv] by (simp add: ex_clash_def sound_def)
  have reqs: "cl_reqs ex_clash = [ex_done_req, ex_ping_req, PendingRequest (IntId 3) METHOD_PING (IntId 2)]"
    using ex_ping_stage
    by (simp add: ex_clash_def stage_def submit_post_def ping_request_def prepare_def submit_token_def post_def Let_def
        PendingRequest_def)
  have "own_token (PendingRequest (IntId 3) METHOD_PING (IntId 2)) = Some (IntId 2)"
    by (simp add: own_token_def PendingRequest_def is_null_id_def)
  then show ?thesis
    using numeric_token_captures_response [OF inv _ _ _ _ _ _ _ refl, of 1 2 ex_env] reqs
    by (simp add: PendingRequest_def)
qed

end
