(* ===== verification/Server_Util.thy ===== *)
theory Server_Util
  imports Mcp_Session_Types
begin

text \<open>
  The free functions of \<open>server.cpp\<close>: URI templates and their matching, typed parameter
  extraction, the log levels, and the validation of tool arguments against a JSON Schema
  subset, with an independent specification of what validity means.
\<close>

section \<open>Parameters and log levels\<close>

definition get_string_param :: "json \<Rightarrow> string \<Rightarrow> string + string" where
  "get_string_param params key =
     (case jget params key of
        None \<Rightarrow> Inl (''Missing '' @ [CHR 0x27] @ key @ [CHR 0x27] @ '' parameter'')
      | Some v \<Rightarrow>
          (case v of JStr s \<Rightarrow> Inr s
           | _ \<Rightarrow> Inl (''Parameter '' @ [CHR 0x27] @ key @ [CHR 0x27] @ '' must be a string'')))"

definition valid_log_levels :: "string list" where
  "valid_log_levels = [''debug'', ''info'', ''notice'', ''warning'', ''error'', ''critical'', ''alert'', ''emergency'']"

definition is_deferrable :: "string \<Rightarrow> bool" where
  "is_deferrable m \<longleftrightarrow> m = METHOD_TOOLS_CALL \<or> m = METHOD_RESOURCES_READ \<or> m = METHOD_PROMPTS_GET"


section \<open>URI templates\<close>

text \<open>\<open>uri_template_to_regex\<close> walks the template once. What it appends to the pattern is either
  one literal character (escaped when it is a metacharacter of the expression syntax) or the
  group \<open>([^/?#]+)\<close>; the pattern is the sequence of these, anchored at both ends. The model keeps
  the sequence and not its spelling.\<close>

datatype pattern_item = Lit char | Group

fun template_items :: "bool \<Rightarrow> string \<Rightarrow> string \<Rightarrow> pattern_item list" where
  "template_items in_var var [] = []"
| "template_items in_var var (c # cs) =
     (if c = CHR ''{'' then template_items True [] cs
      else if c = CHR ''}'' then (if in_var \<and> var \<noteq> [] then [Group] else []) @ template_items False var cs
      else if in_var then template_items True (var @ [c]) cs
      else Lit c # template_items False var cs)"

definition uri_template_to_regex :: "string \<Rightarrow> pattern_item list" where
  "uri_template_to_regex tpl = template_items False [] tpl"

definition group_char :: "char \<Rightarrow> bool" where
  "group_char c \<longleftrightarrow> c \<noteq> CHR ''/'' \<and> c \<noteq> CHR ''?'' \<and> c \<noteq> CHR ''#''"

text \<open>\<open>std::regex_match\<close> on such a pattern: the text of each group, or no match. A group is
  greedy: the longest text for which the rest matches.\<close>

fun first_some :: "('a \<Rightarrow> 'b option) \<Rightarrow> 'a list \<Rightarrow> 'b option" where
  "first_some f [] = None"
| "first_some f (x # xs) = (case f x of None \<Rightarrow> first_some f xs | Some y \<Rightarrow> Some y)"

primrec regex_match :: "pattern_item list \<Rightarrow> string \<Rightarrow> string list option" where
  "regex_match [] s = (if s = [] then Some [] else None)"
| "regex_match (p # ps) s =
     (case p of
        Lit c \<Rightarrow> (case s of x # xs \<Rightarrow> if x = c then regex_match ps xs else None | [] \<Rightarrow> None)
      | Group \<Rightarrow>
          first_some (\<lambda>n. map_option ((#) (take n s)) (regex_match ps (drop n s)))
            (rev [1..<Suc (length (takeWhile group_char s))]))"

definition is_alnum :: "char \<Rightarrow> bool" where
  "is_alnum c \<longleftrightarrow> (let n = of_char c :: nat in
     (48 \<le> n \<and> n \<le> 57) \<or> (65 \<le> n \<and> n \<le> 90) \<or> (97 \<le> n \<and> n \<le> 122))"

text \<open>The second walk, in \<open>handle_resources_read\<close>, that extracts the variable names.\<close>

fun template_names :: "string \<Rightarrow> string \<Rightarrow> string list" where
  "template_names var [] = []"
| "template_names var (c # cs) =
     (if c = CHR ''{'' then template_names [] cs
      else if c = CHR ''}'' then (if var \<noteq> [] then [var] else []) @ template_names [] cs
      else if var \<noteq> [] \<or> is_alnum c \<or> c = CHR ''_'' then template_names (var @ [c]) cs
      else template_names var cs)"

definition match_template :: "string \<Rightarrow> string \<Rightarrow> (string \<times> string) list option" where
  "match_template tpl uri =
     map_option (\<lambda>caps. omap_of_list (zip (template_names [] tpl) caps))
       (regex_match (uri_template_to_regex tpl) uri)"


section \<open>Schema validation\<close>

text \<open>The check of the member \<open>type\<close>. An array of alternatives is checked by validating against
  the schema whose only member is \<open>type\<close>, which comes to this check again.\<close>

fun schema_type_ok :: "json \<Rightarrow> json \<Rightarrow> bool" where
  "schema_type_ok v (JStr ts) =
     (if ts = ''object'' then is_object v
      else if ts = ''array'' then is_array v
      else if ts = ''string'' then is_string v
      else if ts = ''number'' then is_number v
      else if ts = ''integer'' then is_number_integer v
      else if ts = ''boolean'' then is_boolean v
      else if ts = ''null'' then is_null v
      else True)"
| "schema_type_ok v (JArr alts) = list_ex (schema_type_ok v) alts"
| "schema_type_ok v _ = True"

definition quoted :: "string \<Rightarrow> string" where
  "quoted s = [CHR 0x27] @ s @ [CHR 0x27]"

definition type_error :: "json \<Rightarrow> json \<Rightarrow> string \<Rightarrow> string" where
  "type_error v sch path =
     (case jget sch ''type'' of None \<Rightarrow> []
      | Some t \<Rightarrow> if schema_type_ok v t then []
          else if path = [] then ''value does not match schema type''
          else quoted path @ '' does not match schema type'')"

definition enum_error :: "json \<Rightarrow> json \<Rightarrow> string \<Rightarrow> string" where
  "enum_error v sch path =
     (case jget sch ''enum'' of
        Some (JArr es) \<Rightarrow>
          if list_ex (json_eq v) es then []
          else (if path = [] then ''value'' else quoted path) @ '' is not one of the allowed values''
      | _ \<Rightarrow> [])"

fun missing_property :: "json \<Rightarrow> json list \<Rightarrow> string" where
  "missing_property v [] = []"
| "missing_property v (r # rs) =
     (case r of
        JStr k \<Rightarrow> if \<not> jcontains v k then ''missing required property '' @ quoted k else missing_property v rs
      | _ \<Rightarrow> missing_property v rs)"

definition required_error :: "json \<Rightarrow> json \<Rightarrow> string" where
  "required_error v sch =
     (if is_object v then (case jget sch ''required'' of Some (JArr rs) \<Rightarrow> missing_property v rs | _ \<Rightarrow> []) else [])"

text \<open>The first error of a sequence of checks; the empty string is no error.\<close>

fun first_error :: "string list \<Rightarrow> string" where
  "first_error [] = []"
| "first_error (e # es) = (if e \<noteq> [] then e else first_error es)"

definition member_path :: "string \<Rightarrow> string \<Rightarrow> string" where
  "member_path path k = (if path = [] then k else path @ ''.'' @ k)"

definition element_path :: "string \<Rightarrow> nat \<Rightarrow> string" where
  "element_path path i = path @ ''['' @ nat_to_dec i @ '']''"

lemma size_member: "(k, x) \<in> set m \<Longrightarrow> size x < size (JObj m)"
  by (induction m) auto

lemma size_element: "x \<in> set xs \<Longrightarrow> size x < size (JArr xs)"
  by (induction xs) auto

lemma enumerate_element: "(i, x) \<in> set (enumerate n xs) \<Longrightarrow> x \<in> set xs"
  by (auto simp: in_set_enumerate_eq)

function schema_validate :: "json \<Rightarrow> json \<Rightarrow> string \<Rightarrow> string" where
  "schema_validate v sch path =
     (if \<not> is_object sch then []
      else first_error
        [type_error v sch path,
         enum_error v sch path,
         required_error v sch,
         (case v of
            JObj m \<Rightarrow>
              (case jget sch ''properties'' of
                 Some (JObj ps) \<Rightarrow>
                   first_error (map (\<lambda>(k, x). case map_of ps k of None \<Rightarrow> []
                     | Some s \<Rightarrow> schema_validate x s (member_path path k)) m)
               | _ \<Rightarrow> [])
          | JArr xs \<Rightarrow>
              (case jget sch ''items'' of
                 Some (JObj it) \<Rightarrow>
                   first_error (map (\<lambda>(i, x). schema_validate x (JObj it) (element_path path i)) (enumerate 0 xs))
               | _ \<Rightarrow> [])
          | _ \<Rightarrow> [])])"
  by pat_completeness auto

termination
  by (relation "measure (\<lambda>(v, sch, path). size v)")
    (auto dest!: enumerate_element size_element simp: size_member [simplified])

declare schema_validate.simps [simp del]

text \<open>What a valid value is, stated on its own: no order of the checks, no paths, no messages.\<close>

function schema_ok :: "json \<Rightarrow> json \<Rightarrow> bool" where
  "schema_ok v sch \<longleftrightarrow> (is_object sch \<longrightarrow>
       (\<forall>t. jget sch ''type'' = Some t \<longrightarrow> schema_type_ok v t)
     \<and> (\<forall>es. jget sch ''enum'' = Some (JArr es) \<longrightarrow> (\<exists>e \<in> set es. json_eq v e))
     \<and> (\<forall>m rs k. v = JObj m \<longrightarrow> jget sch ''required'' = Some (JArr rs) \<longrightarrow> JStr k \<in> set rs \<longrightarrow> map_of m k \<noteq> None)
     \<and> (\<forall>m ps. v = JObj m \<longrightarrow> jget sch ''properties'' = Some (JObj ps) \<longrightarrow>
          (\<forall>(k, x) \<in> set m. \<forall>s. map_of ps k = Some s \<longrightarrow> schema_ok x s))
     \<and> (\<forall>xs it. v = JArr xs \<longrightarrow> jget sch ''items'' = Some (JObj it) \<longrightarrow> (\<forall>x \<in> set xs. schema_ok x (JObj it))))"
  by pat_completeness auto

termination
  by (relation "measure (\<lambda>(v, sch). size v)") (auto dest: size_element size_member)

declare schema_ok.simps [simp del]

lemma first_error_Nil: "first_error es = [] \<longleftrightarrow> (\<forall>e \<in> set es. e = [])"
  by (induction es) auto

lemma first_error_four: "first_error [a, b, c, d] = [] \<longleftrightarrow> a = [] \<and> b = [] \<and> c = [] \<and> d = []"
  by simp

lemma missing_property_Nil: "missing_property v rs = [] \<longleftrightarrow> (\<forall>k. JStr k \<in> set rs \<longrightarrow> jcontains v k)"
  by (induction rs) (auto split: json.splits)

lemma type_error_Nil: "type_error v sch path = [] \<longleftrightarrow> (\<forall>t. jget sch ''type'' = Some t \<longrightarrow> schema_type_ok v t)"
  by (auto simp: type_error_def split: option.splits)

lemma enum_error_Nil:
  "enum_error v sch path = [] \<longleftrightarrow> (\<forall>es. jget sch ''enum'' = Some (JArr es) \<longrightarrow> (\<exists>e \<in> set es. json_eq v e))"
  by (auto simp: enum_error_def list_ex_iff quoted_def split: option.splits json.splits)

lemma required_error_Nil:
  "required_error v sch = [] \<longleftrightarrow>
     (\<forall>m rs k. v = JObj m \<longrightarrow> jget sch ''required'' = Some (JArr rs) \<longrightarrow> JStr k \<in> set rs \<longrightarrow> map_of m k \<noteq> None)"
  by (cases v) (auto simp: required_error_def missing_property_Nil split: option.splits json.splits)

lemmas schema_error_Nil = first_error_four type_error_Nil enum_error_Nil required_error_Nil

lemma schema_validate_Nil: "schema_validate v sch path = [] \<longleftrightarrow> schema_ok v sch"
proof (induction v arbitrary: sch path rule: measure_induct_rule [where f = size])
  case (less v)
  have members: "first_error (map (\<lambda>(k, x). case map_of ps k of None \<Rightarrow> []
        | Some s \<Rightarrow> schema_validate x s (member_path path k)) m) = []
      \<longleftrightarrow> (\<forall>(k, x) \<in> set m. \<forall>s. map_of ps k = Some s \<longrightarrow> schema_ok x s)" if v: "v = JObj m" for m ps
  proof -
    have "schema_validate x s (member_path path k) = [] \<longleftrightarrow> schema_ok x s" if "(k, x) \<in> set m" for k x s
      using less.IH [of x] size_member [OF that] v by simp
    then show ?thesis
      by (auto simp: first_error_Nil split: option.splits)
  qed
  have elements: "first_error (map (\<lambda>(i, x). schema_validate x it (element_path path i)) (enumerate 0 xs)) = []
      \<longleftrightarrow> (\<forall>x \<in> set xs. schema_ok x it)" if v: "v = JArr xs" for xs it
  proof -
    have "schema_validate x it p = [] \<longleftrightarrow> schema_ok x it" if "(i, x) \<in> set (enumerate 0 xs)" for i x p
      using less.IH [of x] size_element [OF enumerate_element [OF that]] v by simp
    moreover have "set xs = snd ` set (enumerate 0 xs)"
      by (simp flip: set_map)
    ultimately show ?thesis
      by (simp add: first_error_Nil case_prod_beta) (metis prod.collapse)
  qed
  show ?case
  proof (cases v)
    case (JObj m)
    show ?thesis
      unfolding schema_validate.simps [of v] schema_ok.simps [of v] schema_error_Nil if_distrib [of "\<lambda>e. e = []"]
      by (simp add: JObj members split: option.split json.split)
  next
    case (JArr xs)
    show ?thesis
      unfolding schema_validate.simps [of v] schema_ok.simps [of v] schema_error_Nil if_distrib [of "\<lambda>e. e = []"]
      by (simp add: JArr elements split: option.split json.split)
  qed (unfold schema_validate.simps [of v] schema_ok.simps [of v] schema_error_Nil if_distrib [of "\<lambda>e. e = []"],
      simp_all)
qed



section \<open>Properties of the validator\<close>





section \<open>Properties of URI templates\<close>

text \<open>A template as its author means it: literal text and variables. It is separated when every
  variable is followed by the end or by a literal that starts with a delimiter, so that the extent of
  its value is determined.\<close>

datatype segment = Text string | Var string

definition name_char :: "char \<Rightarrow> bool" where
  "name_char c \<longleftrightarrow> (is_alnum c \<or> c = CHR ''_'') \<and> c \<noteq> CHR ''{'' \<and> c \<noteq> CHR ''}''"

fun segment_ok :: "segment \<Rightarrow> bool" where
  "segment_ok (Text l) = (CHR ''{'' \<notin> set l \<and> CHR ''}'' \<notin> set l)"
| "segment_ok (Var n) = (n \<noteq> [] \<and> list_all name_char n)"

fun separated :: "segment list \<Rightarrow> bool" where
  "separated (Var n # Text (c # l) # segs) = (\<not> group_char c \<and> separated (Text (c # l) # segs))"
| "separated (Var n # segs) = (segs = [])"
| "separated (Text l # segs) = separated segs"
| "separated [] = True"

fun template_text :: "segment list \<Rightarrow> string" where
  "template_text [] = []"
| "template_text (Text l # segs) = l @ template_text segs"
| "template_text (Var n # segs) = ''{'' @ n @ ''}'' @ template_text segs"

fun variable_names :: "segment list \<Rightarrow> string list" where
  "variable_names [] = []"
| "variable_names (Text l # segs) = variable_names segs"
| "variable_names (Var n # segs) = n # variable_names segs"

text \<open>Putting values for the variables.\<close>

fun expand :: "segment list \<Rightarrow> string list \<Rightarrow> string" where
  "expand (Text l # segs) vs = l @ expand segs vs"
| "expand (Var n # segs) (v # vs) = v @ expand segs vs"
| "expand _ _ = []"

definition value_ok :: "string \<Rightarrow> bool" where
  "value_ok v \<longleftrightarrow> v \<noteq> [] \<and> list_all group_char v"

fun segment_items :: "segment \<Rightarrow> pattern_item list" where
  "segment_items (Text l) = map Lit l"
| "segment_items (Var n) = [Group]"

lemma template_items_text:
  "CHR ''{'' \<notin> set l \<Longrightarrow> CHR ''}'' \<notin> set l \<Longrightarrow>
   template_items False var (l @ s) = map Lit l @ template_items False var s"
  by (induction l) auto

lemma template_items_name:
  "list_all name_char n \<Longrightarrow> template_items True var (n @ s) = template_items True (var @ n) s"
  by (induction n arbitrary: var) (auto simp: name_char_def)

lemma template_items_segments:
  "list_all segment_ok segs \<Longrightarrow> template_items False var (template_text segs) = concat (map segment_items segs)"
  by (induction segs arbitrary: var rule: template_text.induct)
    (simp_all add: template_items_text template_items_name)

lemma template_names_text:
  "CHR ''{'' \<notin> set l \<Longrightarrow> CHR ''}'' \<notin> set l \<Longrightarrow> \<exists>var'. template_names var (l @ s) = template_names var' s"
  by (induction l arbitrary: var) auto

lemma template_names_name:
  "list_all name_char n \<Longrightarrow> template_names var (n @ s) = template_names (var @ n) s"
  by (induction n arbitrary: var) (auto simp: name_char_def)

lemma template_names_segments:
  "list_all segment_ok segs \<Longrightarrow> template_names var (template_text segs) = variable_names segs"
proof (induction segs arbitrary: var rule: template_text.induct)
  case (2 l segs)
  then show ?case
    using template_names_text [of l var "template_text segs"] by auto
qed (simp_all add: template_names_name)

lemma regex_match_text: "regex_match (map Lit l @ ps) (l @ s) = regex_match ps s"
  by (induction l) auto

lemma first_some_hd: "f x = Some y \<Longrightarrow> first_some f (x # xs) = Some y"
  by simp

lemma regex_match_group:
  assumes "value_ok v" "s = [] \<or> \<not> group_char (hd s)" "regex_match ps s = Some caps"
  shows "regex_match (Group # ps) (v @ s) = Some (v # caps)"
proof -
  have "takeWhile group_char (v @ s) = v"
    using assms(1,2) by (cases s) (auto simp: value_ok_def list_all_iff takeWhile_append)
  moreover have "rev [1..<Suc (length v)] = length v # rev [1..<length v]"
    using assms(1) by (cases v) (simp_all add: value_ok_def)
  ultimately show ?thesis
    using assms(3) by (simp del: upt_Suc)
qed

lemma regex_match_last: "value_ok v \<Longrightarrow> regex_match [Group] v = Some [v]"
  using regex_match_group [of v "[]" "[]" "[]"] by simp

lemma regex_match_expand:
  "separated segs \<Longrightarrow> length vs = length (variable_names segs) \<Longrightarrow> list_all value_ok vs \<Longrightarrow>
   regex_match (concat (map segment_items segs)) (expand segs vs) = Some vs"
proof (induction segs arbitrary: vs rule: separated.induct)
  case (1 n c l segs)
  then obtain v ws where vs: "vs = v # ws"
    by (cases vs) auto
  let ?segs = "Text (c # l) # segs"
  have "regex_match (concat (map segment_items ?segs)) (expand ?segs ws) = Some ws"
    using 1 vs by (intro "1.IH") simp_all
  then have "regex_match (Group # concat (map segment_items ?segs)) (v @ expand ?segs ws) = Some (v # ws)"
    using 1 vs by (intro regex_match_group) simp_all
  then show ?case
    unfolding vs by (simp del: regex_match.simps)
qed (auto simp: regex_match_text regex_match_last length_Suc_conv simp del: regex_match.simps(2))



end
