(* ===== verification/Server.thy ===== *)
theory Server
  imports Server_Util Jsonrpc
begin

text \<open>
  The server (\<open>server.hpp\<close>, \<open>server.cpp\<close>, \<open>context.hpp\<close>, \<open>context.cpp\<close>): registration, the frozen
  registries, the dispatch of requests, the list cache and pagination, notifications, and the
  requests the server sends to its clients.

  A user handler that gets a \<open>RequestContext\<close> can call back into the server. It is a tree of
  these calls (\<open>prog\<close>): at each node the call, below it what the handler goes on to do; the
  leaves are the result or the exception. Handlers without a context are functions. What the
  server sends, logs and calls is recorded in its state; which sends and callbacks throw is told by
  the environment.
\<close>

section \<open>State\<close>

datatype 'r prog =
    Ret 'r
  | Throw exn
  | ReportProgress double "double option" "'r prog"
  | CtxLog string string "string option" "'r prog"
  | SetProgressToken request_id "'r prog"
  | CtxSampling create_message_params bool bool "bool \<Rightarrow> 'r prog"
  | CtxElicitation elicit_params bool bool "bool \<Rightarrow> 'r prog"
  | CtxRoots bool bool "bool \<Rightarrow> 'r prog"

record handlers =
  h_tools :: "(string \<times> tool \<times> (json \<Rightarrow> call_tool_result prog)) list"
  h_tool_list :: "(unit \<Rightarrow> tool list res) option"
  h_resources :: "(string \<times> resource \<times> (string \<Rightarrow> read_resource_result prog)) list"
  h_resource_list :: "(unit \<Rightarrow> resource list res) option"
  h_template_list :: "(unit \<Rightarrow> resource_template list res) option"
  h_templates :: "(string \<times> resource_template \<times> (string \<Rightarrow> (string \<times> string) list \<Rightarrow> read_resource_result prog)) list"
  h_prompts :: "(string \<times> prompt \<times> (string \<Rightarrow> json \<Rightarrow> get_prompt_result prog)) list"
  h_prompt_list :: "(unit \<Rightarrow> prompt list res) option"
  h_completion :: "(completion_reference \<Rightarrow> completion_argument \<Rightarrow> complete_result res) option"
  h_initialize :: "(json \<Rightarrow> initialize_result res) option"
  h_logging_level :: "(string \<Rightarrow> exn option) option"

definition no_handlers :: handlers where
  "no_handlers = \<lparr>h_tools = [], h_tool_list = None, h_resources = [], h_resource_list = None,
     h_template_list = None, h_templates = [], h_prompts = [], h_prompt_list = None, h_completion = None,
     h_initialize = None, h_logging_level = None\<rparr>"

record list_cache =
  lc_tools :: "json option"
  lc_resources :: "json option"
  lc_templates :: "json option"
  lc_prompts :: "json option"

definition empty_cache :: list_cache where
  "empty_cache = \<lparr>lc_tools = None, lc_resources = None, lc_templates = None, lc_prompts = None\<rparr>"

record client_hello =
  hello_capabilities :: client_capabilities
  hello_protocol_version :: string

text \<open>What reads the result of a server-initiated request before the user's callback gets it.\<close>

datatype result_kind = SamplingKind | ElicitationKind | RootsKind

record outbound_pending =
  ob_method :: string
  ob_session :: string
  ob_kind :: result_kind
  ob_on_result :: bool
  ob_on_error :: bool

datatype server_callback =
    SamplingResult "64 word" create_message_result
  | ElicitationResult "64 word" elicit_result
  | RootsResult "64 word" list_roots_result
  | RequestError "64 word" int string

datatype send_target = Broadcast | ToSession string

text \<open>A deferred request, and a response on its way back to the I/O thread; the number names the
  response sink the transport passed.\<close>

record deferred =
  df_request :: rpc_request
  df_sink :: "nat option"
  df_session :: string

record server =
  sv_info :: implementation
  sv_caps :: server_capabilities
  sv_transport :: bool
  sv_running :: bool
  sv_initialized :: bool
  sv_frozen :: bool
  sv_stopping :: bool
  sv_executor :: bool
  sv_workers :: nat
  sv_io_threads :: nat
  sv_cache :: list_cache
  sv_cache_enabled :: bool
  sv_page_size :: "64 word"
  sv_handlers :: handlers
  sv_frozen_handlers :: handlers
  sv_hellos :: "(string \<times> client_hello) list"
  sv_negotiated :: string
  sv_subscribed :: "(string \<times> string set) list"
  sv_outbound :: "(64 word \<times> outbound_pending) list"
  sv_next_outbound :: "64 word"
  sv_jobs :: "deferred list"
  sv_posted :: "(nat option \<times> json) list"
  sv_responses :: "(nat \<times> json) list"
  sv_sent :: "(send_target \<times> json) list"
  sv_called :: "server_callback list"
  sv_log :: "(string \<times> string) list"

record server_env =
  se_what :: "json_error \<Rightarrow> string"
  se_dump :: "json \<Rightarrow> string res"
  se_send :: "send_target \<times> json \<Rightarrow> exn option"
  se_callback :: "server_callback \<Rightarrow> exn option"

definition McpServer :: "implementation \<Rightarrow> server_capabilities \<Rightarrow> server" where
  "McpServer info caps =
     \<lparr>sv_info = info, sv_caps = caps, sv_transport = False, sv_running = False, sv_initialized = False,
      sv_frozen = False, sv_stopping = False, sv_executor = False, sv_workers = 0, sv_io_threads = 0,
      sv_cache = empty_cache, sv_cache_enabled = True, sv_page_size = 0, sv_handlers = no_handlers,
      sv_frozen_handlers = no_handlers, sv_hellos = [], sv_negotiated = [], sv_subscribed = [],
      sv_outbound = [], sv_next_outbound = 1, sv_jobs = [], sv_posted = [], sv_responses = [], sv_sent = [],
      sv_called = [], sv_log = []\<rparr>"

definition slog :: "string \<Rightarrow> string \<Rightarrow> server \<Rightarrow> server" where
  "slog level msg s = s\<lparr>sv_log := sv_log s @ [(level, msg)]\<rparr>"

text \<open>The registries a request sees: the frozen copies once \<open>run()\<close> has taken them.\<close>

definition active_handlers :: "server \<Rightarrow> handlers" where
  "active_handlers s = (if sv_frozen s then sv_frozen_handlers s else sv_handlers s)"


section \<open>Registration and life cycle\<close>

definition ensure_pre_run :: "string \<Rightarrow> server \<Rightarrow> bool \<times> server" where
  "ensure_pre_run action s =
     (if sv_running s then (False, slog ''warning'' (''Cannot '' @ action @ '' after server is running'') s)
      else (True, s))"

text \<open>The common frame of the \<open>register_\<close> functions.\<close>

definition registering :: "(server \<Rightarrow> server) \<Rightarrow> server \<Rightarrow> server" where
  "registering f s = (case ensure_pre_run ''register handlers'' s of (ok, s') \<Rightarrow> if ok then f s' else s')"

definition update_handlers :: "(handlers \<Rightarrow> handlers) \<Rightarrow> server \<Rightarrow> server" where
  "update_handlers f s = s\<lparr>sv_handlers := f (sv_handlers s)\<rparr>"

definition warn_if :: "bool \<Rightarrow> string \<Rightarrow> server \<Rightarrow> server" where
  "warn_if b msg s = (if b then slog ''warning'' msg s else s)"

definition register_tool :: "string \<Rightarrow> tool \<Rightarrow> (json \<Rightarrow> call_tool_result prog) \<Rightarrow> server \<Rightarrow> server" where
  "register_tool name d h = registering (\<lambda>s.
     update_handlers (\<lambda>r. r\<lparr>h_tools := oset name (d, h) (h_tools r)\<rparr>)
       (warn_if (ohas (h_tools (sv_handlers s)) name)
          (''Tool '' @ quoted name @ '' already registered, overwriting'') s))"

definition register_tool_list where
  "register_tool_list h = registering (update_handlers (\<lambda>r. r\<lparr>h_tool_list := Some h\<rparr>))"

definition register_resource :: "string \<Rightarrow> resource \<Rightarrow> (string \<Rightarrow> read_resource_result prog) \<Rightarrow> server \<Rightarrow> server" where
  "register_resource uri d h = registering (\<lambda>s.
     update_handlers (\<lambda>r. r\<lparr>h_resources := oset uri (d, h) (h_resources r)\<rparr>)
       (warn_if (ohas (h_resources (sv_handlers s)) uri)
          (''Resource '' @ quoted uri @ '' already registered, overwriting'') s))"

definition register_resource_list where
  "register_resource_list h = registering (update_handlers (\<lambda>r. r\<lparr>h_resource_list := Some h\<rparr>))"

definition register_resource_template_list where
  "register_resource_template_list h = registering (update_handlers (\<lambda>r. r\<lparr>h_template_list := Some h\<rparr>))"

definition register_resource_template ::
    "string \<Rightarrow> resource_template \<Rightarrow> (string \<Rightarrow> (string \<times> string) list \<Rightarrow> read_resource_result prog) \<Rightarrow> server \<Rightarrow> server" where
  "register_resource_template tpl d h = registering (\<lambda>s.
     update_handlers (\<lambda>r. r\<lparr>h_templates := oset tpl (d\<lparr>rt_uri_template := tpl\<rparr>, h) (h_templates r)\<rparr>)
       (warn_if (ohas (h_templates (sv_handlers s)) tpl)
          (''Resource template '' @ quoted tpl @ '' already registered, overwriting'') s))"

definition register_prompt :: "string \<Rightarrow> prompt \<Rightarrow> (string \<Rightarrow> json \<Rightarrow> get_prompt_result prog) \<Rightarrow> server \<Rightarrow> server" where
  "register_prompt name d h =
     registering (update_handlers (\<lambda>r. r\<lparr>h_prompts := oset name (d, h) (h_prompts r)\<rparr>))"

definition register_prompt_list where
  "register_prompt_list h = registering (update_handlers (\<lambda>r. r\<lparr>h_prompt_list := Some h\<rparr>))"

definition register_completion where
  "register_completion h = registering (update_handlers (\<lambda>r. r\<lparr>h_completion := Some h\<rparr>))"

definition register_initialize_handler where
  "register_initialize_handler h = registering (update_handlers (\<lambda>r. r\<lparr>h_initialize := Some h\<rparr>))"

definition register_logging_level_handler where
  "register_logging_level_handler h = registering (update_handlers (\<lambda>r. r\<lparr>h_logging_level := Some h\<rparr>))"

definition connect_transport :: "server \<Rightarrow> server" where
  "connect_transport s = s\<lparr>sv_transport := True\<rparr>"

definition set_workers :: "nat \<Rightarrow> server \<Rightarrow> server" where
  "set_workers n s = (if sv_running s then s else s\<lparr>sv_workers := n\<rparr>)"

definition set_io_threads :: "nat \<Rightarrow> server \<Rightarrow> server" where
  "set_io_threads n s = (if sv_running s then s else s\<lparr>sv_io_threads := n\<rparr>)"

definition invalidate_list_cache :: "server \<Rightarrow> server" where
  "invalidate_list_cache s = s\<lparr>sv_cache := empty_cache\<rparr>"

definition set_list_page_size :: "64 word \<Rightarrow> server \<Rightarrow> server" where
  "set_list_page_size n s = invalidate_list_cache (s\<lparr>sv_page_size := n\<rparr>)"

text \<open>\<open>run\<close> up to the I/O loop; \<open>started\<close> is what the transport's \<open>start\<close> throws, if it does.\<close>

definition run :: "server_env \<Rightarrow> exn option \<Rightarrow> server \<Rightarrow> server" where
  "run env started s =
     (if \<not> sv_transport s then slog ''error'' ''No transport connected'' s
      else
        let s1 = s\<lparr>sv_frozen_handlers := sv_handlers s, sv_frozen := True, sv_running := True,
                    sv_executor := sv_executor s \<or> sv_workers s > 0\<rparr>
        in case started of None \<Rightarrow> s1
           | Some e \<Rightarrow> (slog ''error'' (''Transport start failed: '' @ exn_what (se_what env) e) s1)
                         \<lparr>sv_running := False, sv_frozen := False\<rparr>)"

definition stop :: "server \<Rightarrow> server" where
  "stop s = (if sv_stopping s then s
     else s\<lparr>sv_stopping := True, sv_running := False, sv_jobs := [], sv_outbound := []\<rparr>)"



section \<open>Notifications\<close>

text \<open>One call of the transport's \<open>send_message\<close> or \<open>send_to_session\<close>: the exception it throws,
  if it does; otherwise the message counts as sent.\<close>

definition transport_send :: "server_env \<Rightarrow> send_target \<Rightarrow> json \<Rightarrow> server \<Rightarrow> exn option \<times> server" where
  "transport_send env tgt m s =
     (case se_send env (tgt, m) of Some e \<Rightarrow> (Some e, s) | None \<Rightarrow> (None, s\<lparr>sv_sent := sv_sent s @ [(tgt, m)]\<rparr>))"

definition send_notification :: "server_env \<Rightarrow> string \<Rightarrow> json \<Rightarrow> string \<Rightarrow> server \<Rightarrow> server" where
  "send_notification env m params sid s =
     (if \<not> sv_transport s \<or> sv_stopping s then s
      else snd (transport_send env (if sid = [] then Broadcast else ToSession sid)
        (serialize_notification \<lparr>notif_method = m, notif_params = (if is_null params then None else Some params)\<rparr>) s))"

definition notify_tools_list_changed :: "server_env \<Rightarrow> server \<Rightarrow> server" where
  "notify_tools_list_changed env s = send_notification env NOTIF_TOOLS_LIST_CHANGED JNull [] (invalidate_list_cache s)"

definition notify_resources_list_changed :: "server_env \<Rightarrow> server \<Rightarrow> server" where
  "notify_resources_list_changed env s =
     send_notification env NOTIF_RESOURCES_LIST_CHANGED JNull [] (invalidate_list_cache s)"

definition notify_prompts_list_changed :: "server_env \<Rightarrow> server \<Rightarrow> server" where
  "notify_prompts_list_changed env s = send_notification env NOTIF_PROMPTS_LIST_CHANGED JNull [] (invalidate_list_cache s)"

definition subscribers :: "string \<Rightarrow> server \<Rightarrow> string list" where
  "subscribers uri s = map fst (filter (\<lambda>(sid, uris). uri \<in> uris) (sv_subscribed s))"

definition notify_resources_updated :: "server_env \<Rightarrow> string \<Rightarrow> server \<Rightarrow> server" where
  "notify_resources_updated env uri s =
     (let params = jobject [(''uri'', JStr uri)]; targets = subscribers uri s in
      if targets = [] then send_notification env NOTIF_RESOURCES_UPDATED params [] s
      else fold (send_notification env NOTIF_RESOURCES_UPDATED params) targets s)"

definition notify_progress :: "server_env \<Rightarrow> request_id \<Rightarrow> double \<Rightarrow> double option \<Rightarrow> string \<Rightarrow> server \<Rightarrow> server" where
  "notify_progress env tok progress tot sid s =
     send_notification env NOTIF_PROGRESS
       (JObj (oset_opt ''total'' (map_option JFloat tot)
         (omap_of_list [(''progressToken'', request_id_to_json tok), (''progress'', JFloat progress)]))) sid s"

definition notify_logging :: "server_env \<Rightarrow> string \<Rightarrow> string \<Rightarrow> string option \<Rightarrow> string \<Rightarrow> server \<Rightarrow> server" where
  "notify_logging env level data logger sid s =
     send_notification env NOTIF_MESSAGE
       (JObj (oset_opt ''logger'' (map_option JStr logger)
         (omap_of_list [(''level'', JStr level), (''data'', JStr data)]))) sid s"

definition notify_roots_list_changed :: "server_env \<Rightarrow> string \<Rightarrow> server \<Rightarrow> server" where
  "notify_roots_list_changed env sid s = send_notification env NOTIF_ROOTS_LIST_CHANGED (JObj []) sid s"


section \<open>Requests to the client\<close>

definition send_server_request ::
    "server_env \<Rightarrow> string \<Rightarrow> json \<Rightarrow> result_kind \<Rightarrow> bool \<Rightarrow> bool \<Rightarrow> string \<Rightarrow> server \<Rightarrow> bool \<times> server" where
  "send_server_request env m params kind on_result on_error sid s =
     (if \<not> sv_transport s \<or> \<not> sv_running s then (False, s)
      else
        let rid = sv_next_outbound s;
            s1 = s\<lparr>sv_next_outbound := rid + 1,
                   sv_outbound := oset rid \<lparr>ob_method = m, ob_session = sid, ob_kind = kind,
                     ob_on_result = on_result, ob_on_error = on_error\<rparr> (sv_outbound s)\<rparr>
        in case transport_send env (ToSession sid)
             (serialize_request \<lparr>req_id = IntId rid, req_method = m, req_params = Some params\<rparr>) s1 of
             (None, s2) \<Rightarrow> (True, s2)
           | (Some e, s2) \<Rightarrow>
               (False, slog ''error'' (''Failed to send server request: '' @ exn_what (se_what env) e)
                         (s2\<lparr>sv_outbound := oerase rid (sv_outbound s2)\<rparr>)))"

definition call_back :: "server_env \<Rightarrow> server_callback \<Rightarrow> server \<Rightarrow> exn option \<times> server" where
  "call_back env c s = (se_callback env c, s\<lparr>sv_called := sv_called s @ [c]\<rparr>)"

text \<open>The wrapper around the user's result callback: a result that cannot be read is dropped, and
  a \<open>std::exception\<close> of the callback is swallowed here.\<close>

definition deliver_result :: "server_env \<Rightarrow> 64 word \<Rightarrow> result_kind \<Rightarrow> json \<Rightarrow> server \<Rightarrow> exn option \<times> server" where
  "deliver_result env rid kind j s =
     (case (case kind of
              SamplingKind \<Rightarrow> map_sum id (SamplingResult rid) (create_message_result_from_json j)
            | ElicitationKind \<Rightarrow> map_sum id (ElicitationResult rid) (elicit_result_from_json j)
            | RootsKind \<Rightarrow> map_sum id (RootsResult rid) (list_roots_result_from_json j)) of
        Inl e \<Rightarrow> (None, s)
      | Inr c \<Rightarrow>
          (case call_back env c s of
             (Some e, s') \<Rightarrow> (if is_std_exception e then None else Some e, s')
           | (None, s') \<Rightarrow> (None, s')))"

definition log_callback_exn :: "server_env \<Rightarrow> exn option \<times> server \<Rightarrow> server" where
  "log_callback_exn env r =
     (case r of (None, s) \<Rightarrow> s
      | (Some e, s) \<Rightarrow> slog ''error'' (if is_std_exception e
          then ''server-request callback threw: '' @ exn_what (se_what env) e
          else ''server-request callback threw an unknown exception'') s)"

definition deliver_error :: "server_env \<Rightarrow> 64 word \<Rightarrow> bool \<Rightarrow> json \<Rightarrow> server \<Rightarrow> exn option \<times> server" where
  "deliver_error env rid on_error payload s =
     (case (if is_object payload
            then bindE (jvalue get_int payload ''code'' INTERNAL_ERROR) (\<lambda>c.
                 bindE (jvalue get_string payload ''message'' ''client error'') (\<lambda>m. Inr (c, m)))
            else Inr (INTERNAL_ERROR, ''client error'')) of
        Inl e \<Rightarrow> (Some e, s)
      | Inr (c, m) \<Rightarrow> if on_error then call_back env (RequestError rid c m) s else (None, s))"

definition complete_server_request :: "server_env \<Rightarrow> 64 word \<Rightarrow> bool \<Rightarrow> json \<Rightarrow> server \<Rightarrow> server" where
  "complete_server_request env rid ok payload s =
     (case map_of (sv_outbound s) rid of None \<Rightarrow> s
      | Some p \<Rightarrow>
          let s1 = s\<lparr>sv_outbound := oerase rid (sv_outbound s)\<rparr> in
          log_callback_exn env
            (if ok then (if ob_on_result p then deliver_result env rid (ob_kind p) payload s1 else (None, s1))
             else deliver_error env rid (ob_on_error p) payload s1))"

definition on_client_response :: "server_env \<Rightarrow> rpc_success \<Rightarrow> server \<Rightarrow> server" where
  "on_client_response env r s =
     (case ok_id r of IntId n \<Rightarrow> complete_server_request env n True (ok_result r) s | _ \<Rightarrow> s)"

definition on_client_error_response :: "server_env \<Rightarrow> rpc_error \<Rightarrow> server \<Rightarrow> server" where
  "on_client_error_response env r s =
     (case err_id r of
        IntId n \<Rightarrow> complete_server_request env n False
          (error_object (ed_code (err_error r)) (ed_message (err_error r)) (ed_data (err_error r))) s
      | _ \<Rightarrow> s)"

text \<open>The capability gate of the three requests: without a session, an unknown client passes.\<close>

definition client_has :: "(client_capabilities \<Rightarrow> bool) \<Rightarrow> string \<Rightarrow> server \<Rightarrow> bool" where
  "client_has has sid s =
     (case map_of (sv_hellos s) sid of
        None \<Rightarrow> sid = []
      | Some h \<Rightarrow> has (hello_capabilities h))"

definition request_sampling :: "server_env \<Rightarrow> create_message_params \<Rightarrow> bool \<Rightarrow> bool \<Rightarrow> string \<Rightarrow> server \<Rightarrow> bool \<times> server" where
  "request_sampling env p on_result on_error sid s =
     (if \<not> client_has (\<lambda>c. cc_sampling c \<noteq> None) sid s then (False, s)
      else send_server_request env METHOD_SAMPLING_CREATE (create_message_params_to_json p) SamplingKind
             on_result on_error sid s)"

definition request_elicitation :: "server_env \<Rightarrow> elicit_params \<Rightarrow> bool \<Rightarrow> bool \<Rightarrow> string \<Rightarrow> server \<Rightarrow> bool \<times> server" where
  "request_elicitation env p on_result on_error sid s =
     (if \<not> client_has (\<lambda>c. cc_elicitation c \<noteq> None) sid s then (False, s)
      else send_server_request env METHOD_ELICITATION_CREATE (elicit_params_to_json p) ElicitationKind
             on_result on_error sid s)"

definition request_roots :: "server_env \<Rightarrow> bool \<Rightarrow> bool \<Rightarrow> string \<Rightarrow> server \<Rightarrow> bool \<times> server" where
  "request_roots env on_result on_error sid s =
     (if \<not> client_has (\<lambda>c. cc_roots c \<noteq> None) sid s then (False, s)
      else send_server_request env METHOD_ROOTS_LIST (JObj []) RootsKind on_result on_error sid s)"


section \<open>Running a handler\<close>

record request_context =
  ctx_request_id :: request_id
  ctx_progress_token :: request_id
  ctx_session :: string

definition RequestContext :: "request_id \<Rightarrow> string \<Rightarrow> request_context" where
  "RequestContext i sid = \<lparr>ctx_request_id = i, ctx_progress_token = i, ctx_session = sid\<rparr>"

primrec run_prog :: "server_env \<Rightarrow> request_context \<Rightarrow> 'r prog \<Rightarrow> server \<Rightarrow> 'r res \<times> server" where
  "run_prog env ctx (Ret r) s = (Inr r, s)"
| "run_prog env ctx (Throw e) s = (Inl e, s)"
| "run_prog env ctx (ReportProgress p tot k) s =
     run_prog env ctx k (notify_progress env (ctx_progress_token ctx) p tot (ctx_session ctx) s)"
| "run_prog env ctx (CtxLog level data logger k) s =
     run_prog env ctx k (notify_logging env level data logger (ctx_session ctx) s)"
| "run_prog env ctx (SetProgressToken tok k) s = run_prog env (ctx\<lparr>ctx_progress_token := tok\<rparr>) k s"
| "run_prog env ctx (CtxSampling p r e k) s =
     (case request_sampling env p r e (ctx_session ctx) s of (b, s') \<Rightarrow> run_prog env ctx (k b) s')"
| "run_prog env ctx (CtxElicitation p r e k) s =
     (case request_elicitation env p r e (ctx_session ctx) s of (b, s') \<Rightarrow> run_prog env ctx (k b) s')"
| "run_prog env ctx (CtxRoots r e k) s =
     (case request_roots env r e (ctx_session ctx) s of (b, s') \<Rightarrow> run_prog env ctx (k b) s')"



section \<open>List requests\<close>

text \<open>The cursor: its offset, the response to send when it is not a number, or the exception of
  \<open>stoull\<close> when it does not fit.\<close>

definition cursor_offset :: "request_id \<Rightarrow> bool \<Rightarrow> json \<Rightarrow> (json + 64 word) res" where
  "cursor_offset i paginated params =
     (case (if paginated then jget params ''cursor'' else None) of
        Some (JStr cur) \<Rightarrow>
          if cur = [] then Inr (Inr 0)
          else if list_all is_digit cur
            then (if dec_to_nat cur < 2 ^ 64 then Inr (Inr (word_of_nat (dec_to_nat cur))) else Inl (StdEx ''stoull''))
          else Inr (Inl (make_error_response i INVALID_PARAMS ''Invalid cursor'' None))
      | _ \<Rightarrow> Inr (Inr 0))"

text \<open>The page: the range from \<open>min(offset, n)\<close> to \<open>min(offset + page_size, n)\<close>, in \<open>size_t\<close>
  arithmetic. A range whose end lies before its beginning is no range of a vector.\<close>

definition list_page :: "64 word \<Rightarrow> 64 word \<Rightarrow> json list \<Rightarrow> (json list \<times> string option) res" where
  "list_page psize offset items =
     (let n = word_of_nat (length items); fin = min (offset + psize) n; ini = min offset n in
      if fin < ini then Inl UndefinedBehaviour
      else Inr (take (unat fin - unat ini) (drop (unat ini) items),
                if fin < n then Some (nat_to_dec (unat fin)) else None))"

definition handle_list_request ::
    "request_id \<Rightarrow> (list_cache \<Rightarrow> json option) \<Rightarrow> (json \<Rightarrow> list_cache \<Rightarrow> list_cache) \<Rightarrow> string \<Rightarrow> json \<Rightarrow>
     json list res \<Rightarrow> server \<Rightarrow> json res \<times> server" where
  "handle_list_request i get put key params items s =
     (let paginated = sv_page_size s > 0; cacheable = sv_cache_enabled s \<and> sv_frozen s \<and> \<not> paginated in
      case cursor_offset i paginated params of
        Inl e \<Rightarrow> (Inl e, s)
      | Inr (Inl resp) \<Rightarrow> (Inr resp, s)
      | Inr (Inr offset) \<Rightarrow>
          (case (if cacheable then get (sv_cache s) else None) of
             Some r \<Rightarrow> (Inr (make_success_response i r), s)
           | None \<Rightarrow>
               (case items of Inl e \<Rightarrow> (Inl e, s)
                | Inr xs \<Rightarrow>
                    if paginated then
                      (case list_page (sv_page_size s) offset xs of Inl e \<Rightarrow> (Inl e, s)
                       | Inr (page, next) \<Rightarrow>
                           (Inr (make_success_response i
                              (JObj (oset_opt ''nextCursor'' (map_option JStr next) [(key, JArr page)]))), s))
                    else
                      let r = JObj [(key, JArr xs)] in
                      (Inr (make_success_response i r),
                       if cacheable then s\<lparr>sv_cache := put r (sv_cache s)\<rparr> else s))))"

text \<open>The items of a list: from the list handler if there is one, else the registered
  definitions in key order.\<close>

definition list_items :: "('a \<Rightarrow> json) \<Rightarrow> (unit \<Rightarrow> 'a list res) option \<Rightarrow> (string \<times> 'a \<times> 'h) list \<Rightarrow> json list res" where
  "list_items enc lister reg =
     bindE (case lister of Some h \<Rightarrow> h () | None \<Rightarrow> Inr (map (\<lambda>(k, d, h). d) reg)) (\<lambda>xs. Inr (map enc xs))"

definition tool_items :: "handlers \<Rightarrow> json list res" where
  "tool_items h = list_items tool_to_json (h_tool_list h) (h_tools h)"

definition resource_items :: "handlers \<Rightarrow> json list res" where
  "resource_items h = list_items resource_to_json (h_resource_list h) (h_resources h)"

definition template_list_items :: "handlers \<Rightarrow> json list res" where
  "template_list_items h = list_items resource_template_to_json (h_template_list h) (h_templates h)"

definition prompt_items :: "handlers \<Rightarrow> json list res" where
  "prompt_items h = list_items prompt_to_json (h_prompt_list h) (h_prompts h)"

definition handle_tools_list :: "request_id \<Rightarrow> json \<Rightarrow> server \<Rightarrow> json res \<times> server" where
  "handle_tools_list i params s =
     handle_list_request i lc_tools (\<lambda>r c. c\<lparr>lc_tools := Some r\<rparr>) ''tools'' params (tool_items (active_handlers s)) s"

definition handle_resources_list :: "request_id \<Rightarrow> json \<Rightarrow> server \<Rightarrow> json res \<times> server" where
  "handle_resources_list i params s =
     handle_list_request i lc_resources (\<lambda>r c. c\<lparr>lc_resources := Some r\<rparr>) ''resources'' params
       (resource_items (active_handlers s)) s"

definition handle_resources_templates_list :: "request_id \<Rightarrow> json \<Rightarrow> server \<Rightarrow> json res \<times> server" where
  "handle_resources_templates_list i params s =
     handle_list_request i lc_templates (\<lambda>r c. c\<lparr>lc_templates := Some r\<rparr>) ''resourceTemplates'' params
       (template_list_items (active_handlers s)) s"

definition handle_prompts_list :: "request_id \<Rightarrow> json \<Rightarrow> server \<Rightarrow> json res \<times> server" where
  "handle_prompts_list i params s =
     handle_list_request i lc_prompts (\<lambda>r c. c\<lparr>lc_prompts := Some r\<rparr>) ''prompts'' params
       (prompt_items (active_handlers s)) s"


section \<open>The other requests\<close>

definition reply :: "request_id \<Rightarrow> json \<Rightarrow> server \<Rightarrow> json res \<times> server" where
  "reply i r s = (Inr (make_success_response i r), s)"

definition refuse :: "request_id \<Rightarrow> int \<Rightarrow> string \<Rightarrow> server \<Rightarrow> json res \<times> server" where
  "refuse i c m s = (Inr (make_error_response i c m None), s)"

text \<open>A handler's result, wrapped into the response.\<close>

definition finish_call :: "request_id \<Rightarrow> ('r \<Rightarrow> json) \<Rightarrow> 'r res \<times> server \<Rightarrow> json res \<times> server" where
  "finish_call i enc r = (case r of (Inl e, s) \<Rightarrow> (Inl e, s) | (Inr x, s) \<Rightarrow> reply i (enc x) s)"

definition arguments_of :: "json \<Rightarrow> json" where
  "arguments_of params = (case jget params ''arguments'' of Some (JObj m) \<Rightarrow> JObj m | _ \<Rightarrow> JObj [])"

definition progress_token_of :: "request_id \<Rightarrow> json \<Rightarrow> request_id" where
  "progress_token_of i params =
     (case jget params ''_meta'' of
        Some (JObj m) \<Rightarrow>
          (case map_of m ''progressToken'' of
             None \<Rightarrow> i
           | Some t \<Rightarrow> if is_null t then i
                       else (case request_id_from_json t of Inr tok \<Rightarrow> tok | Inl _ \<Rightarrow> i))
      | _ \<Rightarrow> i)"

definition handle_tools_call :: "server_env \<Rightarrow> request_id \<Rightarrow> json \<Rightarrow> string \<Rightarrow> server \<Rightarrow> json res \<times> server" where
  "handle_tools_call env i params sid s =
     (case get_string_param params ''name'' of Inl err \<Rightarrow> refuse i INVALID_PARAMS err s
      | Inr name \<Rightarrow>
          (case map_of (h_tools (active_handlers s)) name of
             None \<Rightarrow> refuse i METHOD_NOT_FOUND (''Tool not found: '' @ name) s
           | Some (d, h) \<Rightarrow>
               let args = arguments_of params;
                   verr = (if is_object (tool_input_schema d) then schema_validate args (tool_input_schema d) [] else [])
               in if verr \<noteq> []
                  then refuse i INVALID_PARAMS (''Invalid arguments for tool '' @ quoted name @ '': '' @ verr) s
                  else finish_call i call_tool_result_to_json
                    (run_prog env ((RequestContext i sid)\<lparr>ctx_progress_token := progress_token_of i params\<rparr>) (h args) s)))"

definition find_template ::
    "(string \<times> resource_template \<times> (string \<Rightarrow> (string \<times> string) list \<Rightarrow> read_resource_result prog)) list \<Rightarrow> string \<Rightarrow>
     read_resource_result prog option" where
  "find_template reg uri =
     first_some (\<lambda>(tpl, d, h). map_option (h uri) (match_template tpl uri)) reg"

definition handle_resources_read :: "server_env \<Rightarrow> request_id \<Rightarrow> json \<Rightarrow> string \<Rightarrow> server \<Rightarrow> json res \<times> server" where
  "handle_resources_read env i params sid s =
     (case get_string_param params ''uri'' of Inl err \<Rightarrow> refuse i INVALID_PARAMS err s
      | Inr uri \<Rightarrow>
          (case map_of (h_resources (active_handlers s)) uri of
             Some (d, h) \<Rightarrow> finish_call i read_resource_result_to_json (run_prog env (RequestContext i sid) (h uri) s)
           | None \<Rightarrow>
               (case find_template (h_templates (active_handlers s)) uri of
                  Some p \<Rightarrow> finish_call i read_resource_result_to_json (run_prog env (RequestContext i sid) p s)
                | None \<Rightarrow> refuse i METHOD_NOT_FOUND (''Resource not found: '' @ uri) s)))"

definition handle_resources_subscribe :: "request_id \<Rightarrow> json \<Rightarrow> string \<Rightarrow> server \<Rightarrow> json res \<times> server" where
  "handle_resources_subscribe i params sid s =
     (if (case sc_resources (sv_caps s) of None \<Rightarrow> True | Some r \<Rightarrow> rcap_subscribe r = None)
      then refuse i METHOD_NOT_FOUND ''Resource subscriptions not supported'' s
      else case get_string_param params ''uri'' of Inl err \<Rightarrow> refuse i INVALID_PARAMS err s
      | Inr uri \<Rightarrow>
          reply i (JObj []) (s\<lparr>sv_subscribed :=
            oset sid (insert uri (case map_of (sv_subscribed s) sid of None \<Rightarrow> {} | Some us \<Rightarrow> us)) (sv_subscribed s)\<rparr>))"

definition handle_resources_unsubscribe :: "request_id \<Rightarrow> json \<Rightarrow> string \<Rightarrow> server \<Rightarrow> json res \<times> server" where
  "handle_resources_unsubscribe i params sid s =
     (case get_string_param params ''uri'' of Inl err \<Rightarrow> refuse i INVALID_PARAMS err s
      | Inr uri \<Rightarrow>
          reply i (JObj [])
            (case map_of (sv_subscribed s) sid of None \<Rightarrow> s
             | Some us \<Rightarrow> s\<lparr>sv_subscribed := oset sid (us - {uri}) (sv_subscribed s)\<rparr>))"

definition missing_argument :: "prompt \<Rightarrow> json \<Rightarrow> string option" where
  "missing_argument d args =
     (case prompt_arguments d of None \<Rightarrow> None
      | Some as \<Rightarrow> map_option pa_name
          (List.find (\<lambda>a. pa_required a \<noteq> None \<and> (case jget args (pa_name a) of None \<Rightarrow> True | Some v \<Rightarrow> is_null v)) as))"

definition handle_prompts_get :: "server_env \<Rightarrow> request_id \<Rightarrow> json \<Rightarrow> string \<Rightarrow> server \<Rightarrow> json res \<times> server" where
  "handle_prompts_get env i params sid s =
     (case get_string_param params ''name'' of Inl err \<Rightarrow> refuse i INVALID_PARAMS err s
      | Inr name \<Rightarrow>
          (case map_of (h_prompts (active_handlers s)) name of
             None \<Rightarrow> refuse i METHOD_NOT_FOUND (''Prompt not found: '' @ name) s
           | Some (d, h) \<Rightarrow>
               let args = arguments_of params in
               case missing_argument d args of
                 Some a \<Rightarrow> refuse i INVALID_PARAMS
                   (''Missing required argument '' @ quoted a @ '' for prompt '' @ quoted name) s
               | None \<Rightarrow> finish_call i get_prompt_result_to_json (run_prog env (RequestContext i sid) (h name args) s)))"

definition string_member :: "json option \<Rightarrow> string \<Rightarrow> string" where
  "string_member j k =
     (case j of Some (JObj m) \<Rightarrow> (case map_of m k of Some (JStr x) \<Rightarrow> x | _ \<Rightarrow> []) | _ \<Rightarrow> [])"

definition handle_completion_complete :: "request_id \<Rightarrow> json \<Rightarrow> server \<Rightarrow> json res \<times> server" where
  "handle_completion_complete i params s =
     (case h_completion (active_handlers s) of
        None \<Rightarrow> refuse i METHOD_NOT_FOUND ''Completions not supported'' s
      | Some h \<Rightarrow>
          finish_call i complete_result_to_json
            (h \<lparr>cref_type = string_member (jget params ''ref'') ''type'', cref_name = string_member (jget params ''ref'') ''name''\<rparr>
               \<lparr>carg_name = string_member (jget params ''argument'') ''name'',
                carg_value = string_member (jget params ''argument'') ''value''\<rparr>, s))"

definition handle_logging_set_level :: "request_id \<Rightarrow> json \<Rightarrow> server \<Rightarrow> json res \<times> server" where
  "handle_logging_set_level i params s =
     (case get_string_param params ''level'' of Inl err \<Rightarrow> refuse i INVALID_PARAMS err s
      | Inr level \<Rightarrow>
          if level \<notin> set valid_log_levels then refuse i INVALID_PARAMS (''Invalid log level: '' @ level) s
          else case h_logging_level (active_handlers s) of
            None \<Rightarrow> reply i (JObj []) s
          | Some h \<Rightarrow> (case h level of None \<Rightarrow> reply i (JObj []) s | Some e \<Rightarrow> (Inl e, s)))"

definition handle_ping :: "request_id \<Rightarrow> server \<Rightarrow> json res \<times> server" where
  "handle_ping i s = reply i (JObj []) s"


section \<open>Initialisation and dispatch\<close>

text \<open>When reading the capabilities throws, the members read before it stay.\<close>

definition client_hello_of :: "json \<Rightarrow> client_hello" where
  "client_hello_of params =
     (let version = (case jget params ''protocolVersion'' of Some (JStr v) \<Rightarrow> v | _ \<Rightarrow> []) in
      case jget params ''capabilities'' of
        Some (JObj m) \<Rightarrow>
          (case client_capabilities_from_json (JObj m) of
             Inr c \<Rightarrow> \<lparr>hello_capabilities = c, hello_protocol_version = version\<rparr>
           | Inl e \<Rightarrow> \<lparr>hello_capabilities = empty_client_capabilities
                 \<lparr>cc_sampling := (if jcontains (JObj m) ''sampling'' then Some () else None),
                  cc_elicitation := (if jcontains (JObj m) ''elicitation'' then Some () else None)\<rparr>,
               hello_protocol_version = []\<rparr>)
      | _ \<Rightarrow> \<lparr>hello_capabilities = empty_client_capabilities, hello_protocol_version = version\<rparr>)"

definition record_client_hello :: "json \<Rightarrow> string \<Rightarrow> server \<Rightarrow> server" where
  "record_client_hello params sid s = s\<lparr>sv_hellos := oset sid (client_hello_of params) (sv_hellos s)\<rparr>"

definition negotiate :: "json \<Rightarrow> string" where
  "negotiate params =
     (let requested = (case jget params ''protocolVersion'' of Some (JStr v) \<Rightarrow> v | _ \<Rightarrow> []) in
      if is_supported_version requested then requested else DEFAULT_NEGOTIATED_VERSION)"

definition handle_initialize :: "request_id \<Rightarrow> json \<Rightarrow> string \<Rightarrow> server \<Rightarrow> json res \<times> server" where
  "handle_initialize i params sid s =
     (let negotiated = negotiate params;
          s1 = (record_client_hello params sid s)\<lparr>sv_negotiated := negotiated\<rparr>
      in case h_initialize (active_handlers s) of
           Some h \<Rightarrow>
             (case h params of Inl e \<Rightarrow> (Inl e, s1)
              | Inr r \<Rightarrow> reply i (initialize_result_to_json
                  (if ir_protocol_version r = [] then r\<lparr>ir_protocol_version := negotiated\<rparr> else r)) s1)
         | None \<Rightarrow>
             reply i (initialize_result_to_json
               \<lparr>ir_protocol_version = negotiated, ir_capabilities = sv_caps s, ir_server_info = sv_info s,
                ir_instructions = None\<rparr>) s1)"

definition dispatch_method :: "server_env \<Rightarrow> string \<Rightarrow> request_id \<Rightarrow> json option \<Rightarrow> string \<Rightarrow> server \<Rightarrow> json res \<times> server" where
  "dispatch_method env m i params sid s =
     (let p = (case params of None \<Rightarrow> JObj [] | Some j \<Rightarrow> j) in
      if m = METHOD_INITIALIZE then handle_initialize i p sid s
      else if m = METHOD_PING then handle_ping i s
      else if \<not> sv_initialized s
        then refuse i SERVER_NOT_INITIALIZED ''Server not initialized. Send initialize request first.'' s
      else if m = METHOD_TOOLS_LIST then handle_tools_list i p s
      else if m = METHOD_TOOLS_CALL then handle_tools_call env i p sid s
      else if m = METHOD_RESOURCES_LIST then handle_resources_list i p s
      else if m = METHOD_RESOURCES_READ then handle_resources_read env i p sid s
      else if m = METHOD_RESOURCES_SUBSCRIBE then handle_resources_subscribe i p sid s
      else if m = METHOD_RESOURCES_UNSUBSCRIBE then handle_resources_unsubscribe i p sid s
      else if m = METHOD_RESOURCES_TEMPLATE_LIST then handle_resources_templates_list i p s
      else if m = METHOD_PROMPTS_LIST then handle_prompts_list i p s
      else if m = METHOD_PROMPTS_GET then handle_prompts_get env i p sid s
      else if m = METHOD_COMPLETION_COMPLETE then handle_completion_complete i p s
      else if m = METHOD_LOGGING_SET_LEVEL then handle_logging_set_level i p s
      else refuse i METHOD_NOT_FOUND (''Method not found: '' @ m) s)"

text \<open>The three \<open>catch\<close> clauses; undefined behaviour is caught by none.\<close>

definition exn_response :: "server_env \<Rightarrow> request_id \<Rightarrow> exn \<Rightarrow> json res" where
  "exn_response env i e =
     (case e of
        McpEx c m d \<Rightarrow> Inr (make_error_response i c m d)
      | UndefinedBehaviour \<Rightarrow> Inl UndefinedBehaviour
      | _ \<Rightarrow> Inr (make_error_response i INTERNAL_ERROR
               (if is_std_exception e then exn_what (se_what env) e else ''Unknown error'') None))"

definition process_request :: "server_env \<Rightarrow> rpc_request \<Rightarrow> string \<Rightarrow> server \<Rightarrow> json res \<times> server" where
  "process_request env r sid s =
     (case dispatch_method env (req_method r) (req_id r) (req_params r) sid s of
        (Inr j, s') \<Rightarrow> (Inr j, s')
      | (Inl e, s') \<Rightarrow> (exn_response env (req_id r) e, s'))"

definition cancelled_id :: "server_env \<Rightarrow> json option \<Rightarrow> string" where
  "cancelled_id env params =
     (case params of
        Some (JObj m) \<Rightarrow>
          (case map_of m ''requestId'' of
             None \<Rightarrow> ''<unknown>''
           | Some j \<Rightarrow> (case se_dump env j of Inl _ \<Rightarrow> ''<unknown>'' | Inr t \<Rightarrow> t))
      | _ \<Rightarrow> ''<unknown>'')"

definition process_notification :: "server_env \<Rightarrow> rpc_notification \<Rightarrow> server \<Rightarrow> server" where
  "process_notification env n s =
     (if notif_method n = NOTIF_INITIALIZED then s\<lparr>sv_initialized := True\<rparr>
      else if notif_method n = NOTIF_CANCELLED
        then slog ''info'' (''Received cancellation notification for requestId '' @ cancelled_id env (notif_params n)) s
      else s)"

definition respond :: "nat option \<Rightarrow> json \<Rightarrow> server \<Rightarrow> server" where
  "respond sink j s = (case sink of None \<Rightarrow> s | Some k \<Rightarrow> s\<lparr>sv_responses := sv_responses s @ [(k, j)]\<rparr>)"

text \<open>\<open>batch\<close> is the thread's batch flag. The exception, if any, is what leaves \<open>on_message\<close>.\<close>

definition on_message :: "server_env \<Rightarrow> bool \<Rightarrow> json \<Rightarrow> nat option \<Rightarrow> string \<Rightarrow> server \<Rightarrow> server \<times> exn option" where
  "on_message env batch msg sink sid s =
     (case parse_message (se_what env) msg of
        PRequest r \<Rightarrow>
          if sv_executor s \<and> \<not> batch \<and> is_deferrable (req_method r)
          then (s\<lparr>sv_jobs := sv_jobs s @ [\<lparr>df_request = r, df_sink = sink, df_session = sid\<rparr>]\<rparr>, None)
          else (case process_request env r sid s of
                  (Inr j, s') \<Rightarrow> (respond sink j s', None)
                | (Inl e, s') \<Rightarrow> (s', Some e))
      | PNotification n \<Rightarrow> (process_notification env n s, None)
      | PSuccess k \<Rightarrow> (on_client_response env k s, None)
      | PError k \<Rightarrow>
          (case err_id k of
             IntId n \<Rightarrow>
               if ohas (sv_outbound s) n then (on_client_error_response env k s, None)
               else (respond sink (make_error_response (err_id k) (ed_code (err_error k))
                       (ed_message (err_error k)) (ed_data (err_error k))) s, None)
           | _ \<Rightarrow> (respond sink (make_error_response (err_id k) (ed_code (err_error k))
                       (ed_message (err_error k)) (ed_data (err_error k))) s, None)))"

text \<open>A worker runs the first deferred request and posts its response; the I/O thread delivers
  the first posted response.\<close>

definition run_job :: "server_env \<Rightarrow> server \<Rightarrow> server" where
  "run_job env s =
     (case sv_jobs s of [] \<Rightarrow> s
      | d # ds \<Rightarrow>
          (case process_request env (df_request d) (df_session d) (s\<lparr>sv_jobs := ds\<rparr>) of
             (Inr j, s') \<Rightarrow> s'\<lparr>sv_posted := sv_posted s' @ [(df_sink d, j)]\<rparr>
           | (Inl e, s') \<Rightarrow> s'))"

definition run_posted :: "server \<Rightarrow> server" where
  "run_posted s = (case sv_posted s of [] \<Rightarrow> s | (k, j) # ps \<Rightarrow> respond k j (s\<lparr>sv_posted := ps\<rparr>))"

end
