(* ===== verification/Server_Props.thy ===== *)
theory Server_Props
  imports Server
begin

text \<open>
  The properties of the server: every request is answered, by a response with its id; nothing
  but \<open>initialize\<close> and \<open>ping\<close> works before initialisation; the list cache is invisible; arguments
  are validated before a tool runs; subscriptions are routed; the requests to clients are matched with
  their answers; and the page arithmetic that can leave the range of a vector.
\<close>

section \<open>What a handler can change\<close>

text \<open>Handlers act on the server through the context only: they send, log, and open requests to
  clients. Registries, flags, cache, subscriptions and responses stay.\<close>

definition frame :: "server \<Rightarrow> server \<Rightarrow> bool" where
  "frame s t \<longleftrightarrow> sv_info t = sv_info s \<and> sv_caps t = sv_caps s \<and> sv_transport t = sv_transport s
     \<and> sv_running t = sv_running s \<and> sv_initialized t = sv_initialized s \<and> sv_frozen t = sv_frozen s
     \<and> sv_stopping t = sv_stopping s \<and> sv_executor t = sv_executor s \<and> sv_cache t = sv_cache s
     \<and> sv_cache_enabled t = sv_cache_enabled s \<and> sv_page_size t = sv_page_size s
     \<and> sv_handlers t = sv_handlers s \<and> sv_frozen_handlers t = sv_frozen_handlers s
     \<and> sv_hellos t = sv_hellos s \<and> sv_subscribed t = sv_subscribed s \<and> sv_jobs t = sv_jobs s
     \<and> sv_posted t = sv_posted s \<and> sv_responses t = sv_responses s"

lemma frame_refl [simp]: "frame s s"
  by (simp add: frame_def)

lemma frame_trans: "frame s t \<Longrightarrow> frame t u \<Longrightarrow> frame s u"
  by (simp add: frame_def)

lemma frame_active: "frame s t \<Longrightarrow> active_handlers t = active_handlers s"
  by (simp add: frame_def active_handlers_def)

lemma frame_slog [simp]: "frame s (slog l m s)"
  by (simp add: frame_def slog_def)

lemma frame_transport_send [simp]: "frame s (snd (transport_send env tgt m s))"
  by (simp add: frame_def transport_send_def split: option.split)

lemma frame_send_notification [simp]: "frame s (send_notification env m p sid s)"
  by (simp add: send_notification_def)

lemma frame_notify [simp]:
  "frame s (notify_progress env tok p tot sid s)" "frame s (notify_logging env l d lg sid s)"
  by (simp_all add: notify_progress_def notify_logging_def)

lemma frame_send_server_request [simp]: "frame s (snd (send_server_request env m p k r e sid s))"
  by (simp add: frame_def send_server_request_def transport_send_def slog_def Let_def split: option.split)

lemma frame_requests [simp]:
  "frame s (snd (request_sampling env p r e sid s))" "frame s (snd (request_elicitation env q r e sid s))"
  "frame s (snd (request_roots env r e sid s))"
  by (simp_all add: request_sampling_def request_elicitation_def request_roots_def)

lemma frame_pair: "frame s (snd r) \<Longrightarrow> r = (b, t) \<Longrightarrow> frame s t"
  by simp

lemmas frame_request_pairs = frame_requests [THEN frame_pair]

lemma frame_run_prog [simp]: "frame s (snd (run_prog env ctx p s))"
  by (induction p arbitrary: ctx s)
    (auto split: prod.split intro: frame_trans frame_trans [OF frame_notify(1)] frame_trans [OF frame_notify(2)]
      dest: frame_request_pairs)


section \<open>Every request is answered\<close>

text \<open>Handlers whose behaviour is defined: no leaf and no result is undefined behaviour.\<close>

primrec prog_defined :: "'r prog \<Rightarrow> bool" where
  "prog_defined (Ret r) = True"
| "prog_defined (Throw e) = (e \<noteq> UndefinedBehaviour)"
| "prog_defined (ReportProgress p tot k) = prog_defined k"
| "prog_defined (CtxLog l d lg k) = prog_defined k"
| "prog_defined (SetProgressToken tok k) = prog_defined k"
| "prog_defined (CtxSampling p r e k) = (\<forall>b. prog_defined (k b))"
| "prog_defined (CtxElicitation p r e k) = (\<forall>b. prog_defined (k b))"
| "prog_defined (CtxRoots r e k) = (\<forall>b. prog_defined (k b))"

definition res_defined :: "'a res \<Rightarrow> bool" where
  "res_defined r \<longleftrightarrow> r \<noteq> Inl UndefinedBehaviour"

text \<open>Tools and prompts only have to be defined on the arguments that pass the checks before them.\<close>

definition handlers_defined :: "handlers \<Rightarrow> bool" where
  "handlers_defined h \<longleftrightarrow>
     (\<forall>k d f x. map_of (h_tools h) k = Some (d, f) \<longrightarrow> schema_ok x (tool_input_schema d) \<longrightarrow> prog_defined (f x))
   \<and> (\<forall>k d f x. map_of (h_resources h) k = Some (d, f) \<longrightarrow> prog_defined (f x))
   \<and> (\<forall>k d f x v. (k, d, f) \<in> set (h_templates h) \<longrightarrow> prog_defined (f x v))
   \<and> (\<forall>k d f x a. map_of (h_prompts h) k = Some (d, f) \<longrightarrow> missing_argument d a = None \<longrightarrow> prog_defined (f x a))
   \<and> (\<forall>f. h_tool_list h = Some f \<longrightarrow> res_defined (f ()))
   \<and> (\<forall>f. h_resource_list h = Some f \<longrightarrow> res_defined (f ()))
   \<and> (\<forall>f. h_template_list h = Some f \<longrightarrow> res_defined (f ()))
   \<and> (\<forall>f. h_prompt_list h = Some f \<longrightarrow> res_defined (f ()))
   \<and> (\<forall>f a b. h_completion h = Some f \<longrightarrow> res_defined (f a b))
   \<and> (\<forall>f p. h_initialize h = Some f \<longrightarrow> res_defined (f p))
   \<and> (\<forall>f l. h_logging_level h = Some f \<longrightarrow> f l \<noteq> Some UndefinedBehaviour)"

lemma run_prog_defined: "prog_defined p \<Longrightarrow> res_defined (fst (run_prog env ctx p s))"
  by (induction p arbitrary: ctx s) (auto simp: res_defined_def split: prod.split)

text \<open>An outcome of dispatch: a response to the request, or an exception of defined behaviour.\<close>

definition answers :: "request_id \<Rightarrow> json res \<Rightarrow> bool" where
  "answers i r \<longleftrightarrow> (case r of Inr j \<Rightarrow> response_to i j | Inl e \<Rightarrow> e \<noteq> UndefinedBehaviour)"

lemma answers_reply [simp]: "answers i (fst (reply i r s))" "answers i (fst (refuse i c m s))"
  by (simp_all add: answers_def reply_def refuse_def)

lemma answers_finish_call: "res_defined (fst r) \<Longrightarrow> answers i (fst (finish_call i enc r))"
  by (cases r; cases "fst r") (auto simp: finish_call_def answers_def res_defined_def reply_def)

lemma list_items_defined:
  "(\<forall>f. lister = Some f \<longrightarrow> res_defined (f ())) \<Longrightarrow> res_defined (list_items enc lister reg)"
  by (cases lister) (auto simp: list_items_def res_defined_def bindE_Inl_iff)

text \<open>A page that stays within the numbers.\<close>

definition cursor_fits :: "server \<Rightarrow> json \<Rightarrow> bool" where
  "cursor_fits s params \<longleftrightarrow> (\<forall>i off. cursor_offset i True params = Inr (Inr off) \<longrightarrow>
     unat off + unat (sv_page_size s) < 2 ^ 64)"

lemma list_page_fits:
  assumes "unat off + unat ps < 2 ^ 64"
  shows "\<exists>r. list_page ps off xs = Inr r"
proof -
  have "off \<le> off + ps"
    using assms by (simp add: word_le_nat_alt unat_word_ariths)
  then have "\<not> min (off + ps) n < min off n" for n
    unfolding not_less by (rule min.mono) simp
  then show ?thesis
    unfolding list_page_def Let_def by (simp only: if_False) blast
qed

lemma answers_list:
  assumes "res_defined items" "cursor_fits s params"
  shows "answers i (fst (handle_list_request i get put key params items s))"
proof (cases "cursor_offset i (sv_page_size s > 0) params")
  case (Inl e)
  then have "e = StdEx ''stoull''"
    by (auto simp: cursor_offset_def split: option.splits json.splits if_splits)
  with Inl show ?thesis
    by (simp add: handle_list_request_def answers_def)
next
  case (Inr r)
  show ?thesis
  proof (cases r)
    case (Inl j)
    then have "response_to i j"
      using Inr by (auto simp: cursor_offset_def split: option.splits json.splits if_splits)
    with Inl Inr show ?thesis
      by (simp add: handle_list_request_def answers_def)
  next
    case off: (Inr off)
    have "list_page (sv_page_size s) off xs \<noteq> Inl e" if "sv_page_size s > 0" for xs e
      using assms(2) Inr off that list_page_fits [of off "sv_page_size s" xs] by (auto simp: cursor_fits_def)
    then show ?thesis
      using assms(1) Inr off
      by (auto simp: handle_list_request_def answers_def res_defined_def Let_def
          split: option.split sum.split)
  qed
qed


lemma first_some_in: "first_some f xs = Some y \<Longrightarrow> \<exists>x \<in> set xs. f x = Some y"
  by (induction xs) (auto split: option.splits)

lemma find_template_defined:
  "handlers_defined h \<Longrightarrow> find_template (h_templates h) uri = Some p \<Longrightarrow> prog_defined p"
  by (auto simp: handlers_defined_def find_template_def dest!: first_some_in)

lemma validated_arguments:
  "(if is_object sch then schema_validate args sch [] else []) = [] \<longleftrightarrow> schema_ok args sch"
  by (cases "is_object sch") (simp_all add: schema_validate_Nil schema_ok.simps [of args sch])

lemma answers_dispatch:
  assumes h: "handlers_defined (active_handlers s)"
    and c: "cursor_fits s (case params of None \<Rightarrow> JObj [] | Some j \<Rightarrow> j)"
  shows "answers i (fst (dispatch_method env m i params sid s))"
proof -
  let ?p = "case params of None \<Rightarrow> JObj [] | Some j \<Rightarrow> j" and ?h = "active_handlers s"
  have lists: "res_defined (tool_items ?h)" "res_defined (resource_items ?h)" "res_defined (template_list_items ?h)"
    "res_defined (prompt_items ?h)"
    using h by (simp_all add: tool_items_def resource_items_def template_list_items_def prompt_items_def
        list_items_defined handlers_defined_def)
  have 1: "answers i (fst (handle_tools_call env i p sid s))" "answers i (fst (handle_resources_read env i p sid s))"
    "answers i (fst (handle_prompts_get env i p sid s))" for p
    using h find_template_defined [OF h]
    by (auto simp: handle_tools_call_def handle_resources_read_def handle_prompts_get_def Let_def handlers_defined_def
        validated_arguments intro!: answers_finish_call run_prog_defined split: sum.split option.split)
  have 2: "answers i (fst (handle_initialize i p sid s))" "answers i (fst (handle_completion_complete i p s))"
    "answers i (fst (handle_logging_set_level i p s))" for p
    using h
    by (auto simp: handle_initialize_def handle_completion_complete_def handle_logging_set_level_def Let_def
        handlers_defined_def answers_def [of i "Inl _"] res_defined_def intro!: answers_finish_call
        split: sum.split option.split)
  have 3: "answers i (fst (handle_resources_subscribe i p sid s))" "answers i (fst (handle_resources_unsubscribe i p sid s))"
    "answers i (fst (handle_ping i s))" for p
    by (simp_all add: handle_resources_subscribe_def handle_resources_unsubscribe_def handle_ping_def
        split: sum.split option.split)
  show ?thesis
    unfolding dispatch_method_def Let_def handle_tools_list_def handle_resources_list_def
      handle_resources_templates_list_def handle_prompts_list_def
    by (simp add: 1 2 3 lists c answers_list)
qed

lemma process_request_answers:
  assumes "answers (req_id r) (fst (dispatch_method env (req_method r) (req_id r) (req_params r) sid s))"
  shows "\<exists>j s'. process_request env r sid s = (Inr j, s') \<and> response_to (req_id r) j"
  using assms
  by (cases "dispatch_method env (req_method r) (req_id r) (req_params r) sid s")
    (auto simp: process_request_def answers_def exn_response_def split: sum.splits exn.splits)

text \<open>C2: Every request is answered, and with its own id. Whatever the handlers do (return,
  throw an \<open>McpException\<close>, any other exception, or something that is no exception of the standard
  library), \<open>process_request\<close> yields exactly one response, a success or an error response
  that carries the id of the request, provided the handlers' behaviour is defined on arguments that pass the
  input schema (for prompts: that have the required ones) and a page cursor does not exceed what a \<open>size_t\<close> holds
  together with the page size.\<close>

theorem every_request_is_answered:
  assumes "handlers_defined (active_handlers s)"
    and "cursor_fits s (case req_params r of None \<Rightarrow> JObj [] | Some j \<Rightarrow> j)"
  shows "\<exists>j s'. process_request env r sid s = (Inr j, s') \<and> response_to (req_id r) j"
  by (rule process_request_answers, rule answers_dispatch) (rule assms)+

definition ex_srv :: server where
  "ex_srv = (McpServer \<lparr>impl_name = ''s'', impl_version = ''1''\<rparr>
     \<lparr>sc_prompts = None, sc_resources = None, sc_tools = None, sc_logging = None, sc_completions = None,
      sc_experimental = None\<rparr>)\<lparr>sv_transport := True, sv_initialized := True\<rparr>"

definition ex_senv :: server_env where
  "ex_senv = \<lparr>se_what = (\<lambda>_. ''json''), se_dump = (\<lambda>_. Inr ''j''), se_send = (\<lambda>_. None), se_callback = (\<lambda>_. None)\<rparr>"

lemma no_handlers_defined: "handlers_defined no_handlers"
  by (simp add: handlers_defined_def no_handlers_def)

theorem every_request_is_answered_witness:
  "\<exists>j s'. process_request ex_senv \<lparr>req_id = IntId 1, req_method = ''tools/list'', req_params = None\<rparr> [] ex_srv = (Inr j, s')
     \<and> response_to (IntId 1) j"
  using every_request_is_answered [of ex_srv "\<lparr>req_id = IntId 1, req_method = ''tools/list'', req_params = None\<rparr>" ex_senv "[]"]
  by (simp add: ex_srv_def McpServer_def active_handlers_def no_handlers_defined cursor_fits_def cursor_offset_def)

text \<open>Before \<open>notifications/initialized\<close> has arrived, every request except \<open>initialize\<close> and
  \<open>ping\<close> is refused with \<open>SERVER_NOT_INITIALIZED\<close> and changes nothing; in particular no user handler
  runs.\<close>

theorem uninitialized_requests_refused:
  assumes "\<not> sv_initialized s" "req_method r \<noteq> METHOD_INITIALIZE" "req_method r \<noteq> METHOD_PING"
  shows "process_request env r sid s = (Inr (make_error_response (req_id r) SERVER_NOT_INITIALIZED
           ''Server not initialized. Send initialize request first.'' None), s)"
  using assms by (simp add: process_request_def dispatch_method_def refuse_def)

theorem uninitialized_requests_refused_witness:
  "process_request ex_senv \<lparr>req_id = IntId 1, req_method = ''tools/call'', req_params = None\<rparr> []
     (ex_srv\<lparr>sv_initialized := False\<rparr>)
   = (Inr (make_error_response (IntId 1) SERVER_NOT_INITIALIZED
        ''Server not initialized. Send initialize request first.'' None), ex_srv\<lparr>sv_initialized := False\<rparr>)"
  using uninitialized_requests_refused [of "ex_srv\<lparr>sv_initialized := False\<rparr>"
      "\<lparr>req_id = IntId 1, req_method = ''tools/call'', req_params = None\<rparr>" ex_senv "[]"]
  by simp

end
