(* ===== verification/Server_Run.thy ===== *)
theory Server_Run
  imports Server_Props
begin

text \<open>
  The server as it runs: the step relation of registration, configuration, start and stop,
  incoming messages, deferred jobs and notifications, and the invariant of every reachable state:
  once the server runs, the registries a request sees are those of the moment \<open>run()\<close> was called, and
  what the list cache holds is what the registered handlers would give again.

  A request is handled in one step; \<open>run()\<close> blocks its caller, so it is not called again while the
  server runs, and \<open>stop()\<close> detaches the message handler from the transport.
\<close>

section \<open>Steps\<close>

inductive registration :: "(server \<Rightarrow> server) \<Rightarrow> bool" where
  "registration (register_tool name tdef th)"
| "registration (register_tool_list tlist)"
| "registration (register_resource uri rdef rh)"
| "registration (register_resource_list rlist)"
| "registration (register_resource_template_list rtlist)"
| "registration (register_resource_template tpl rtdef rth)"
| "registration (register_prompt pname pdef ph)"
| "registration (register_prompt_list plist)"
| "registration (register_completion ch)"
| "registration (register_initialize_handler ih)"
| "registration (register_logging_level_handler lh)"

inductive server_step :: "server_env \<Rightarrow> server \<Rightarrow> server \<Rightarrow> bool" for env where
  register: "registration f \<Longrightarrow> server_step env s (f s)"
| connect: "server_step env s (connect_transport s)"
| workers: "server_step env s (set_workers n s)"
| io_threads: "server_step env s (set_io_threads n s)"
| page_size: "server_step env s (set_list_page_size ps s)"
| run: "\<not> sv_running s \<Longrightarrow> server_step env s (run env started s)"
| stop: "server_step env s (stop s)"
| message: "\<not> sv_stopping s \<Longrightarrow> server_step env s (fst (on_message env batch msg sink sid s))"
| job: "server_step env s (run_job env s)"
| posted: "server_step env s (run_posted s)"
| invalidate: "server_step env s (invalidate_list_cache s)"
| tools_changed: "server_step env s (notify_tools_list_changed env s)"
| resources_changed: "server_step env s (notify_resources_list_changed env s)"
| prompts_changed: "server_step env s (notify_prompts_list_changed env s)"
| updated: "server_step env s (notify_resources_updated env uri s)"
| notification: "server_step env s (send_notification env m p sid s)"
| sampling: "server_step env s (snd (request_sampling env cm r e sid s))"
| elicitation: "server_step env s (snd (request_elicitation env ep r e sid s))"
| roots: "server_step env s (snd (request_roots env r e sid s))"

inductive_cases server_stepE: "server_step env s t"

definition server_start :: "server \<Rightarrow> bool" where
  "server_start s \<longleftrightarrow> (\<exists>info caps. s = McpServer info caps)"

section \<open>The invariant\<close>

definition cache_entry :: "string \<Rightarrow> json list res \<Rightarrow> json option \<Rightarrow> bool" where
  "cache_entry key items c \<longleftrightarrow> (\<forall>r. c = Some r \<longrightarrow> (\<exists>xs. items = Inr xs \<and> r = JObj [(key, JArr xs)]))"

definition cache_ok :: "handlers \<Rightarrow> list_cache \<Rightarrow> bool" where
  "cache_ok h c \<longleftrightarrow> cache_entry ''tools'' (tool_items h) (lc_tools c)
     \<and> cache_entry ''resources'' (resource_items h) (lc_resources c)
     \<and> cache_entry ''resourceTemplates'' (template_list_items h) (lc_templates c)
     \<and> cache_entry ''prompts'' (prompt_items h) (lc_prompts c)"

definition sinv :: "server \<Rightarrow> bool" where
  "sinv s \<longleftrightarrow> (\<not> sv_stopping s \<longrightarrow>
     sv_frozen s = sv_running s \<and> (sv_frozen s \<longrightarrow> sv_frozen_handlers s = sv_handlers s)
     \<and> (\<not> sv_frozen s \<longrightarrow> sv_cache s = empty_cache) \<and> cache_ok (sv_handlers s) (sv_cache s))"

lemma cache_ok_empty [simp]: "cache_ok h empty_cache"
  by (simp add: cache_ok_def cache_entry_def empty_cache_def)

lemma sinv_start: "server_start s \<Longrightarrow> sinv s"
  by (auto simp: server_start_def sinv_def McpServer_def)

text \<open>The part of the state the invariant speaks of.\<close>

definition same_core :: "server \<Rightarrow> server \<Rightarrow> bool" where
  "same_core s t \<longleftrightarrow> sv_stopping t = sv_stopping s \<and> sv_frozen t = sv_frozen s \<and> sv_running t = sv_running s
     \<and> sv_frozen_handlers t = sv_frozen_handlers s \<and> sv_handlers t = sv_handlers s \<and> sv_cache t = sv_cache s"

lemma same_core_sinv: "same_core s t \<Longrightarrow> sinv s \<Longrightarrow> sinv t"
  by (simp add: same_core_def sinv_def)

lemma same_core_refl [simp]: "same_core s s"
  by (simp add: same_core_def)

lemma same_core_trans: "same_core s t \<Longrightarrow> same_core t u \<Longrightarrow> same_core s u"
  by (simp add: same_core_def)

lemma frame_same_core: "frame s t \<Longrightarrow> same_core s t"
  by (simp add: frame_def same_core_def)

lemma sinv_invalidate: "sinv s \<Longrightarrow> sinv (invalidate_list_cache s)"
  by (simp add: sinv_def invalidate_list_cache_def)

lemmas register_defs = register_tool_def register_tool_list_def register_resource_def
  register_resource_list_def register_resource_template_list_def register_resource_template_def
  register_prompt_def register_prompt_list_def register_completion_def register_initialize_handler_def
  register_logging_level_handler_def

lemma registering_running:
  "sv_running s \<Longrightarrow> registering f s = slog ''warning'' ''Cannot register handlers after server is running'' s"
  by (simp add: registering_def ensure_pre_run_def)

lemma sinv_registration:
  assumes "registration f" "sinv s"
  shows "sinv (f s)"
  using assms
  by cases (auto simp: sinv_def register_defs registering_def ensure_pre_run_def update_handlers_def
      warn_if_def slog_def)

lemma sinv_run: "sinv s \<Longrightarrow> \<not> sv_running s \<Longrightarrow> sinv (run env started s)"
  by (auto simp: sinv_def run_def slog_def Let_def split: option.split)

lemma same_core_fold_send:
  "same_core s (fold (send_notification env m p) sids s)"
proof (induction sids arbitrary: s)
  case (Cons sid sids)
  show ?case
    using same_core_trans [OF frame_same_core [OF frame_send_notification] Cons] by simp
qed simp

lemma same_core_updated: "same_core s (notify_resources_updated env uri s)"
  by (simp add: notify_resources_updated_def Let_def same_core_fold_send frame_same_core)

section \<open>Requests keep the invariant\<close>

lemma same_core_simple [simp]:
  "same_core s (snd (reply i r s))" "same_core s (snd (refuse i c m s))"
  "same_core s (respond k j s)" "same_core s (process_notification env n s)"
  by (auto simp: reply_def refuse_def respond_def process_notification_def same_core_def slog_def split: option.split)

lemma same_core_finish_call: "same_core s (snd r) \<Longrightarrow> same_core s (snd (finish_call i enc r))"
  by (cases r; cases "fst r") (auto simp: finish_call_def reply_def)

lemma same_core_prog [simp]: "same_core s (snd (finish_call i enc (run_prog env ctx p s)))"
  by (rule same_core_finish_call) (simp add: frame_same_core)

lemma same_core_handlers [simp]:
  "same_core s (snd (handle_tools_call env i p sid s))" "same_core s (snd (handle_resources_read env i p sid s))"
  "same_core s (snd (handle_prompts_get env i p sid s))" "same_core s (snd (handle_logging_set_level i p s))"
  "same_core s (snd (handle_completion_complete i p s))" "same_core s (snd (handle_ping i s))"
  by (simp_all add: handle_tools_call_def handle_resources_read_def handle_prompts_get_def handle_ping_def
      handle_logging_set_level_def handle_completion_complete_def Let_def same_core_finish_call
      split: sum.split option.split)

lemma same_core_subscriptions [simp]:
  "same_core s (snd (handle_resources_subscribe i p sid s))" "same_core s (snd (handle_resources_unsubscribe i p sid s))"
  "same_core s (snd (handle_initialize i p sid s))"
  by (simp_all add: handle_resources_subscribe_def handle_resources_unsubscribe_def handle_initialize_def reply_def
      refuse_def record_client_hello_def same_core_def Let_def split: sum.split option.split)

text \<open>A list request only fills its own entry of the cache, and with what it answers.\<close>

lemma paged_state:
  "snd (case r of Inl e \<Rightarrow> (Inl e, s) | Inr (page, nxt) \<Rightarrow> (Inr (f page nxt), s)) = s"
  by (simp split: sum.split prod.split)

lemma list_request_state:
  "snd (handle_list_request i get put key params items s) = s \<or>
   sv_frozen s \<and> (\<exists>xs. items = Inr xs
     \<and> snd (handle_list_request i get put key params items s) = s\<lparr>sv_cache := put (JObj [(key, JArr xs)]) (sv_cache s)\<rparr>)"
proof (cases "\<exists>off xs. cursor_offset i (sv_page_size s > 0) params = Inr (Inr off) \<and> items = Inr xs")
  case True
  then obtain off xs where *: "cursor_offset i (sv_page_size s > 0) params = Inr (Inr off)" "items = Inr xs"
    by blast
  show ?thesis
  proof (cases "sv_page_size s > 0")
    case True
    with * show ?thesis
      unfolding handle_list_request_def Let_def by (simp add: paged_state)
  next
    case False
    with * show ?thesis
      unfolding handle_list_request_def Let_def by (simp split: option.split)
  qed
next
  case False
  then consider e where "cursor_offset i (sv_page_size s > 0) params = Inl e"
    | j where "cursor_offset i (sv_page_size s > 0) params = Inr (Inl j)"
    | off e where "cursor_offset i (sv_page_size s > 0) params = Inr (Inr off)" "items = Inl e"
    by (metis sum.exhaust)
  then show ?thesis
    by cases (simp_all add: handle_list_request_def Let_def split: option.split)
qed

lemma sinv_list:
  assumes "sinv s"
    and "\<And>xs. items = Inr xs \<Longrightarrow> cache_ok (active_handlers s) (sv_cache s) \<Longrightarrow>
      cache_ok (active_handlers s) (put (JObj [(key, JArr xs)]) (sv_cache s))"
  shows "sinv (snd (handle_list_request i get put key params items s))"
  using list_request_state [of i get put key params items s] assms
  by (auto simp: sinv_def active_handlers_def)

lemma sinv_lists:
  assumes "sinv s"
  shows "sinv (snd (handle_tools_list i p s))" "sinv (snd (handle_resources_list i p s))"
    "sinv (snd (handle_resources_templates_list i p s))" "sinv (snd (handle_prompts_list i p s))"
  unfolding handle_tools_list_def handle_resources_list_def handle_resources_templates_list_def handle_prompts_list_def
  by (rule sinv_list [OF assms], simp add: cache_ok_def cache_entry_def)+

lemma sinv_dispatch:
  assumes "sinv s"
  shows "sinv (snd (dispatch_method env m i params sid s))"
  unfolding dispatch_method_def Let_def
  by (simp add: sinv_lists [OF assms] same_core_sinv [OF _ assms])

lemma sinv_process_request:
  assumes "sinv s" "process_request env r sid s = (x, t)"
  shows "sinv t"
proof -
  have "t = snd (dispatch_method env (req_method r) (req_id r) (req_params r) sid s)"
    using assms(2) by (auto simp: process_request_def split: prod.splits sum.splits)
  with sinv_dispatch [OF assms(1)] show ?thesis by simp
qed

lemma frame_log_callback: "frame s (snd r) \<Longrightarrow> frame s (log_callback_exn env r)"
  by (cases r; cases "fst r") (auto simp: log_callback_exn_def intro: frame_trans)

lemma frame_call_back [simp]: "frame s (snd (call_back env c s))"
  by (simp add: call_back_def frame_def)

lemma frame_deliver [simp]:
  "frame s (snd (deliver_result env rid k j s))" "frame s (snd (deliver_error env rid e j s))"
  by (auto simp: deliver_result_def deliver_error_def call_back_def frame_def split: sum.split option.split)

lemma frame_outbound [simp]: "frame s (s\<lparr>sv_outbound := ob\<rparr>)"
  by (simp add: frame_def)

lemma frame_complete [simp]: "frame s (complete_server_request env rid ok payload s)"
proof (cases "map_of (sv_outbound s) rid")
  case (Some p)
  let ?t = "s\<lparr>sv_outbound := oerase rid (sv_outbound s)\<rparr>"
  have "frame ?t (complete_server_request env rid ok payload s)"
    using Some by (auto simp: complete_server_request_def Let_def intro!: frame_log_callback)
  then show ?thesis by (rule frame_trans [OF frame_outbound])
qed (simp add: complete_server_request_def)

lemma same_core_responses [simp]:
  "same_core s (on_client_response env k s)" "same_core s (on_client_error_response env k' s)"
  by (simp_all add: on_client_response_def on_client_error_response_def frame_same_core split: request_id.split)

lemma sinv_respond: "sinv s \<Longrightarrow> sinv (respond k j s)"
  by (rule same_core_sinv [OF same_core_simple(3)])

lemma sinv_jobs: "sinv s \<Longrightarrow> sinv (s\<lparr>sv_jobs := ds\<rparr>)" "sinv s \<Longrightarrow> sinv (s\<lparr>sv_posted := ps\<rparr>)"
  by (simp_all add: sinv_def)

lemma sinv_on_message:
  assumes "sinv s"
  shows "sinv (fst (on_message env batch msg sink sid s))"
proof (cases "parse_message (se_what env) msg")
  case (PRequest r)
  then show ?thesis
    using assms by (auto simp: on_message_def intro: sinv_process_request sinv_respond sinv_jobs
        split: prod.split sum.split)
qed (auto simp: on_message_def intro: same_core_sinv [OF _ assms] split: request_id.split)

lemma sinv_run_job:
  assumes "sinv s"
  shows "sinv (run_job env s)"
  using assms by (auto simp: run_job_def intro: sinv_process_request sinv_jobs split: list.split prod.split sum.split)

lemma same_core_posted: "same_core s (run_posted s)"
  by (simp add: run_posted_def respond_def same_core_def split: list.split prod.split option.split)

lemma same_core_config:
  "same_core s (connect_transport s)" "same_core s (set_workers n s)" "same_core s (set_io_threads n s)"
  by (simp_all add: connect_transport_def set_workers_def set_io_threads_def same_core_def)

lemma sinv_step:
  assumes "sinv s" "server_step env s t"
  shows "sinv t"
  using assms(2)
proof cases
  case (register f)
  with assms(1) show ?thesis by (simp add: sinv_registration)
next
  case (run started)
  with assms(1) show ?thesis by (simp add: sinv_run)
next
  case (message batch msg sink sid)
  with assms(1) show ?thesis by (simp add: sinv_on_message)
next
  case job
  with assms(1) show ?thesis by (simp add: sinv_run_job)
next
  case stop
  with assms(1) show ?thesis by (simp add: sinv_def Server.stop_def)
next
  case (page_size ps)
  have "same_core s (s\<lparr>sv_page_size := ps\<rparr>)" by (simp add: same_core_def)
  with assms(1) page_size show ?thesis
    by (simp add: set_list_page_size_def sinv_invalidate same_core_sinv)
next
  case tools_changed
  show ?thesis
    unfolding tools_changed notify_tools_list_changed_def
    by (rule same_core_sinv [OF frame_same_core [OF frame_send_notification] sinv_invalidate [OF assms(1)]])
next
  case resources_changed
  show ?thesis
    unfolding resources_changed notify_resources_list_changed_def
    by (rule same_core_sinv [OF frame_same_core [OF frame_send_notification] sinv_invalidate [OF assms(1)]])
next
  case prompts_changed
  show ?thesis
    unfolding prompts_changed notify_prompts_list_changed_def
    by (rule same_core_sinv [OF frame_same_core [OF frame_send_notification] sinv_invalidate [OF assms(1)]])
qed (auto intro!: same_core_sinv [OF _ assms(1)] sinv_invalidate [OF assms(1)] same_core_posted same_core_updated
    same_core_config frame_same_core)

interpretation srv: invariant_system server_start "server_step env" sinv for env
  by unfold_locales (auto intro: sinv_start sinv_step)


section \<open>Properties\<close>

text \<open>What a list request answers when no cache is consulted.\<close>

definition uncached :: "server \<Rightarrow> server" where
  "uncached s = s\<lparr>sv_cache_enabled := False\<rparr>"

lemma uncached_active [simp]: "active_handlers (uncached s) = active_handlers s"
  by (simp add: uncached_def active_handlers_def)

lemma list_transparent:
  assumes "cache_entry key items (get (sv_cache s))"
  shows "fst (handle_list_request i get put key params items s)
       = fst (handle_list_request i get put key params items (uncached s))"
proof (cases "sv_page_size s > 0")
  case True
  then show ?thesis
    unfolding handle_list_request_def Let_def uncached_def
    by (cases "cursor_offset i True params") (auto split: sum.split)
next
  case False
  then have "sv_page_size s = 0" by (simp add: word_greater_zero_iff)
  with assms show ?thesis
    unfolding handle_list_request_def Let_def uncached_def cache_entry_def
    by (auto simp: cursor_offset_def split: option.split sum.split)
qed


definition ex_info :: implementation where
  "ex_info = \<lparr>impl_name = ''s'', impl_version = ''1''\<rparr>"

definition ex_caps :: server_capabilities where
  "ex_caps = \<lparr>sc_prompts = None, sc_resources = Some \<lparr>rcap_subscribe = Some True, rcap_list_changed = None\<rparr>,
     sc_tools = None, sc_logging = None, sc_completions = None, sc_experimental = None\<rparr>"

definition ex_tool :: tool where
  "ex_tool = \<lparr>tool_name = ''t'', tool_title = None, tool_description = None,
     tool_input_schema = JObj [(''required'', JArr [JStr ''x''])], tool_output_schema = None, tool_annots = None\<rparr>"

definition ex_result :: call_tool_result where
  "ex_result = \<lparr>ctr_content = [], ctr_structured_content = None, ctr_is_error = False\<rparr>"

definition ex_running :: server where
  "ex_running = run ex_senv None (connect_transport
     (register_tool ''t'' ex_tool (\<lambda>_. Ret ex_result) (McpServer ex_info ex_caps)))"

lemma ex_running_reachable: "(server_step ex_senv)\<^sup>*\<^sup>* (McpServer ex_info ex_caps) ex_running"
proof -
  let ?s1 = "register_tool ''t'' ex_tool (\<lambda>_. Ret ex_result) (McpServer ex_info ex_caps)"
  have 1: "server_step ex_senv (McpServer ex_info ex_caps) ?s1"
    by (rule server_step.register) (rule registration.intros)
  have 2: "server_step ex_senv ?s1 (connect_transport ?s1)"
    by (rule server_step.connect)
  have 3: "server_step ex_senv (connect_transport ?s1) ex_running"
    unfolding ex_running_def
    by (rule server_step.run)
      (simp add: register_tool_def registering_def ensure_pre_run_def McpServer_def update_handlers_def warn_if_def
        connect_transport_def slog_def)
  from 1 2 3 show ?thesis
    by (meson converse_rtranclp_into_rtranclp r_into_rtranclp)
qed

lemma ex_running_stopping: "\<not> sv_stopping ex_running"
  by (simp add: ex_running_def run_def register_tool_def registering_def ensure_pre_run_def McpServer_def
      update_handlers_def warn_if_def connect_transport_def slog_def Let_def)


end
