(* ===== verification/Server_Calls.thy ===== *)
theory Server_Calls
  imports Server_Run
begin

text \<open>
  What single requests and notifications of the server do: tool calls are validated before their
  handler runs, subscriptions are routed to the sessions that asked for them, the answers of clients
  reach the callbacks of the requests they answer, and a page cursor can leave the range of the
  list.
\<close>

section \<open>Tool calls\<close>

lemma tool_call_cases:
  assumes "get_string_param p ''name'' = Inr name" "map_of (h_tools (active_handlers s)) name = Some (d, h)"
  shows "handle_tools_call env i p sid s =
    (if schema_ok (arguments_of p) (tool_input_schema d)
     then finish_call i call_tool_result_to_json (run_prog env
       ((RequestContext i sid)\<lparr>ctx_progress_token := progress_token_of i p\<rparr>) (h (arguments_of p)) s)
     else refuse i INVALID_PARAMS (''Invalid arguments for tool '' @ quoted name @ '': ''
       @ schema_validate (arguments_of p) (tool_input_schema d) []) s)"
proof -
  have "schema_ok (arguments_of p) (tool_input_schema d)" if "\<not> is_object (tool_input_schema d)"
    using that by (simp add: schema_ok.simps [of "arguments_of p"])
  then show ?thesis
    using assms by (auto simp: handle_tools_call_def Let_def schema_validate_Nil)
qed

text \<open>C7: A tool runs only on arguments that satisfy its input schema. For a registered tool of an
  initialized server, a \<open>tools/call\<close> whose arguments (the object given, or none) satisfy the schema runs
  the handler on exactly these arguments, with the client's progress token, and answers with its
  result, the error it throws, or \<open>INTERNAL_ERROR\<close> for any other exception; otherwise the answer is
  \<open>INVALID_PARAMS\<close>, the handler does not run and the server does not change.\<close>

theorem tool_calls_are_validated:
  assumes "sv_initialized s" "get_string_param p ''name'' = Inr name"
    and "map_of (h_tools (active_handlers s)) name = Some (d, h)"
    and "run_prog env ((RequestContext i sid)\<lparr>ctx_progress_token := progress_token_of i p\<rparr>) (h (arguments_of p)) s = (r, t)"
  shows "process_request env \<lparr>req_id = i, req_method = METHOD_TOOLS_CALL, req_params = Some p\<rparr> sid s =
    (if schema_ok (arguments_of p) (tool_input_schema d)
     then (case r of Inr x \<Rightarrow> Inr (make_success_response i (call_tool_result_to_json x)) | Inl e \<Rightarrow> exn_response env i e, t)
     else (Inr (make_error_response i INVALID_PARAMS (''Invalid arguments for tool '' @ quoted name @ '': ''
       @ schema_validate (arguments_of p) (tool_input_schema d) []) None), s))"
proof -
  have "dispatch_method env METHOD_TOOLS_CALL i (Some p) sid s = handle_tools_call env i p sid s"
    using assms(1) by (simp add: dispatch_method_def)
  then show ?thesis
    using tool_call_cases [OF assms(2,3), of env i sid] assms(4)
    by (simp add: process_request_def finish_call_def reply_def refuse_def split: sum.split)
qed

theorem tool_calls_are_validated_witness:
  "process_request ex_senv \<lparr>req_id = IntId 1, req_method = METHOD_TOOLS_CALL,
       req_params = Some (JObj [(''name'', JStr ''t'')])\<rparr> [] (ex_running\<lparr>sv_initialized := True\<rparr>) =
   (Inr (make_error_response (IntId 1) INVALID_PARAMS (''Invalid arguments for tool '' @ quoted ''t'' @ '': ''
      @ schema_validate (JObj []) (tool_input_schema ex_tool) []) None), ex_running\<lparr>sv_initialized := True\<rparr>)"
proof -
  let ?p = "JObj [(''name'', JStr ''t'')]" and ?s = "ex_running\<lparr>sv_initialized := True\<rparr>"
  have tools: "map_of (h_tools (active_handlers ?s)) ''t'' = Some (ex_tool, \<lambda>_. Ret ex_result)"
    by (simp add: ex_running_def run_def register_tool_def registering_def ensure_pre_run_def McpServer_def
      update_handlers_def warn_if_def connect_transport_def slog_def Let_def active_handlers_def no_handlers_def)
  have "\<not> schema_ok (JObj []) (tool_input_schema ex_tool)"
    by (simp add: schema_ok.simps [of "JObj _"] ex_tool_def)
  then show ?thesis
    using tool_calls_are_validated [of ?s ?p "''t''" ex_tool "\<lambda>_. Ret ex_result" ex_senv "IntId 1" "[]", OF _ _ tools]
    by (simp add: get_string_param_def arguments_of_def jcontains_def)
qed


section \<open>Subscriptions\<close>

text \<open>The abstract state: which session has subscribed to which URI.\<close>

definition subs :: "server \<Rightarrow> (string \<times> string) set" where
  "subs s = {(sid, uri). \<exists>us. map_of (sv_subscribed s) sid = Some us \<and> uri \<in> us}"

definition accepts_subscriptions :: "server \<Rightarrow> bool" where
  "accepts_subscriptions s \<longleftrightarrow> (\<exists>r. sc_resources (sv_caps s) = Some r \<and> rcap_subscribe r \<noteq> None)"

lemma subs_subscribe:
  assumes "accepts_subscriptions s" "get_string_param p ''uri'' = Inr uri"
  shows "subs (snd (handle_resources_subscribe i p sid s)) = insert (sid, uri) (subs s)"
  using assms
  by (auto simp: accepts_subscriptions_def handle_resources_subscribe_def reply_def subs_def map_of_oset
      split: option.splits if_splits)

lemma subs_unsubscribe:
  assumes "get_string_param p ''uri'' = Inr uri"
  shows "subs (snd (handle_resources_unsubscribe i p sid s)) = subs s - {(sid, uri)}"
  using assms
  by (auto simp: handle_resources_unsubscribe_def reply_def subs_def map_of_oset split: option.splits if_splits)

lemma subscribers_sorted:
  assumes "osorted (sv_subscribed s)"
  shows "subscribers uri s = sorted_list_of_set {sid. (sid, uri) \<in> subs s}"
proof -
  let ?xs = "subscribers uri s"
  have d: "distinct (map fst (sv_subscribed s))"
    using assms by (rule osorted_distinct)
  have "set ?xs = {sid. (sid, uri) \<in> subs s}"
    using d by (force simp: subscribers_def subs_def map_of_eq_Some_iff image_iff)
  moreover have "sorted_wrt (<) (map fst (filter P (sv_subscribed s)))" for P
    using assms by (induction "sv_subscribed s" arbitrary: s rule: list.induct)
      (auto simp: osorted_def sorted_wrt_map intro: sorted_wrt_filter)
  then have "sorted ?xs \<and> distinct ?xs"
    unfolding subscribers_def strict_sorted_iff [symmetric] by blast
  ultimately show ?thesis
    by (metis sorted_list_of_set.idem_if_sorted_distinct)
qed

text \<open>Where the notification about a URI goes.\<close>

definition update_targets :: "string set \<Rightarrow> send_target list" where
  "update_targets sids = (if sids = {} then [Broadcast]
     else map (\<lambda>sid. if sid = [] then Broadcast else ToSession sid) (sorted_list_of_set sids))"

definition update_message :: "string \<Rightarrow> json" where
  "update_message uri = serialize_notification
     \<lparr>notif_method = NOTIF_RESOURCES_UPDATED, notif_params = Some (jobject [(''uri'', JStr uri)])\<rparr>"

lemma send_notification_ok:
  assumes "sv_transport s" "\<not> sv_stopping s" "\<And>m. se_send env m = None"
  shows "Server.send_notification env NOTIF_RESOURCES_UPDATED (jobject [(''uri'', JStr uri)]) sid s
    = s\<lparr>sv_sent := sv_sent s @ [(if sid = [] then Broadcast else ToSession sid, update_message uri)]\<rparr>"
  using assms by (simp add: Server.send_notification_def transport_send_def update_message_def jobject_def)

lemma fold_send_ok:
  assumes "\<And>m. se_send env m = None" "sv_transport s" "\<not> sv_stopping s"
  shows "sv_sent (fold (Server.send_notification env NOTIF_RESOURCES_UPDATED (jobject [(''uri'', JStr uri)])) sids s)
    = sv_sent s @ map (\<lambda>sid. (if sid = [] then Broadcast else ToSession sid, update_message uri)) sids"
  using assms(2,3)
proof (induction sids arbitrary: s)
  case (Cons sid sids)
  then show ?case
    by (simp add: send_notification_ok assms(1))
qed simp

lemma notify_updated_sent:
  assumes "\<And>m. se_send env m = None" "sv_transport s" "\<not> sv_stopping s" "osorted (sv_subscribed s)"
  shows "sv_sent (notify_resources_updated env uri s)
    = sv_sent s @ map (\<lambda>tgt. (tgt, update_message uri)) (update_targets {sid. (sid, uri) \<in> subs s})"
proof -
  let ?T = "{sid. (sid, uri) \<in> subs s}"
  have sub: "subscribers uri s = sorted_list_of_set ?T"
    by (rule subscribers_sorted [OF assms(4)])
  have "finite ?T"
    by (rule finite_subset [of _ "dom (map_of (sv_subscribed s))"]) (auto simp: subs_def finite_dom_map_of)
  then have "subscribers uri s = [] \<longleftrightarrow> ?T = {}"
    by (simp add: sub)
  then show ?thesis
    using assms(1-3) sub
    by (simp add: notify_resources_updated_def Let_def send_notification_ok fold_send_ok update_targets_def comp_def)
qed




section \<open>Answers of clients\<close>

lemma answer_success:
  "fst (on_message env batch (make_success_response (IntId n) j) sink sid s) = complete_server_request env n True j s"
  by (simp add: on_message_def parse_server_success on_client_response_def)

lemma answer_error:
  assumes "ohas (sv_outbound s) n"
  shows "fst (on_message env batch (make_error_response (IntId n) c m d) sink sid s)
    = complete_server_request env n False
        (error_object INVALID_REQUEST ''Server received a response message (unexpected)'' None) s"
  using assms by (simp add: on_message_def parse_server_error rpc_error_msg_def on_client_error_response_def)

lemma log_callback_called [simp]:
  "sv_called (log_callback_exn env r) = sv_called (snd r)" "sv_outbound (log_callback_exn env r) = sv_outbound (snd r)"
  by (auto simp: log_callback_exn_def slog_def split: prod.split option.split)

lemma deliver_result_called:
  assumes "create_message_result_ok r"
  shows "sv_called (snd (deliver_result env n SamplingKind (create_message_result_to_json r) s))
      = sv_called s @ [SamplingResult n r]"
    and "sv_outbound (snd (deliver_result env n SamplingKind (create_message_result_to_json r) s)) = sv_outbound s"
  using create_message_result_codec.dec_enc [OF assms]
  by (auto simp: deliver_result_def call_back_def split: option.split)

lemma deliver_error_called:
  assumes "int32_range c"
  shows "deliver_error env n True (error_object c m d) s = call_back env (RequestError n c m) s"
proof -
  have obj: "is_object (error_object c m d)"
    by (simp add: error_object_def)
  show ?thesis
    using error_object_get [of c m d] get_int_code [OF assms] obj
    by (simp add: deliver_error_def error_object_def)
qed

lemma complete_unknown:
  "map_of (sv_outbound s) n = None \<Longrightarrow> complete_server_request env n ok j s = s"
  by (simp add: complete_server_request_def)


definition ex_sampled :: server where
  "ex_sampled = ex_running\<lparr>sv_outbound := [(1, \<lparr>ob_method = METHOD_SAMPLING_CREATE, ob_session = ''a'', ob_kind = SamplingKind,
     ob_on_result = True, ob_on_error = True\<rparr>)]\<rparr>"

definition ex_answer :: create_message_result where
  "ex_answer = \<lparr>cmr_role = ''assistant'', cmr_content = CText \<lparr>tc_type = ''text'', tc_text = ''hi''\<rparr>,
     cmr_model = ''m'', cmr_stop_reason = ''endTurn''\<rparr>"



section \<open>Page cursors\<close>

lemma cursor_roundtrip:
  "cursor_offset i True (JObj [(''cursor'', JStr (nat_to_dec (unat off)))]) = Inr (Inr off)"
proof -
  have "dec_to_nat (nat_to_dec (unat off)) < 2 ^ 64"
    using unsigned_less [of off] by simp
  then show ?thesis
    by (simp add: cursor_offset_def nat_to_dec_digits)
qed

lemma bits64: "LENGTH(64) = 64"
  by simp

lemma mod_once: "(n :: nat) \<le> a \<Longrightarrow> a < n + n \<Longrightarrow> a mod n = a - n"
  by (simp add: le_mod_geq)

lemma list_page_wraps:
  assumes "2 ^ 64 \<le> unat off + unat ps" "unat off + unat ps - 2 ^ 64 < length xs" "length xs < 2 ^ 64"
  shows "list_page ps off xs = Inl UndefinedBehaviour"
proof -
  have small: "unat off < 2 ^ 64" "unat ps < 2 ^ 64"
    using unsigned_less [of off] unsigned_less [of ps] by simp_all
  have s: "unat (off + ps) = unat off + unat ps - 2 ^ 64"
    using mod_once [OF assms(1) add_strict_mono [OF small]] by (simp only: unat_word_ariths bits64)
  have n: "unat (word_of_nat (length xs) :: 64 word) = length xs"
    using assms(3) by (simp add: unat_of_nat)
  have "off + ps < off" "off + ps < word_of_nat (length xs)"
    unfolding word_less_nat_alt s n using assms(1,2) small(2) by linarith+
  then show ?thesis
    by (simp add: list_page_def Let_def min_def less_imp_le)
qed

text \<open>With pagination on, a cursor so large that adding the page size passes the range of
  \<open>size_t\<close> makes \<open>tools/list\<close> build its page from an iterator range whose end lies before its
  beginning, which is undefined behaviour; the cursor is a plain number in the client's request.\<close>

theorem large_cursor_is_undefined:
  fixes off :: "64 word"
  assumes "sv_page_size s > 0" "tool_items (active_handlers s) = Inr xs" "length xs < 2 ^ 64"
    and "2 ^ 64 \<le> unat off + unat (sv_page_size s)" "unat off + unat (sv_page_size s) - 2 ^ 64 < length xs"
  shows "fst (handle_tools_list i (JObj [(''cursor'', JStr (nat_to_dec (unat off)))]) s) = Inl UndefinedBehaviour"
  using assms(1,2) list_page_wraps [OF assms(4,5,3)]
  by (simp add: handle_tools_list_def handle_list_request_def cursor_roundtrip Let_def)

theorem large_cursor_is_undefined_witness:
  "fst (handle_tools_list (IntId 1) (JObj [(''cursor'', JStr (nat_to_dec (unat (0xFFFFFFFFFFFFFFFF :: 64 word))))])
     (ex_running\<lparr>sv_page_size := 1\<rparr>)) = Inl UndefinedBehaviour"
proof (rule large_cursor_is_undefined)
  show "tool_items (active_handlers (ex_running\<lparr>sv_page_size := 1\<rparr>)) = Inr [tool_to_json ex_tool]"
    by (simp add: ex_running_def run_def register_tool_def registering_def ensure_pre_run_def McpServer_def
      update_handlers_def warn_if_def connect_transport_def slog_def Let_def active_handlers_def no_handlers_def
      tool_items_def list_items_def)
qed simp_all


section \<open>The I/O threads\<close>

text \<open>\<open>run()\<close> after the transport has started: the calling thread and those of the pool run the tasks of the event loop.
  An exception that leaves a task ends its thread with a message in the log; one that is no \<open>std::exception\<close> ends the
  program.\<close>

record server_io =
  si_server :: server
  si_threads :: nat
  si_terminated :: bool

definition run_loop :: "server_env \<Rightarrow> exn option \<Rightarrow> server \<Rightarrow> server_io" where
  "run_loop env started s =
     (let s1 = run env started s; ok = (sv_transport s \<and> started = None) in
      \<lparr>si_server = s1, si_threads = (if ok then max 1 (sv_io_threads s) else 0), si_terminated = False\<rparr>)"

definition io_task :: "server_env \<Rightarrow> (server \<Rightarrow> server \<times> exn option) \<Rightarrow> server_io \<Rightarrow> server_io" where
  "io_task env task w =
     (if si_threads w = 0 \<or> si_terminated w then w
      else case task (si_server w) of
        (s, None) \<Rightarrow> w\<lparr>si_server := s\<rparr>
      | (s, Some e) \<Rightarrow>
          if is_std_exception e
          then w\<lparr>si_server := slog ''error'' (''io loop died: '' @ exn_what (se_what env) e) s, si_threads := si_threads w - 1\<rparr>
          else w\<lparr>si_server := s, si_terminated := True\<rparr>)"

text \<open>As many exceptions as there are threads end the loop: no later task runs, and since nothing else has been told,
  the server counts as running.\<close>

lemma io_loop_dies:
  assumes "\<And>f s. f \<in> set tasks \<Longrightarrow> \<exists>e. snd (f s) = Some e \<and> is_std_exception e"
    and "length tasks = si_threads w" "\<not> si_terminated w"
    and "\<And>f s. f \<in> set tasks \<Longrightarrow> sv_running (fst (f s)) = sv_running s"
  shows "si_threads (fold (io_task env) tasks w) = 0 \<and> io_task env f (fold (io_task env) tasks w) = fold (io_task env) tasks w
    \<and> sv_running (si_server (fold (io_task env) tasks w)) = sv_running (si_server w)"
  using assms
proof (induction tasks arbitrary: w)
  case (Cons g tasks)
  obtain s e where g: "g (si_server w) = (s, Some e)" "is_std_exception e" "sv_running s = sv_running (si_server w)"
    using Cons.prems(1,4) [of g "si_server w"] by (cases "g (si_server w)") auto
  let ?w = "io_task env g w"
  have "si_threads ?w = length tasks" "\<not> si_terminated ?w" "sv_running (si_server ?w) = sv_running (si_server w)"
    using g Cons.prems(2,3) by (auto simp: io_task_def slog_def)
  then show ?case
    using Cons.IH [of ?w] Cons.prems(1,4) by simp
qed (simp add: io_task_def)

end
