(* ===== verification/Http_Util.thy ===== *)
theory Http_Util
  imports Prelude
begin

text \<open>
  The pure parts of the HTTP transport (\<open>http_transport.cpp\<close>): session ids, the sanitising of
  header values, the checks of the \<open>Origin\<close> and \<open>Host\<close> headers, and the text of a response.
\<close>

section \<open>Definitions\<close>

definition cr :: char where "cr = CHR 0x0D"
definition lf :: char where "lf = CHR 0x0A"
definition crlf :: string where "crlf = [cr, lf]"

definition session_chars :: string where
  "session_chars = ''ABCDEFGHIJKLMNOPQRSTUVWXYZabcdefghijklmnopqrstuvwxyz0123456789''"

text \<open>\<open>generate_session_id\<close>, from the random bytes it draws.\<close>

definition generate_session_id :: "char list \<Rightarrow> string" where
  "generate_session_id buf = map (\<lambda>b. session_chars ! (of_char b mod 62)) (take 32 buf)"

text \<open>Where the bytes come from: the sources of the system in order, each of which may fail, and at last
  \<open>std::random_device\<close>. On Unix the one source is \<open>/dev/urandom\<close>, on Windows there are two.\<close>

primrec crypto_random_bytes :: "(nat \<Rightarrow> 32 word) \<Rightarrow> nat \<Rightarrow> (nat \<Rightarrow> string option) list \<Rightarrow> string" where
  "crypto_random_bytes rd n [] = map (\<lambda>i. char_of (unat (rd i))) [0..<n]"
| "crypto_random_bytes rd n (src # srcs) = (case src n of Some b \<Rightarrow> b | None \<Rightarrow> crypto_random_bytes rd n srcs)"

lemma session_id_form:
  assumes "\<And>src b. src \<in> set srcs \<Longrightarrow> src 32 = Some b \<Longrightarrow> length b = 32"
  shows "length (generate_session_id (crypto_random_bytes rd 32 srcs)) = 32"
    and "set (generate_session_id (crypto_random_bytes rd 32 srcs)) \<subseteq> set session_chars"
proof -
  have n: "length (crypto_random_bytes rd 32 srcs) = 32"
    using assms by (induction srcs) (auto split: option.split)
  then show "length (generate_session_id (crypto_random_bytes rd 32 srcs)) = 32"
    by (simp add: generate_session_id_def)
  have "k mod 62 < length session_chars" for k :: nat
    by (simp add: session_chars_def)
  then show "set (generate_session_id (crypto_random_bytes rd 32 srcs)) \<subseteq> set session_chars"
    by (auto simp: generate_session_id_def)
qed

definition sanitize_header_value :: "string \<Rightarrow> string" where
  "sanitize_header_value v = filter (\<lambda>c. c \<noteq> cr \<and> c \<noteq> lf \<and> c \<noteq> CHR 0x00) v"

text \<open>\<open>s.substr(0, s.find(c))\<close>: the whole string when the character does not occur.\<close>

definition before_char :: "char \<Rightarrow> string \<Rightarrow> string" where
  "before_char c s = (case find_char c s of None \<Rightarrow> s | Some n \<Rightarrow> take n s)"

definition is_origin_allowed :: "string \<Rightarrow> string \<Rightarrow> bool" where
  "is_origin_allowed origin config_host =
     (case find_sub ''://'' origin of None \<Rightarrow> False
      | Some scheme_end \<Rightarrow>
          if scheme_end = 0 then False
          else
            let scheme = to_lower (take scheme_end origin) in
            if scheme \<noteq> ''http'' \<and> scheme \<noteq> ''https'' then False
            else
              let rest = drop (scheme_end + 3) origin;
                  hostport = before_char (CHR ''/'') rest;
                  hostport' = (case find_char (CHR ''@'') rest of None \<Rightarrow> hostport
                    | Some at \<Rightarrow> (case find_char (CHR ''/'') rest of
                        None \<Rightarrow> drop (at + 1) hostport
                      | Some slash \<Rightarrow> if at < slash then drop (at + 1) hostport else hostport));
                  host = to_lower (before_char (CHR '':'') hostport')
              in host = ''127.0.0.1'' \<or> host = ''localhost'' \<or> host = ''::1'' \<or> host = config_host)"

definition is_host_allowed :: "string \<Rightarrow> string \<Rightarrow> bool" where
  "is_host_allowed host_header config_host =
     (if host_header = [] then False
      else
        let host_only = to_lower (before_char (CHR '':'') host_header); ch = to_lower config_host
        in host_only = ch \<or> host_only = ''127.0.0.1'' \<or> host_only = ''localhost'' \<or> host_only = ''::1'')"

definition status_text :: "nat \<Rightarrow> string" where
  "status_text status =
     (if status = 200 then ''OK'' else if status = 202 then ''Accepted'' else if status = 204 then ''No Content''
      else if status = 400 then ''Bad Request'' else if status = 403 then ''Forbidden''
      else if status = 404 then ''Not Found'' else if status = 405 then ''Method Not Allowed''
      else if status = 406 then ''Not Acceptable'' else if status = 429 then ''Too Many Requests''
      else if status = 500 then ''Internal Server Error'' else if status = 503 then ''Service Unavailable''
      else ''Unknown'')"

definition header_line :: "string \<times> string \<Rightarrow> string" where
  "header_line kv = sanitize_header_value (fst kv) @ '': '' @ sanitize_header_value (snd kv)"

text \<open>The lines of a response's head.\<close>

definition response_lines :: "nat \<Rightarrow> string \<Rightarrow> string \<Rightarrow> (string \<times> string) list \<Rightarrow> string list" where
  "response_lines status content_type body extra =
     (''HTTP/1.1 '' @ nat_to_dec status @ '' '' @ status_text status)
     # (''Content-Type: '' @ sanitize_header_value content_type)
     # (''Content-Length: '' @ nat_to_dec (length body))
     # map header_line extra"

definition build_http_response :: "nat \<Rightarrow> string \<Rightarrow> string \<Rightarrow> (string \<times> string) list \<Rightarrow> string" where
  "build_http_response status content_type body extra =
     concat (map (\<lambda>l. l @ crlf) (response_lines status content_type body extra)) @ crlf @ body"


section \<open>Reading a response\<close>

text \<open>What the other side does with the bytes: lines end with CR LF, the first empty line ends the
  head.\<close>

fun read_lines :: "string \<Rightarrow> string \<Rightarrow> (string list \<times> string) option" where
  "read_lines acc [] = None"
| "read_lines acc (c # cs) =
     (if c = cr \<and> (case cs of [] \<Rightarrow> False | d # _ \<Rightarrow> d = lf)
      then (if acc = [] then Some ([], tl cs) else map_option (\<lambda>(ls, b). (acc # ls, b)) (read_lines [] (tl cs)))
      else read_lines (acc @ [c]) cs)"

lemma read_lines_line:
  assumes "cr \<notin> set l" "acc @ l \<noteq> []"
  shows "read_lines acc (l @ crlf @ rest) = map_option (\<lambda>(ls, b). ((acc @ l) # ls, b)) (read_lines [] rest)"
  using assms
proof (induction l arbitrary: acc)
  case Nil
  then show ?case by (simp add: crlf_def)
next
  case (Cons c l)
  then have "c \<noteq> cr" by auto
  with Cons show ?case by simp
qed

lemma read_lines_head:
  "\<forall>l \<in> set ls. cr \<notin> set l \<and> l \<noteq> [] \<Longrightarrow>
   read_lines [] (concat (map (\<lambda>l. l @ crlf) ls) @ crlf @ body) = Some (ls, body)"
proof (induction ls)
  case Nil
  then show ?case by (simp add: crlf_def)
next
  case (Cons l ls)
  then show ?case by (simp add: read_lines_line)
qed

lemma digit_not_cr: "is_digit c \<Longrightarrow> c \<noteq> cr"
  by (auto simp: is_digit_def cr_def)

lemma nat_to_dec_no_cr: "cr \<notin> set (nat_to_dec n)"
  using nat_to_dec_digits [of n] digit_not_cr by (auto simp: list_all_iff)

lemma status_text_no_cr: "cr \<notin> set (status_text n)"
  by (simp add: status_text_def cr_def)

lemma sanitize_no_cr: "cr \<notin> set (sanitize_header_value v)"
  by (simp add: sanitize_header_value_def)

lemma response_lines_ok: "l \<in> set (response_lines st ct body extra) \<Longrightarrow> cr \<notin> set l \<and> l \<noteq> []"
  using nat_to_dec_no_cr status_text_no_cr sanitize_no_cr
  by (auto simp: response_lines_def header_line_def cr_def)


section \<open>Properties\<close>


end
