(* ===== verification/Http_Connection.thy ===== *)
theory Http_Connection
  imports Http_Util Ord_Map Write_Queue
begin

text \<open>
  An HTTP connection of the server (\<open>HttpConnection\<close> in \<open>http_transport.hpp\<close> and
  \<open>http_transport.cpp\<close>): its fields and the callbacks through which the HTTP parser hands it the
  request, piece by piece. The parser itself, llhttp, is not part of the repository: a run of it is a
  sequence of callback events, and a text it delivers may arrive in several pieces.
\<close>

section \<open>State\<close>

text \<open>What \<open>on_disconnect\<close> is set to: nothing, removing a stream from a session, or from the list of
  the legacy mode; the number names the stream.\<close>

datatype disconnect_action = NoAction | LeaveSession string nat | LeaveLegacy nat

text \<open>\<open>hc_timer\<close> is the time at which the pending wait of the read timer ends, \<open>hc_expired\<close> counts the waits
  that have ended and whose handler has not run yet: cancelling the timer does not reach those.\<close>

record http_connection =
  hc_url :: string
  hc_method :: string
  hc_body :: string
  hc_headers :: "(string \<times> string) list"
  hc_field :: string
  hc_value :: string
  hc_active :: bool
  hc_complete :: bool
  hc_streaming :: bool
  hc_max_body :: nat
  hc_max_headers :: nat
  hc_max_line :: nat
  hc_open :: bool
  hc_queue :: write_queue
  hc_release :: bool
  hc_disc :: disconnect_action
  hc_reading :: bool
  hc_read_timeout :: int
  hc_timer :: "int option"
  hc_expired :: nat

definition HttpConnection :: http_connection where
  "HttpConnection = \<lparr>hc_url = [], hc_method = [], hc_body = [], hc_headers = [], hc_field = [], hc_value = [],
     hc_active = True, hc_complete = False, hc_streaming = False, hc_max_body = 1024 * 1024, hc_max_headers = 100,
     hc_max_line = 16 * 1024, hc_open = True, hc_queue = make_write_queue 0 DropNewest, hc_release = False,
     hc_disc = NoAction, hc_reading = False, hc_read_timeout = 0, hc_timer = None, hc_expired = 0\<rparr>"


section \<open>The callbacks of the parser\<close>

text \<open>Each returns the connection, or \<open>None\<close> when it returns -1 and the parser stops with an error.\<close>

definition on_url :: "string \<Rightarrow> http_connection \<Rightarrow> http_connection option" where
  "on_url d c = (if length (hc_url c) + length d > hc_max_line c then None else Some (c\<lparr>hc_url := hc_url c @ d\<rparr>))"

definition on_method :: "string \<Rightarrow> http_connection \<Rightarrow> http_connection option" where
  "on_method d c = Some (c\<lparr>hc_method := hc_method c @ d\<rparr>)"

definition on_body :: "string \<Rightarrow> http_connection \<Rightarrow> http_connection option" where
  "on_body d c = (if length (hc_body c) + length d > hc_max_body c then None else Some (c\<lparr>hc_body := hc_body c @ d\<rparr>))"

definition flush_header :: "http_connection \<Rightarrow> http_connection" where
  "flush_header c =
     (if hc_field c \<noteq> []
      then c\<lparr>hc_headers := oset (to_lower (hc_field c)) (hc_value c) (hc_headers c), hc_field := [], hc_value := []\<rparr>
      else c)"

definition on_header_field :: "string \<Rightarrow> http_connection \<Rightarrow> http_connection option" where
  "on_header_field d c =
     (let c' = flush_header c in
      if length (hc_headers c') \<ge> hc_max_headers c' then None
      else if length (hc_field c') + length d > hc_max_line c' then None
      else Some (c'\<lparr>hc_field := hc_field c' @ d\<rparr>))"

definition on_header_value :: "string \<Rightarrow> http_connection \<Rightarrow> http_connection option" where
  "on_header_value d c =
     (if length (hc_value c) + length d > hc_max_line c then None else Some (c\<lparr>hc_value := hc_value c @ d\<rparr>))"

definition on_headers_complete :: "http_connection \<Rightarrow> http_connection option" where
  "on_headers_complete c = Some (flush_header c)"

definition on_message_complete :: "http_connection \<Rightarrow> http_connection option" where
  "on_message_complete c = Some (c\<lparr>hc_complete := True\<rparr>)"

datatype parse_event =
    Url string | Method string | HeaderField string | HeaderValue string | HeadersComplete
  | Body string | MessageComplete

fun run_event :: "parse_event \<Rightarrow> http_connection \<Rightarrow> http_connection option" where
  "run_event (Url d) c = on_url d c"
| "run_event (Method d) c = on_method d c"
| "run_event (HeaderField d) c = on_header_field d c"
| "run_event (HeaderValue d) c = on_header_value d c"
| "run_event HeadersComplete c = on_headers_complete c"
| "run_event (Body d) c = on_body d c"
| "run_event MessageComplete c = on_message_complete c"

fun run_events :: "parse_event list \<Rightarrow> http_connection \<Rightarrow> http_connection option" where
  "run_events [] c = Some c"
| "run_events (e # es) c = Option.bind (run_event e c) (run_events es)"

text \<open>After a request has been dispatched its parsed parts are cleared.\<close>

definition reset_request :: "http_connection \<Rightarrow> http_connection" where
  "reset_request c = c\<lparr>hc_url := [], hc_method := [], hc_body := [], hc_headers := [], hc_field := [], hc_value := [],
     hc_complete := False\<rparr>"


section \<open>Limits\<close>

definition within_limits :: "http_connection \<Rightarrow> bool" where
  "within_limits c \<longleftrightarrow> length (hc_url c) \<le> hc_max_line c \<and> length (hc_body c) \<le> hc_max_body c
     \<and> length (hc_field c) \<le> hc_max_line c \<and> length (hc_value c) \<le> hc_max_line c
     \<and> length (hc_headers c) + (if hc_field c = [] then 0 else 1) \<le> hc_max_headers c \<and> osorted (hc_headers c)"

lemma length_oset_le: "osorted m \<Longrightarrow> length (oset k v m) \<le> Suc (length m)"
  by (simp add: length_oset)

lemma within_limits_flush: "within_limits c \<Longrightarrow> within_limits (flush_header c)"
  using length_oset_le [of "hc_headers c" "to_lower (hc_field c)" "hc_value c"]
  by (auto simp: within_limits_def flush_header_def osorted_oset)

lemma within_limits_event:
  assumes "within_limits c" "run_event e c = Some c'"
  shows "within_limits c'"
proof (cases e)
  case (HeaderField d)
  then show ?thesis
    using within_limits_flush [OF assms(1)] assms(2)
    by (auto simp: on_header_field_def Let_def within_limits_def flush_header_def split: if_splits)
next
  case HeadersComplete
  then show ?thesis
    using within_limits_flush [OF assms(1)] assms(2) by (simp add: on_headers_complete_def)
qed (use assms in \<open>auto simp: within_limits_def on_url_def on_method_def on_body_def on_header_value_def
    on_message_complete_def split: if_splits\<close>)

lemma within_limits_events: "within_limits c \<Longrightarrow> run_events es c = Some c' \<Longrightarrow> within_limits c'"
  by (induction es arbitrary: c) (auto simp: bind_eq_Some_conv intro: within_limits_event)

lemma limits_event:
  assumes "run_event e c = Some c'"
  shows "hc_max_body c' = hc_max_body c \<and> hc_max_line c' = hc_max_line c \<and> hc_max_headers c' = hc_max_headers c"
  using assms
  by (cases e) (auto simp: on_url_def on_method_def on_body_def on_header_value_def on_message_complete_def
      on_headers_complete_def on_header_field_def flush_header_def Let_def split: if_splits)

lemma limits_events:
  "run_events es c = Some c' \<Longrightarrow>
   hc_max_body c' = hc_max_body c \<and> hc_max_line c' = hc_max_line c \<and> hc_max_headers c' = hc_max_headers c"
proof (induction es arbitrary: c)
  case (Cons e es)
  then obtain d where "run_event e c = Some d" "run_events es d = Some c'"
    by (auto simp: bind_eq_Some_conv)
  with Cons.IH limits_event show ?case by fastforce
qed simp


section \<open>What the pieces add up to\<close>

text \<open>The events of a header block in which every name comes in one piece, and values in any number
  of pieces.\<close>

definition header_events :: "(string \<times> string list) list \<Rightarrow> parse_event list" where
  "header_events hs = concat (map (\<lambda>(k, vs). HeaderField k # map HeaderValue vs) hs)"

definition header_map :: "(string \<times> string list) list \<Rightarrow> (string \<times> string) list" where
  "header_map hs = fold (\<lambda>(k, vs). oset (to_lower k) (concat vs)) hs []"

text \<open>A connection whose open header is \<open>(k, v)\<close>: what its headers come to when it is flushed.\<close>

lemma value_events:
  "hc_field c \<noteq> [] \<Longrightarrow> length (hc_value c) + length (concat vs) \<le> hc_max_line c \<Longrightarrow>
   run_events (map HeaderValue vs @ es) c = run_events es (c\<lparr>hc_value := hc_value c @ concat vs\<rparr>)"
proof (induction vs arbitrary: c)
  case Nil
  then show ?case by simp
next
  case (Cons v vs)
  then show ?case by (simp add: on_header_value_def)
qed

definition open_header :: "http_connection \<Rightarrow> (string \<times> string) list" where
  "open_header c = hc_headers (flush_header c)"

lemma field_event:
  assumes "length (open_header c) < hc_max_headers c" "length k \<le> hc_max_line c"
    and "hc_field c = [] \<Longrightarrow> hc_value c = []"
  shows "run_event (HeaderField k) c = Some (c\<lparr>hc_headers := open_header c, hc_field := k, hc_value := []\<rparr>)"
  using assms by (auto simp: on_header_field_def Let_def open_header_def flush_header_def)

lemma header_events_run:
  assumes "osorted (open_header c)" "length (open_header c) + length hs \<le> hc_max_headers c"
    and "hc_field c = [] \<Longrightarrow> hc_value c = []"
    and "\<forall>(k, vs) \<in> set hs. k \<noteq> [] \<and> length k \<le> hc_max_line c \<and> length (concat vs) \<le> hc_max_line c"
  shows "run_events (header_events hs @ [HeadersComplete]) c
    = Some (c\<lparr>hc_headers := fold (\<lambda>(k, vs). oset (to_lower k) (concat vs)) hs (open_header c), hc_field := [], hc_value := []\<rparr>)"
  using assms
proof (induction hs arbitrary: c)
  case Nil
  then show ?case
    by (auto simp: header_events_def on_headers_complete_def open_header_def flush_header_def)
next
  case (Cons h hs)
  obtain k vs where h: "h = (k, vs)" by (cases h)
  let ?c = "c\<lparr>hc_headers := open_header c, hc_field := k, hc_value := []\<rparr>"
  let ?d = "c\<lparr>hc_headers := open_header c, hc_field := k, hc_value := concat vs\<rparr>"
  have k: "k \<noteq> []" "length k \<le> hc_max_line c" "length (concat vs) \<le> hc_max_line c"
    using Cons.prems(4) h by auto
  have field: "run_event (HeaderField k) c = Some ?c"
    using Cons.prems(2,3) k by (intro field_event) auto
  have "run_events (map HeaderValue vs @ es) ?c = run_events es ?d" for es
    using value_events [of ?c vs es] k by simp
  then have step: "run_events (header_events (h # hs) @ es) c = run_events (header_events hs @ es) ?d" for es
    using field by (simp add: h header_events_def)
  have oh: "open_header ?d = oset (to_lower k) (concat vs) (open_header c)"
    using k by (simp add: open_header_def [of ?d] flush_header_def)
  then have "osorted (open_header ?d)" "length (open_header ?d) + length hs \<le> hc_max_headers ?d"
    using Cons.prems(1,2) length_oset_le [OF Cons.prems(1), of "to_lower k" "concat vs"] by (simp_all add: osorted_oset)
  with Cons.IH [of ?d] Cons.prems(4) k step show ?case
    by (simp add: oh h)
qed


section \<open>Properties\<close>

text \<open>The limits hold throughout. Whatever the parser delivers, in whatever pieces, a connection
  never holds more than \<open>max_body_size\<close> bytes of body, \<open>max_header_line_size\<close> bytes of URL, header name or
  header value, or \<open>max_header_count\<close> headers; what would exceed a limit is refused before it is
  stored.\<close>

theorem request_limits:
  assumes "run_events es (HttpConnection\<lparr>hc_max_body := mb, hc_max_headers := mh, hc_max_line := ml\<rparr>) = Some c"
  shows "length (hc_body c) \<le> mb \<and> length (hc_url c) \<le> ml \<and> length (hc_field c) \<le> ml \<and> length (hc_value c) \<le> ml
    \<and> length (hc_headers c) \<le> mh"
proof -
  have "within_limits (HttpConnection\<lparr>hc_max_body := mb, hc_max_headers := mh, hc_max_line := ml\<rparr>)"
    by (simp add: within_limits_def HttpConnection_def)
  from within_limits_events [OF this assms] limits_events [OF assms] show ?thesis
    by (simp add: within_limits_def split: if_splits)
qed

theorem request_limits_witness:
  "\<exists>c. run_events [Url ''/mcp'', HeaderField ''Host'', HeaderValue ''x'', HeadersComplete, Body ''{}'']
      (HttpConnection\<lparr>hc_max_body := 2, hc_max_headers := 1, hc_max_line := 4\<rparr>) = Some c \<and> length (hc_body c) \<le> 2"
proof -
  obtain c where "run_events [Url ''/mcp'', HeaderField ''Host'', HeaderValue ''x'', HeadersComplete, Body ''{}'']
      (HttpConnection\<lparr>hc_max_body := 2, hc_max_headers := 1, hc_max_line := 4\<rparr>) = Some c"
    by (simp add: HttpConnection_def on_url_def on_header_field_def on_header_value_def on_headers_complete_def on_body_def
        flush_header_def Let_def)
  with request_limits [OF this] show ?thesis by blast
qed

text \<open>Headers in pieces. A header block within the limits whose names arrive whole is collected into
  exactly the map from lower-case names to values, however the values are cut into pieces. A name that
  arrives in two pieces, as happens when a packet ends inside it, is not: each piece is taken for a
  header of its own, the first with an empty value, and the header itself is missing.\<close>

theorem header_pieces:
  assumes "length hs \<le> hc_max_headers c" "hc_headers c = []" "hc_field c = []" "hc_value c = []"
    and "\<forall>(k, vs) \<in> set hs. k \<noteq> [] \<and> length k \<le> hc_max_line c \<and> length (concat vs) \<le> hc_max_line c"
    and "k1 \<noteq> []" "k2 \<noteq> []" "length k1 \<le> hc_max_line c" "length k2 \<le> hc_max_line c" "length v \<le> hc_max_line c"
    and "2 \<le> hc_max_headers c"
  shows "map_option hc_headers (run_events (header_events hs @ [HeadersComplete]) c) = Some (header_map hs)
    \<and> (\<exists>c'. run_events [HeaderField k1, HeaderField k2, HeaderValue v, HeadersComplete] c = Some c'
         \<and> map_of (hc_headers c') (to_lower k1) = Some (if to_lower k1 = to_lower k2 then v else [])
         \<and> map_of (hc_headers c') (to_lower (k1 @ k2)) = None)"
proof -
  have oh: "open_header c = []"
    using assms(2,3) by (simp add: open_header_def flush_header_def)
  have 1: "run_events (header_events hs @ [HeadersComplete]) c
      = Some (c\<lparr>hc_headers := header_map hs, hc_field := [], hc_value := []\<rparr>)"
    using header_events_run [of c hs] assms(1,4,5) oh by (simp add: header_map_def)
  have "run_events (header_events [(k1, []), (k2, [v])] @ [HeadersComplete]) c
      = Some (c\<lparr>hc_headers := header_map [(k1, []), (k2, [v])], hc_field := [], hc_value := []\<rparr>)"
    using header_events_run [of c "[(k1, []), (k2, [v])]"] assms(4,6-11) oh by (simp add: header_map_def)
  then have 2: "run_events [HeaderField k1, HeaderField k2, HeaderValue v, HeadersComplete] c
      = Some (c\<lparr>hc_headers := header_map [(k1, []), (k2, [v])], hc_field := [], hc_value := []\<rparr>)"
    by (simp add: header_events_def)
  have "length (to_lower (k1 @ k2)) \<noteq> length (to_lower k1)" "length (to_lower (k1 @ k2)) \<noteq> length (to_lower k2)"
    using assms(6,7) by (simp_all add: to_lower_def)
  then have "to_lower (k1 @ k2) \<noteq> to_lower k1" "to_lower (k1 @ k2) \<noteq> to_lower k2"
    by metis+
  then show ?thesis
    using 1 2 by (simp add: header_map_def map_of_oset)
qed

theorem header_pieces_witness:
  "\<exists>c'. run_events [HeaderField ''Ho'', HeaderField ''st'', HeaderValue ''localhost'', HeadersComplete] HttpConnection = Some c'
     \<and> map_of (hc_headers c') (to_lower (''Ho'' @ ''st'')) = None"
proof -
  have "hc_max_headers HttpConnection = 100" "hc_max_line HttpConnection = 16384" "hc_headers HttpConnection = []"
    "hc_field HttpConnection = []" "hc_value HttpConnection = []"
    by (simp_all add: HttpConnection_def)
  then have "\<exists>c'. run_events [HeaderField ''Ho'', HeaderField ''st'', HeaderValue ''localhost'', HeadersComplete] HttpConnection = Some c'
     \<and> map_of (hc_headers c') (to_lower ''Ho'') = Some (if to_lower ''Ho'' = to_lower ''st'' then ''localhost'' else [])
     \<and> map_of (hc_headers c') (to_lower (''Ho'' @ ''st'')) = None"
    by (intro header_pieces [where hs = "[]", THEN conjunct2]) simp_all
  then show ?thesis by blast
qed

end
