(* ===== verification/Transport.thy ===== *)
theory Transport
  imports Jsonrpc
begin

text \<open>
  The interface between a transport and its user (\<open>transport.hpp\<close>). A transport hands every message
  to the \<open>MessageCallback\<close> with a sink for responses; besides, the user may call \<open>send_message\<close> and
  \<open>send_to_session\<close> while the callback runs. A callback is a function on a state of its own: what
  it does with the transport, in order, and the exception it then throws, if any. A callback that
  lets out a \<open>parse_error\<close> of its own is not considered.
\<close>

datatype emission = Respond json | PushSession string json | PushAll json

text \<open>The parameters of a transport that exchanges lines: the JSON library (reading a text gives the
  message of the parse error or a value, writing may throw on text that is not UTF-8) and the callback.\<close>

record 'h line_env =
  le_parse :: "string \<Rightarrow> string + json"
  le_dump :: "json \<Rightarrow> string res"
  le_what :: "json_error \<Rightarrow> string"
  le_handler :: "(json \<Rightarrow> 'h \<Rightarrow> (emission list \<times> exn option) \<times> 'h) option"

text \<open>What a callback does, until the sink throws. An exception of a push is caught by the user.\<close>

fun run_sink ::
    "(json \<Rightarrow> 's \<Rightarrow> 's \<times> exn option) \<Rightarrow> (json \<Rightarrow> 's \<Rightarrow> 's \<times> exn option) \<Rightarrow> emission list \<Rightarrow> 's \<Rightarrow> 's \<times> exn option" where
  "run_sink respond push [] s = (s, None)"
| "run_sink respond push (Respond r # es) s =
     (case respond r s of (s', None) \<Rightarrow> run_sink respond push es s' | (s', Some e) \<Rightarrow> (s', Some e))"
| "run_sink respond push (PushSession sid m # es) s = run_sink respond push es (fst (push m s))"
| "run_sink respond push (PushAll m # es) s = run_sink respond push es (fst (push m s))"

text \<open>The user never lets an exception out that the transport does not catch.\<close>

definition tame_env :: "'h line_env \<Rightarrow> bool" where
  "tame_env env \<longleftrightarrow> (\<forall>j. \<exists>t. le_dump env j = Inr t)
     \<and> (\<forall>f. le_handler env = Some f \<longrightarrow> (\<forall>j h. case snd (fst (f j h)) of None \<Rightarrow> True | Some e \<Rightarrow> is_std_exception e))"

lemma run_sink_none:
  assumes "\<And>r s. snd (respond r s) = None"
  shows "snd (run_sink respond push es s) = None"
proof (induction es arbitrary: s)
  case (Cons e es)
  then show ?case
  proof (cases e)
    case (Respond r)
    then show ?thesis using Cons.IH assms [of r s] by (cases "respond r s") simp
  qed simp_all
qed simp

text \<open>An operation that leaves \<open>g\<close> alone: so does everything built from it.\<close>

lemma run_sink_frame:
  assumes "\<And>r s. respond r (g s) = map_prod g id (respond r s)" "\<And>m s. push m (g s) = map_prod g id (push m s)"
  shows "run_sink respond push es (g s) = map_prod g id (run_sink respond push es s)"
  using assms
proof (induction es arbitrary: s)
  case (Cons e es)
  show ?case
  proof (cases e)
    case (Respond r)
    then show ?thesis
      using Cons by (cases "respond r s"; cases "snd (respond r s)") auto
  next
    case (PushSession sid m)
    then show ?thesis using Cons by (cases "push m s") simp
  next
    case (PushAll m)
    then show ?thesis using Cons by (cases "push m s") simp
  qed
qed simp

lemma run_sink_keeps_in:
  assumes "\<And>r s. Respond r \<in> set es \<Longrightarrow> P s \<Longrightarrow> P (fst (respond r s))"
    and "\<And>sid m s. PushSession sid m \<in> set es \<or> PushAll m \<in> set es \<Longrightarrow> P s \<Longrightarrow> P (fst (push m s))" and "P s"
  shows "P (fst (run_sink respond push es s))"
  using assms
proof (induction es arbitrary: s)
  case (Cons e es)
  have IH: "P t \<Longrightarrow> P (fst (run_sink respond push es t))" for t
    using Cons.IH Cons.prems(1,2) by (metis list.set_intros(2))
  show ?case
  proof (cases e)
    case (Respond r)
    then show ?thesis
      using IH Cons.prems(1) [OF _ Cons.prems(3), of r] by (cases "respond r s"; cases "snd (respond r s)") auto
  next
    case (PushSession sid m)
    then show ?thesis using IH Cons.prems(2) [OF _ Cons.prems(3), of sid m] by simp
  next
    case (PushAll m)
    then show ?thesis using IH Cons.prems(2) [OF _ Cons.prems(3), of "[]" m] by simp
  qed
qed simp

lemma run_sink_keeps:
  "(\<And>r s. P s \<Longrightarrow> P (fst (respond r s))) \<Longrightarrow> (\<And>m s. P s \<Longrightarrow> P (fst (push m s))) \<Longrightarrow> P s \<Longrightarrow> P (fst (run_sink respond push es s))"
  by (rule run_sink_keeps_in)


section \<open>Handling a line\<close>

text \<open>The shape of \<open>handle_line\<close> in the transports of the server: the line is parsed and handed to the
  callback; a parse error is answered (\<open>failed\<close>), any other \<open>std::exception\<close> is noted (\<open>caught\<close>), and what
  is no \<open>std::exception\<close> leaves the function.\<close>

definition handle_line_with ::
    "'h line_env \<Rightarrow> (string \<Rightarrow> 's \<Rightarrow> 's \<times> exn option) \<Rightarrow> (json \<Rightarrow> 's \<Rightarrow> 's \<times> exn option) \<Rightarrow> (json \<Rightarrow> 's \<Rightarrow> 's \<times> exn option) \<Rightarrow>
     (exn \<Rightarrow> 's \<Rightarrow> 's) \<Rightarrow> string \<Rightarrow> 's \<Rightarrow> 'h \<Rightarrow> ('s \<times> 'h) \<times> exn option" where
  "handle_line_with env failed respond push caught line s h =
     (case le_parse env line of
        Inl err \<Rightarrow> (case failed err s of (s', e) \<Rightarrow> ((s', h), e))
      | Inr j \<Rightarrow>
          (case le_handler env of None \<Rightarrow> ((s, h), None)
           | Some f \<Rightarrow>
               (case f j h of ((es, x), h') \<Rightarrow>
                  (case run_sink respond push es s of (s', thrown) \<Rightarrow>
                     (case (case thrown of None \<Rightarrow> x | Some e \<Rightarrow> Some e) of
                        None \<Rightarrow> ((s', h'), None)
                      | Some e \<Rightarrow> if is_std_exception e then ((caught e s', h'), None) else ((s', h'), Some e))))))"

text \<open>The cases of a line.\<close>

lemma handle_line_cases [case_names unread idle handled]:
  obtains err where "le_parse env line = Inl err"
  | j where "le_parse env line = Inr j" "le_handler env = None"
  | j f es x h' where "le_parse env line = Inr j" "le_handler env = Some f" "f j h = ((es, x), h')"
  by (metis (no_types, opaque_lifting) not_None_eq sum.exhaust surj_pair)

lemma handle_line_frame:
  assumes "\<And>e s. failed e (g s) = map_prod g id (failed e s)"
    and sink: "\<And>r s. respond r (g s) = map_prod g id (respond r s)" "\<And>m s. push m (g s) = map_prod g id (push m s)"
    and "\<And>e s. caught e (g s) = g (caught e s)"
  shows "handle_line_with env failed respond push caught line (g s) h
    = map_prod (map_prod g id) id (handle_line_with env failed respond push caught line s h)"
proof (cases rule: handle_line_cases [where env = env and line = line and h = h])
  case (unread err)
  then show ?thesis by (cases "failed err s") (simp add: handle_line_with_def assms(1))
next
  case (idle j)
  then show ?thesis by (simp add: handle_line_with_def)
next
  case (handled j f es x h')
  obtain s' y where r: "run_sink respond push es s = (s', y)" by fastforce
  have "run_sink respond push es (g s) = (g s', y)" using run_sink_frame [of respond g push es s] sink r by simp
  then show ?thesis
    using handled r by (cases "case y of None \<Rightarrow> x | Some e \<Rightarrow> Some e") (simp_all add: handle_line_with_def assms(4))
qed

lemma handle_line_keeps:
  assumes "\<And>e s. P s \<Longrightarrow> P (fst (failed e s))" "\<And>e s. P s \<Longrightarrow> P (caught e s)"
    and sink: "\<And>r s. P s \<Longrightarrow> P (fst (respond r s))" "\<And>m s. P s \<Longrightarrow> P (fst (push m s))" and s: "P s"
  shows "P (fst (fst (handle_line_with env failed respond push caught line s h)))"
proof (cases rule: handle_line_cases [where env = env and line = line and h = h])
  case (unread err)
  then show ?thesis using assms(1) [OF s, of err] by (cases "failed err s") (simp add: handle_line_with_def)
next
  case (idle j)
  then show ?thesis using s by (simp add: handle_line_with_def)
next
  case (handled j f es x h')
  obtain s' y where r: "run_sink respond push es s = (s', y)" by fastforce
  have "P s'" using run_sink_keeps [of P respond push s es] sink s r by simp
  then show ?thesis
    using handled r by (cases "case y of None \<Rightarrow> x | Some e \<Rightarrow> Some e") (simp_all add: handle_line_with_def assms(2))
qed

lemma handle_line_message:
  "le_parse env l = Inr j \<Longrightarrow> le_handler env = Some f \<Longrightarrow>
   snd (fst (handle_line_with env failed respond push caught l s h)) = snd (f j h)"
  by (simp add: handle_line_with_def split: prod.split option.split)

lemma handle_line_tame:
  assumes "tame_env env" "\<And>e s. snd (failed e s) = None" "\<And>r s. snd (respond r s) = None"
  shows "snd (handle_line_with env failed respond push caught line s h) = None"
proof (cases rule: handle_line_cases [where env = env and line = line and h = h])
  case (unread err)
  then show ?thesis using assms(2) [of err s] by (cases "failed err s") (simp add: handle_line_with_def)
next
  case (idle j)
  then show ?thesis by (simp add: handle_line_with_def)
next
  case (handled j f es x h')
  obtain s' y where r: "run_sink respond push es s = (s', y)" by fastforce
  have "y = None" using run_sink_none [of respond, OF assms(3)] r by (metis snd_conv)
  moreover have "case x of None \<Rightarrow> True | Some e \<Rightarrow> is_std_exception e"
    using assms(1) handled(2,3) unfolding tame_env_def by (metis fst_conv snd_conv)
  ultimately show ?thesis
    using handled r by (cases x) (simp_all add: handle_line_with_def)
qed

lemma tame_dump: "tame_env env \<Longrightarrow> le_dump env j \<noteq> Inl e"
  unfolding tame_env_def by (metis Inl_Inr_False)

text \<open>An environment for examples: every text is a string value, and the callback collects the texts it is given.\<close>

definition ex_line_env :: "string list line_env" where
  "ex_line_env = \<lparr>le_parse = (\<lambda>t. Inr (JStr t)), le_dump = (\<lambda>j. Inr ''{}''), le_what = (\<lambda>_. []),
     le_handler = Some (\<lambda>j h. (([], None), h @ [case j of JStr t \<Rightarrow> t | _ \<Rightarrow> []]))\<rparr>"

lemma ex_line_env_tame: "tame_env ex_line_env"
  by (simp add: tame_env_def ex_line_env_def)

end
