(* ===== verification/Http.thy ===== *)
theory Http
  imports Http_Connection Transport
begin

text \<open>
  The HTTP transport of the server (\<open>http_transport.hpp\<close>, \<open>http_transport.cpp\<close>): connections and their
  cap, the checks every request passes, sessions, posted messages and batches, event streams, and
  the legacy mode. Connections, streams and response sinks live in stores and are named by their
  addresses. The message handler is a parameter, a function on a state of its own: what it emits, in
  order, and whether it then throws. JSON texts are read and written by a library: reading is
  \<open>he_parse\<close>, writing is \<open>he_dump\<close>, which throws on text that is not UTF-8.
\<close>

section \<open>State\<close>

datatype http_mode = SSE | StreamableHttp

record http_config =
  cfg_mode :: http_mode
  cfg_host :: string
  cfg_path :: string
  cfg_sse_path :: string
  cfg_message_path :: string
  cfg_max_body :: nat
  cfg_queue_max :: "64 word"
  cfg_queue_policy :: queue_overflow_policy
  cfg_max_connections :: nat
  cfg_max_headers :: nat
  cfg_max_line :: nat
  cfg_max_sessions :: nat
  cfg_idle_timeout :: int
  cfg_enforce_host :: bool
  cfg_port :: int
  cfg_read_timeout :: int

definition default_config :: http_config where
  "default_config = \<lparr>cfg_mode = StreamableHttp, cfg_host = ''127.0.0.1'', cfg_path = ''/mcp'', cfg_sse_path = ''/sse'',
     cfg_message_path = ''/messages'', cfg_max_body = 1024 * 1024, cfg_queue_max = 0, cfg_queue_policy = DropNewest,
     cfg_max_connections = 1024, cfg_max_headers = 100, cfg_max_line = 16 * 1024, cfg_max_sessions = 256,
     cfg_idle_timeout = 3600000, cfg_enforce_host = True, cfg_port = 3000, cfg_read_timeout = 30000\<rparr>"

record sse_connection =
  sse_conn :: nat
  sse_active :: bool

record http_session =
  hs_id :: string
  hs_initialized :: bool
  hs_streams :: "nat list"
  hs_last_activity :: int

record response_sink =
  sk_conn :: nat
  sk_session :: string
  sk_written :: bool
  sk_first :: "json option"

text \<open>The acceptor: closed, or open with its local port if the system can tell it. \<open>ht_sweep\<close> is the time
  at which the pending wait of the sweep timer ends, \<open>ht_accepting\<close> tells that an \<open>async_accept\<close> is pending.\<close>

datatype acceptor = AcceptorOpen "int option" | AcceptorClosed

record http_transport =
  ht_config :: http_config
  ht_running :: bool
  ht_count :: nat
  ht_conns :: "http_connection list"
  ht_streams :: "sse_connection list"
  ht_sessions :: "(string \<times> http_session) list"
  ht_legacy :: "nat list"
  ht_sinks :: "response_sink list"
  ht_written :: "(nat \<times> string) list"
  ht_log :: "string list"
  ht_undefined :: bool
  ht_io :: bool
  ht_on_error :: bool
  ht_errors :: "string list"
  ht_acceptor :: "acceptor option"
  ht_accepting :: bool
  ht_sweep :: "int option"

record 'h http_env =
  he_parse :: "string \<Rightarrow> string + json"
  he_dump :: "json \<Rightarrow> string res"
  he_what :: "json_error \<Rightarrow> string"
  he_now :: int
  he_session_id :: string
  he_handler :: "(bool \<Rightarrow> json \<Rightarrow> string \<Rightarrow> 'h \<Rightarrow> (emission list \<times> bool) \<times> 'h) option"

definition HttpTransport :: "http_config \<Rightarrow> http_transport" where
  "HttpTransport cfg = \<lparr>ht_config = cfg, ht_running = False, ht_count = 0, ht_conns = [], ht_streams = [],
     ht_sessions = [], ht_legacy = [], ht_sinks = [], ht_written = [], ht_log = [], ht_undefined = False,
     ht_io = False, ht_on_error = False, ht_errors = [], ht_acceptor = None, ht_accepting = False, ht_sweep = None\<rparr>"


section \<open>Connections\<close>

definition upd_conn :: "nat \<Rightarrow> (http_connection \<Rightarrow> http_connection) \<Rightarrow> http_transport \<Rightarrow> http_transport" where
  "upd_conn a f s = s\<lparr>ht_conns := (ht_conns s)[a := f (ht_conns s ! a)]\<rparr>"

definition upd_stream :: "nat \<Rightarrow> (sse_connection \<Rightarrow> sse_connection) \<Rightarrow> http_transport \<Rightarrow> http_transport" where
  "upd_stream k f s = s\<lparr>ht_streams := (ht_streams s)[k := f (ht_streams s ! k)]\<rparr>"

definition upd_session :: "string \<Rightarrow> (http_session \<Rightarrow> http_session) \<Rightarrow> http_transport \<Rightarrow> http_transport" where
  "upd_session sid f s =
     (case map_of (ht_sessions s) sid of None \<Rightarrow> s
      | Some h \<Rightarrow> s\<lparr>ht_sessions := oset sid (f h) (ht_sessions s)\<rparr>)"

definition unregister_sse_connection :: "nat \<Rightarrow> http_transport \<Rightarrow> http_transport" where
  "unregister_sse_connection k s =
     upd_stream k (\<lambda>c. c\<lparr>sse_active := False\<rparr>) (s\<lparr>ht_legacy := removeAll k (ht_legacy s)\<rparr>)"

definition run_disconnect :: "disconnect_action \<Rightarrow> http_transport \<Rightarrow> http_transport" where
  "run_disconnect d s =
     (case d of NoAction \<Rightarrow> s
      | LeaveSession sid k \<Rightarrow> upd_session sid (\<lambda>h. h\<lparr>hs_streams := removeAll k (hs_streams h)\<rparr>) s
      | LeaveLegacy k \<Rightarrow> unregister_sse_connection k s)"

text \<open>\<open>HttpConnection::on_error\<close>: the first call releases the slot and runs \<open>on_disconnect\<close>.\<close>

definition release_slot :: "http_transport \<Rightarrow> http_transport" where
  "release_slot s = (if ht_count s > 0 then s\<lparr>ht_count := ht_count s - 1\<rparr> else s)"

definition conn_on_error :: "nat \<Rightarrow> http_transport \<Rightarrow> http_transport" where
  "conn_on_error a s =
     (let c = ht_conns s ! a in
      if \<not> hc_active c then s
      else
        let s1 = upd_conn a (\<lambda>c. c\<lparr>hc_active := False\<rparr>) s;
            s2 = (if hc_release c then release_slot s1 else s1)
        in run_disconnect (hc_disc c) s2)"

text \<open>\<open>enqueue_write\<close> hands the data to the connection's queue; what the queue accepts is recorded.
  When the queue closes, the connection fails. \<open>locked\<close> tells that the caller holds the lock that
  \<open>on_disconnect\<close> takes: a thread must not lock a \<open>std::shared_mutex\<close> it holds.\<close>

definition needs_lock :: "disconnect_action \<Rightarrow> bool" where
  "needs_lock d \<longleftrightarrow> d \<noteq> NoAction"

definition enqueue_write :: "bool \<Rightarrow> nat \<Rightarrow> string \<Rightarrow> http_transport \<Rightarrow> http_transport" where
  "enqueue_write locked a d s =
     (case enqueue d (hc_queue (ht_conns s ! a)) of
        (Refused, q) \<Rightarrow> s
      | (Stored arm, q) \<Rightarrow> (upd_conn a (\<lambda>c. c\<lparr>hc_queue := q\<rparr>) s)\<lparr>ht_written := ht_written s @ [(a, d)]\<rparr>
      | (OverflowClose, q) \<Rightarrow>
          let s1 = upd_conn a (\<lambda>c. c\<lparr>hc_queue := q\<rparr>) s; c = ht_conns s ! a in
          if locked \<and> hc_active c \<and> needs_lock (hc_disc c) then s1\<lparr>ht_undefined := True\<rparr>
          else conn_on_error a s1)"

definition conn_write :: "nat \<Rightarrow> string \<Rightarrow> http_transport \<Rightarrow> http_transport" where
  "conn_write = enqueue_write False"

definition deactivate :: "nat \<Rightarrow> http_transport \<Rightarrow> http_transport" where
  "deactivate a = upd_conn a (\<lambda>c. c\<lparr>hc_active := False\<rparr>)"

definition new_connection :: "http_config \<Rightarrow> http_connection" where
  "new_connection cfg = HttpConnection\<lparr>hc_max_body := cfg_max_body cfg, hc_max_headers := cfg_max_headers cfg,
     hc_max_line := cfg_max_line cfg, hc_queue := make_write_queue (cfg_queue_max cfg) (cfg_queue_policy cfg),
     hc_release := True, hc_read_timeout := cfg_read_timeout cfg\<rparr>"

text \<open>One accepted socket: \<open>None\<close> when the cap is reached and the socket is turned away.\<close>

definition accept_connection :: "http_transport \<Rightarrow> nat option \<times> http_transport" where
  "accept_connection s =
     (let cfg = ht_config s in
      if cfg_max_connections cfg > 0 \<and> ht_count s \<ge> cfg_max_connections cfg then (None, s)
      else (Some (length (ht_conns s)),
        s\<lparr>ht_conns := ht_conns s @ [new_connection cfg], ht_count := ht_count s + 1\<rparr>))"

text \<open>Closing streams outside the lock: queue, socket, then \<open>on_error\<close>.\<close>

definition close_stream :: "nat \<Rightarrow> http_transport \<Rightarrow> http_transport" where
  "close_stream k s =
     (let a = sse_conn (ht_streams s ! k) in
      conn_on_error a (upd_conn a (\<lambda>c. c\<lparr>hc_queue := wq_shutdown (hc_queue c), hc_open := False\<rparr>) s))"

definition deactivate_streams :: "nat list \<Rightarrow> http_transport \<Rightarrow> http_transport" where
  "deactivate_streams ks s = fold (\<lambda>k. upd_stream k (\<lambda>c. c\<lparr>sse_active := False\<rparr>)) ks s"


section \<open>Pushing events\<close>

definition sse_frame :: "string \<Rightarrow> string" where
  "sse_frame text = ''data: '' @ text @ [lf, lf]"

definition sse_push :: "nat \<Rightarrow> string \<Rightarrow> http_transport \<Rightarrow> http_transport" where
  "sse_push k frame s =
     (if \<not> sse_active (ht_streams s ! k) then s else enqueue_write True (sse_conn (ht_streams s ! k)) frame s)"

definition push_all :: "nat list \<Rightarrow> string \<Rightarrow> http_transport \<Rightarrow> http_transport" where
  "push_all ks frame s = fold (\<lambda>k. sse_push k frame) ks s"

definition push_to_sse_connections :: "'h http_env \<Rightarrow> json \<Rightarrow> http_transport \<Rightarrow> http_transport \<times> exn option" where
  "push_to_sse_connections env m s =
     (case he_dump env m of Inl e \<Rightarrow> (s, Some e) | Inr t \<Rightarrow> (push_all (ht_legacy s) (sse_frame t) s, None))"

definition push_to_session_sse :: "'h http_env \<Rightarrow> string \<Rightarrow> json \<Rightarrow> http_transport \<Rightarrow> http_transport \<times> exn option" where
  "push_to_session_sse env sid m s =
     (case he_dump env m of Inl e \<Rightarrow> (s, Some e)
      | Inr t \<Rightarrow>
          (case map_of (ht_sessions s) sid of None \<Rightarrow> (s, None)
           | Some h \<Rightarrow> (push_all (hs_streams h) (sse_frame t) s, None)))"

definition push_to_all_sessions :: "'h http_env \<Rightarrow> json \<Rightarrow> http_transport \<Rightarrow> http_transport \<times> exn option" where
  "push_to_all_sessions env m s =
     (case he_dump env m of Inl e \<Rightarrow> (s, Some e)
      | Inr t \<Rightarrow> (push_all (concat (map (\<lambda>(i, h). hs_streams h) (ht_sessions s))) (sse_frame t) s, None))"

definition send_message :: "'h http_env \<Rightarrow> json \<Rightarrow> http_transport \<Rightarrow> http_transport \<times> exn option" where
  "send_message env m s =
     (if cfg_mode (ht_config s) = SSE then push_to_sse_connections env m s else push_to_all_sessions env m s)"

definition send_to_session :: "'h http_env \<Rightarrow> string \<Rightarrow> json \<Rightarrow> http_transport \<Rightarrow> http_transport \<times> exn option" where
  "send_to_session env sid m s =
     (if cfg_mode (ht_config s) = SSE then push_to_sse_connections env m s else push_to_session_sse env sid m s)"


section \<open>Sessions\<close>

definition find_session :: "string \<Rightarrow> http_transport \<Rightarrow> http_session option" where
  "find_session sid s = (if sid = [] then None else map_of (ht_sessions s) sid)"

definition create_session :: "'h http_env \<Rightarrow> http_transport \<Rightarrow> string option \<times> http_transport" where
  "create_session env s =
     (if cfg_max_sessions (ht_config s) > 0 \<and> length (ht_sessions s) \<ge> cfg_max_sessions (ht_config s) then (None, s)
      else
        let sid = he_session_id env in
        (Some sid, s\<lparr>ht_sessions := oset sid \<lparr>hs_id = sid, hs_initialized = False, hs_streams = [],
            hs_last_activity = he_now env\<rparr> (ht_sessions s)\<rparr>))"

definition erase_session :: "string \<Rightarrow> http_transport \<Rightarrow> http_transport" where
  "erase_session sid s = s\<lparr>ht_sessions := oerase sid (ht_sessions s)\<rparr>"

text \<open>The sweep timer: its period is the idle timeout, but at least a second.\<close>

definition arm_session_sweep :: "'h http_env \<Rightarrow> http_transport \<Rightarrow> http_transport" where
  "arm_session_sweep env s =
     (if cfg_idle_timeout (ht_config s) \<le> 0 \<or> \<not> ht_io s then s
      else
        let period = cfg_idle_timeout (ht_config s); period' = (if period < 1000 then 1000 else period)
        in s\<lparr>ht_sweep := Some (he_now env + period')\<rparr>)"

definition sweep_sessions :: "'h http_env \<Rightarrow> bool \<Rightarrow> http_transport \<Rightarrow> http_transport" where
  "sweep_sessions env ec s =
     (if ec \<or> \<not> ht_running s then s
      else
        let dead = filter (\<lambda>(i, h). he_now env - hs_last_activity h > cfg_idle_timeout (ht_config s)) (ht_sessions s);
            streams = concat (map (\<lambda>(i, h). hs_streams h) dead);
            s1 = deactivate_streams streams s;
            s2 = s1\<lparr>ht_sessions := filter (\<lambda>(i, h). \<not> he_now env - hs_last_activity h > cfg_idle_timeout (ht_config s))
                    (ht_sessions s)\<rparr>
        in arm_session_sweep env (fold close_stream streams s2))"

definition stop :: "http_transport \<Rightarrow> http_transport" where
  "stop s =
     (let legacy = ht_legacy s;
          s1 = deactivate_streams legacy (s\<lparr>ht_running := False, ht_sweep := None, ht_legacy := []\<rparr>);
          s2 = fold close_stream legacy s1;
          streams = concat (map (\<lambda>(i, h). hs_streams h) (ht_sessions s2));
          s3 = (deactivate_streams streams s2)\<lparr>ht_sessions := []\<rparr>;
          s4 = fold close_stream streams s3
      in s4\<lparr>ht_acceptor := map_option (\<lambda>_. AcceptorClosed) (ht_acceptor s4)\<rparr>)"


section \<open>Handling a request\<close>

definition header :: "http_connection \<Rightarrow> string \<Rightarrow> string" where
  "header c k = (case map_of (hc_headers c) k of None \<Rightarrow> [] | Some v \<Rightarrow> v)"

definition session_header :: "string \<Rightarrow> (string \<times> string) list" where
  "session_header sid = (if sid = [] then [] else [(''mcp-session-id'', sid)])"

text \<open>A response with a JSON body; writing the body may throw.\<close>

definition write_json ::
    "'h http_env \<Rightarrow> nat \<Rightarrow> nat \<Rightarrow> json \<Rightarrow> (string \<times> string) list \<Rightarrow> http_transport \<Rightarrow> http_transport \<times> exn option" where
  "write_json env a status j hdrs s =
     (case he_dump env j of Inl e \<Rightarrow> (s, Some e)
      | Inr t \<Rightarrow> (conn_write a (build_http_response status ''application/json'' t hdrs) s, None))"

definition write_text :: "nat \<Rightarrow> nat \<Rightarrow> string \<Rightarrow> http_transport \<Rightarrow> http_transport" where
  "write_text a status text s = conn_write a (build_http_response status ''text/plain'' text []) s"

text \<open>The response sink of a posted message: the first response is the body of the HTTP response,
  every later one an event of the session.\<close>

definition call_sink :: "'h http_env \<Rightarrow> nat \<Rightarrow> json \<Rightarrow> http_transport \<Rightarrow> http_transport \<times> exn option" where
  "call_sink env k resp s =
     (let sk = ht_sinks s ! k in
      if \<not> sk_written sk then
        write_json env (sk_conn sk) 200 resp (session_header (sk_session sk))
          (s\<lparr>ht_sinks := (ht_sinks s)[k := sk\<lparr>sk_written := True, sk_first := Some resp\<rparr>]\<rparr>)
      else send_to_session env (sk_session sk) resp s)"

text \<open>What the handler emits, until the sink throws; a push that throws is the handler's business.\<close>

fun run_emissions :: "'h http_env \<Rightarrow> nat \<Rightarrow> emission list \<Rightarrow> http_transport \<Rightarrow> http_transport \<times> bool" where
  "run_emissions env k [] s = (s, False)"
| "run_emissions env k (Respond r # es) s =
     (case call_sink env k r s of (s', None) \<Rightarrow> run_emissions env k es s' | (s', Some e) \<Rightarrow> (s', True))"
| "run_emissions env k (PushSession sid m # es) s = run_emissions env k es (fst (send_to_session env sid m s))"
| "run_emissions env k (PushAll m # es) s = run_emissions env k es (fst (send_message env m s))"

definition handle_options :: "nat \<Rightarrow> http_transport \<Rightarrow> http_transport" where
  "handle_options a s =
     (let origin = header (ht_conns s ! a) ''origin'' in
      conn_write a (build_http_response 204 ''text/plain'' []
        ([(''Access-Control-Allow-Methods'', ''GET, POST, DELETE, OPTIONS''),
          (''Access-Control-Allow-Headers'', ''Content-Type, mcp-session-id''),
          (''Access-Control-Max-Age'', ''86400'')]
         @ (if origin = [] then [] else [(''Access-Control-Allow-Origin'', origin)]))) s)"

definition message_method :: "parsed_message \<Rightarrow> string" where
  "message_method m = (case m of PRequest r \<Rightarrow> req_method r | PNotification n \<Rightarrow> notif_method n | _ \<Rightarrow> [])"

text \<open>The session of a posted message: the id and whether it was created for it, or a refusal that
  has been written.\<close>

definition resolve_session ::
    "'h http_env \<Rightarrow> nat \<Rightarrow> string \<Rightarrow> string \<Rightarrow> http_transport \<Rightarrow> (http_transport \<times> exn option) + (string \<times> http_transport)" where
  "resolve_session env a m req_sid s =
     (if m = METHOD_INITIALIZE then
        (if req_sid \<noteq> [] then Inl (write_text a 400 ''Session already exists'' s, None)
         else case create_session env s of
           (None, s1) \<Rightarrow> Inl (write_text a 429 ''Too many sessions'' s1, None)
         | (Some sid, s1) \<Rightarrow> Inr (sid, s1))
      else if req_sid = [] then
        Inl (write_json env a 400 (make_error_response_null_id INVALID_PARAMS ''Missing Mcp-Session-Id header'' None) [] s)
      else case find_session req_sid s of
        None \<Rightarrow> Inl (write_text a 404 ''Session not found'' s, None)
      | Some h \<Rightarrow>
          if \<not> hs_initialized h
          then Inl (write_json env a 400 (make_error_response_null_id SERVER_NOT_INITIALIZED ''Session not initialized'' None) [] s)
          else Inr (hs_id h, s))"

text \<open>Running the handler and what follows: a new session stays only when the handler answered
  without an error, and notifications are acknowledged with 202.\<close>

definition run_handler ::
    "'h http_env \<Rightarrow> nat \<Rightarrow> json \<Rightarrow> parsed_message \<Rightarrow> string \<Rightarrow> http_transport \<Rightarrow> 'h \<Rightarrow> http_transport \<times> 'h" where
  "run_handler env a msg parsed sid s h =
     (let new = (message_method parsed = METHOD_INITIALIZE) in
      case he_handler env of
        None \<Rightarrow> (write_text a 500 ''No handler configured'' (if new then erase_session sid s else s), h)
      | Some f \<Rightarrow>
          let k = length (ht_sinks s);
              s1 = s\<lparr>ht_sinks := ht_sinks s @ [\<lparr>sk_conn = a, sk_session = sid, sk_written = False, sk_first = None\<rparr>]\<rparr>
          in case f False msg sid h of ((es, throws), h') \<Rightarrow>
             (case run_emissions env k es s1 of (s2, thrown) \<Rightarrow>
                let handler_ok = (\<not> throws \<and> \<not> thrown); sk = ht_sinks s2 ! k;
                    s3 = (if new then
                            (if handler_ok \<and> sk_written sk \<and> (case sk_first sk of None \<Rightarrow> False | Some j \<Rightarrow> \<not> jcontains j ''error'')
                             then upd_session sid (\<lambda>x. x\<lparr>hs_initialized := True\<rparr>) s2
                             else erase_session sid s2)
                          else s2)
                in (if handler_ok \<and> (case parsed of PNotification n \<Rightarrow> True | _ \<Rightarrow> False)
                    then conn_write a (build_http_response 202 ''text/plain'' [] (session_header sid)) s3 else s3, h')))"

fun batch_response :: "emission list \<Rightarrow> json option" where
  "batch_response [] = None"
| "batch_response (Respond r # es) = Some r"
| "batch_response (_ # es) = batch_response es"

text \<open>The elements of a batch, in order; the responses go to an array, the rest to the streams.\<close>

fun run_batch ::
    "'h http_env \<Rightarrow> (bool \<Rightarrow> json \<Rightarrow> string \<Rightarrow> 'h \<Rightarrow> (emission list \<times> bool) \<times> 'h) \<Rightarrow> string \<Rightarrow> json list \<Rightarrow> http_transport \<Rightarrow> 'h \<Rightarrow>
     json list \<times> http_transport \<times> 'h" where
  "run_batch env f sid [] s h = ([], s, h)"
| "run_batch env f sid (j # js) s h =
     (case f True j sid h of ((es, throws), h') \<Rightarrow>
        (case run_emissions env 0 (filter (\<lambda>e. case e of Respond _ \<Rightarrow> False | _ \<Rightarrow> True) es) s of (s', _) \<Rightarrow>
           (case run_batch env f sid js s' h' of (rs, s'', h'') \<Rightarrow>
              (case batch_response es of None \<Rightarrow> rs | Some r \<Rightarrow> r # rs, s'', h''))))"

definition handle_post_batch ::
    "'h http_env \<Rightarrow> nat \<Rightarrow> json list \<Rightarrow> string \<Rightarrow> http_transport \<Rightarrow> 'h \<Rightarrow> (http_transport \<times> 'h) \<times> exn option" where
  "handle_post_batch env a batch req_sid s h =
     (let refuse = (\<lambda>(s', e). ((s', h), e)) in
      if batch = [] then
        refuse (write_json env a 200 (make_error_response_null_id INVALID_REQUEST ''Invalid Request'' None) [] s)
      else if req_sid = [] then
        refuse (write_json env a 400 (make_error_response_null_id INVALID_PARAMS ''Missing Mcp-Session-Id header'' None) [] s)
      else case find_session req_sid s of
        None \<Rightarrow> refuse (write_text a 404 ''Session not found'' s, None)
      | Some ses \<Rightarrow>
          if \<not> hs_initialized ses then
            refuse (write_json env a 400 (make_error_response_null_id SERVER_NOT_INITIALIZED ''Session not initialized'' None) [] s)
          else
            case he_handler env of
              None \<Rightarrow> ((conn_write a (build_http_response 202 ''text/plain'' [] (session_header (hs_id ses))) s, h), None)
            | Some f \<Rightarrow>
                (case run_batch env f (hs_id ses) batch s h of (rs, s', h') \<Rightarrow>
                   if rs = [] then ((conn_write a (build_http_response 202 ''text/plain'' [] (session_header (hs_id ses))) s', h'), None)
                   else (case write_json env a 200 (JArr rs) (session_header (hs_id ses)) s' of (s'', e) \<Rightarrow> ((s'', h'), e))))"

text \<open>A single posted message.\<close>

definition post_message ::
    "'h http_env \<Rightarrow> nat \<Rightarrow> json \<Rightarrow> string \<Rightarrow> http_transport \<Rightarrow> 'h \<Rightarrow> (http_transport \<times> 'h) \<times> exn option" where
  "post_message env a msg req_sid s h =
     (case parse_message (he_what env) msg of
        PError k \<Rightarrow>
          (case write_json env a 200 (make_error_response (err_id k) (ed_code (err_error k)) (ed_message (err_error k))
              (ed_data (err_error k))) (session_header req_sid) s of (s', e) \<Rightarrow> ((s', h), e))
      | parsed \<Rightarrow>
          (case resolve_session env a (message_method parsed) req_sid s of
             Inl (s', e) \<Rightarrow> ((s', h), e)
           | Inr (sid, s') \<Rightarrow>
               (run_handler env a msg parsed sid
                  (upd_session sid (\<lambda>x. x\<lparr>hs_last_activity := he_now env\<rparr>) s') h, None)))"

definition handle_post :: "'h http_env \<Rightarrow> nat \<Rightarrow> http_transport \<Rightarrow> 'h \<Rightarrow> (http_transport \<times> 'h) \<times> exn option" where
  "handle_post env a s h =
     (let c = ht_conns s ! a; accept = header c ''accept''; req_sid = header c ''mcp-session-id'' in
      if \<not> str_contains (header c ''content-type'') ''application/json''
      then ((write_text a 400 ''Content-Type must be application/json'' s, h), None)
      else if \<not> str_contains accept ''application/json'' \<and> \<not> str_contains accept ''text/event-stream'' \<and> accept \<noteq> []
      then ((write_text a 406 ''Accept header must include application/json or text/event-stream'' s, h), None)
      else case he_parse env (hc_body c) of
        Inl err \<Rightarrow>
          (case write_json env a 400 (make_error_response_null_id PARSE_ERROR ''Parse error'' None) []
              (s\<lparr>ht_log := ht_log s @ [''JSON parse error: '' @ err]\<rparr>) of (s', e) \<Rightarrow> ((s', h), e))
      | Inr (JArr batch) \<Rightarrow> handle_post_batch env a batch req_sid s h
      | Inr msg \<Rightarrow> post_message env a msg req_sid s h)"

definition stream_head :: "(string \<times> string) list \<Rightarrow> string" where
  "stream_head extra = concat (map (\<lambda>l. l @ crlf)
     ([''HTTP/1.1 200 OK'', ''Content-Type: text/event-stream'', ''Cache-Control: no-cache'', ''Connection: keep-alive'']
      @ map (\<lambda>(k, v). k @ '': '' @ sanitize_header_value v) extra)) @ crlf"

definition handle_get_sse :: "'h http_env \<Rightarrow> nat \<Rightarrow> http_transport \<Rightarrow> http_transport" where
  "handle_get_sse env a s =
     (let c = ht_conns s ! a; origin = header c ''origin'' in
      case find_session (header c ''mcp-session-id'') s of
        None \<Rightarrow> deactivate a (write_text a 404 ''Session not found'' s)
      | Some ses \<Rightarrow>
          if \<not> str_contains (header c ''accept'') ''text/event-stream''
          then deactivate a (write_text a 400 ''Accept header must include text/event-stream'' s)
          else
            let k = length (ht_streams s); sid = hs_id ses;
                s1 = upd_conn a (\<lambda>c. c\<lparr>hc_disc := LeaveSession sid k, hc_streaming := True\<rparr>)
                       (s\<lparr>ht_streams := ht_streams s @ [\<lparr>sse_conn = a, sse_active = True\<rparr>]\<rparr>);
                s2 = conn_write a (stream_head ([(''mcp-session-id'', sid)]
                       @ (if origin = [] then [] else [(''Access-Control-Allow-Origin'', origin)])) @ '': connected'' @ [lf, lf]) s1
            in upd_session sid (\<lambda>x. x\<lparr>hs_streams := hs_streams x @ [k], hs_last_activity := he_now env\<rparr>) s2)"

definition handle_delete :: "nat \<Rightarrow> http_transport \<Rightarrow> http_transport" where
  "handle_delete a s =
     (case find_session (header (ht_conns s ! a) ''mcp-session-id'') s of
        None \<Rightarrow> enqueue_write True a (build_http_response 404 ''text/plain'' ''Session not found'' []) s
      | Some ses \<Rightarrow>
          let s1 = erase_session (header (ht_conns s ! a) ''mcp-session-id'') (deactivate_streams (hs_streams ses) s)
          in write_text a 200 [] (fold close_stream (hs_streams ses) s1))"

definition handle_sse_connect :: "nat \<Rightarrow> http_transport \<Rightarrow> http_transport" where
  "handle_sse_connect a s =
     (let k = length (ht_streams s);
          s1 = upd_conn a (\<lambda>c. c\<lparr>hc_disc := LeaveLegacy k\<rparr>)
                 (s\<lparr>ht_streams := ht_streams s @ [\<lparr>sse_conn = a, sse_active = True\<rparr>]\<rparr>);
          s2 = conn_write a (stream_head [] @ ''event: endpoint'' @ [lf] @ ''data: '' @ cfg_message_path (ht_config s) @ [lf, lf]) s1
      in s2\<lparr>ht_legacy := ht_legacy s2 @ [k]\<rparr>)"

text \<open>The responses of the legacy mode go to every stream; an exception of the handler, and of writing
  a response as text, leaves the function (a handler that reads JSON texts of its own and lets a parse
  error out, which the function would answer with 400, is not considered).\<close>

fun legacy_emissions :: "'h http_env \<Rightarrow> emission list \<Rightarrow> http_transport \<Rightarrow> http_transport \<times> exn option" where
  "legacy_emissions env [] s = (s, None)"
| "legacy_emissions env (Respond r # es) s =
     (case push_to_sse_connections env r s of (s', None) \<Rightarrow> legacy_emissions env es s' | (s', Some e) \<Rightarrow> (s', Some e))"
| "legacy_emissions env (PushSession sid m # es) s = legacy_emissions env es (fst (send_to_session env sid m s))"
| "legacy_emissions env (PushAll m # es) s = legacy_emissions env es (fst (send_message env m s))"

definition handle_sse_message :: "'h http_env \<Rightarrow> nat \<Rightarrow> http_transport \<Rightarrow> 'h \<Rightarrow> (http_transport \<times> 'h) \<times> exn option" where
  "handle_sse_message env a s h =
     (case he_parse env (hc_body (ht_conns s ! a)) of
        Inl err \<Rightarrow> ((write_text a 400 ''Invalid JSON'' (s\<lparr>ht_log := ht_log s @ [''JSON parse error: '' @ err]\<rparr>), h), None)
      | Inr msg \<Rightarrow>
          (case he_handler env of
             None \<Rightarrow> ((write_text a 202 [] s, h), None)
           | Some f \<Rightarrow>
               (case f False msg [] h of ((es, throws), h') \<Rightarrow>
                  (case legacy_emissions env es s of
                     (s', Some e) \<Rightarrow> ((s', h'), Some e)
                   | (s', None) \<Rightarrow>
                       if throws then ((s', h'), Some OtherEx) else ((write_text a 202 [] s', h'), None)))))"

definition handle_request :: "'h http_env \<Rightarrow> nat \<Rightarrow> http_transport \<Rightarrow> 'h \<Rightarrow> (http_transport \<times> 'h) \<times> exn option" where
  "handle_request env a s h =
     (let c = ht_conns s ! a; cfg = ht_config s; origin = header c ''origin''; path = before_char (CHR ''?'') (hc_url c) in
      if cfg_enforce_host cfg \<and> \<not> is_host_allowed (header c ''host'') (cfg_host cfg)
      then ((deactivate a (write_text a 403 ''Forbidden: Host not allowed'' s), h), None)
      else if origin \<noteq> [] \<and> \<not> is_origin_allowed origin (cfg_host cfg)
      then ((deactivate a (write_text a 403 ''Forbidden: Origin not allowed'' s), h), None)
      else if hc_method c = ''OPTIONS'' then ((handle_options a s, h), None)
      else if cfg_mode cfg = StreamableHttp \<and> path = cfg_path cfg \<and> hc_method c = ''POST'' then handle_post env a s h
      else if cfg_mode cfg = StreamableHttp \<and> path = cfg_path cfg \<and> hc_method c = ''GET'' then ((handle_get_sse env a s, h), None)
      else if cfg_mode cfg = StreamableHttp \<and> path = cfg_path cfg \<and> hc_method c = ''DELETE'' then ((handle_delete a s, h), None)
      else if cfg_mode cfg = SSE \<and> path = cfg_sse_path cfg \<and> hc_method c = ''GET'' then ((handle_sse_connect a s, h), None)
      else if cfg_mode cfg = SSE \<and> path = cfg_message_path cfg \<and> hc_method c = ''POST'' then handle_sse_message env a s h
      else ((deactivate a (write_text a 404 ''Not Found'' s), h), None))"

text \<open>What a read completion does when the parser has paused after a message: dispatch and reset.\<close>

definition request_parsed :: "'h http_env \<Rightarrow> nat \<Rightarrow> http_transport \<Rightarrow> 'h \<Rightarrow> (http_transport \<times> 'h) \<times> exn option" where
  "request_parsed env a s h =
     (let c = ht_conns s ! a in
      case (if hc_complete c \<and> hc_method c \<noteq> [] then handle_request env a s h else ((s, h), None)) of
        ((s', h'), None) \<Rightarrow> ((upd_conn a reset_request s', h'), None)
      | ((s', h'), Some e) \<Rightarrow> ((s', h'), Some e))"

text \<open>A read begins with arming the timer, unless the connection is an event stream; it ends, whatever it
  gave, with cancelling the timer.\<close>

definition start_read :: "'h http_env \<Rightarrow> nat \<Rightarrow> http_transport \<Rightarrow> http_transport" where
  "start_read env a =
     upd_conn a (\<lambda>c. (if hc_read_timeout c > 0 \<and> \<not> hc_streaming c
                      then c\<lparr>hc_timer := Some (he_now env + hc_read_timeout c)\<rparr> else c)\<lparr>hc_reading := True\<rparr>)"

definition read_completed :: "nat \<Rightarrow> http_transport \<Rightarrow> http_transport" where
  "read_completed a =
     upd_conn a (\<lambda>c. (if hc_read_timeout c > 0 then c\<lparr>hc_timer := None\<rparr> else c)\<lparr>hc_reading := False\<rparr>)"

text \<open>The wait of the timer ends; later its handler runs, closes the socket and fails the connection.\<close>

definition timer_elapsed :: "'h http_env \<Rightarrow> nat \<Rightarrow> http_transport \<Rightarrow> http_transport" where
  "timer_elapsed env a s =
     (case hc_timer (ht_conns s ! a) of
        Some due \<Rightarrow>
          if due \<le> he_now env then upd_conn a (\<lambda>c. c\<lparr>hc_timer := None, hc_expired := hc_expired c + 1\<rparr>) s else s
      | None \<Rightarrow> s)"

definition read_timed_out :: "nat \<Rightarrow> http_transport \<Rightarrow> http_transport" where
  "read_timed_out a s =
     (if hc_expired (ht_conns s ! a) = 0 then s
      else conn_on_error a (upd_conn a (\<lambda>c. c\<lparr>hc_expired := hc_expired c - 1, hc_open := False\<rparr>) s))"

text \<open>The other ends of a read: an error of the socket, and an error of the parser.\<close>

definition read_failed :: "nat \<Rightarrow> http_transport \<Rightarrow> http_transport" where
  "read_failed a s = conn_on_error a (read_completed a s)"

definition bad_request :: "nat \<Rightarrow> http_transport \<Rightarrow> http_transport" where
  "bad_request a s = conn_on_error a (write_text a 400 ''Bad request'' s)"


section \<open>Starting, accepting, sweeping\<close>

definition http_report :: "string \<Rightarrow> http_transport \<Rightarrow> http_transport" where
  "http_report e s = (if ht_on_error s then s\<lparr>ht_errors := ht_errors s @ [e]\<rparr> else s)"

definition do_accept :: "http_transport \<Rightarrow> http_transport" where
  "do_accept s = s\<lparr>ht_accepting := True\<rparr>"

text \<open>\<open>start\<close>. \<open>address\<close> tells whether a text is an address, \<open>listen\<close> what opening, binding and listening gave:
  the exception of the first that fails with the state of the acceptor, or the local port.\<close>

definition start_http ::
    "(string \<Rightarrow> bool) \<Rightarrow> (acceptor \<times> exn) + int option \<Rightarrow> 'h http_env \<Rightarrow> http_transport \<Rightarrow> http_transport \<times> exn option" where
  "start_http address listen env s =
     (let cfg = ht_config s in
      if \<not> ht_io s then (http_report ''HttpTransport: no io_context set'' s, None)
      else if cfg_port cfg < 0 \<or> cfg_port cfg > 65535
      then (http_report (''HttpTransport: invalid port '' @ int_to_dec (cfg_port cfg)) s, None)
      else if \<not> address (cfg_host cfg) \<or> cfg_host cfg = []
      then (http_report (''HttpTransport: invalid bind host '' @ [CHR 0x27] @ cfg_host cfg @ [CHR 0x27]) s, None)
      else case listen of
        Inl (acc, e) \<Rightarrow> (s\<lparr>ht_acceptor := Some acc\<rparr>, Some e)
      | Inr port \<Rightarrow>
          let s1 = s\<lparr>ht_acceptor := Some (AcceptorOpen port), ht_running := True\<rparr>;
              s2 = (if cfg_read_timeout cfg \<le> 0
                    then s1\<lparr>ht_log := ht_log s1 @ [''[cppmcp] HttpTransport: read_timeout is 0 (slowloris guard disabled)'']\<rparr>
                    else s1)
          in (do_accept (arm_session_sweep env s2), None))"

definition get_port :: "http_transport \<Rightarrow> int" where
  "get_port s = (case ht_acceptor s of Some (AcceptorOpen (Some p)) \<Rightarrow> p | _ \<Rightarrow> cfg_port (ht_config s))"

text \<open>The completion of \<open>async_accept\<close>; \<open>failed\<close> tells that it has an error.\<close>

definition on_accept :: "'h http_env \<Rightarrow> bool \<Rightarrow> http_transport \<Rightarrow> http_transport" where
  "on_accept env failed s =
     (let again = (\<lambda>s. if ht_running s then do_accept s else s); s0 = s\<lparr>ht_accepting := False\<rparr> in
      if failed then again s0
      else case accept_connection s0 of
        (None, s1) \<Rightarrow> again s1
      | (Some a, s1) \<Rightarrow> again (start_read env a s1))"

text \<open>The wait of the sweep timer ends.\<close>

definition sweep_due :: "'h http_env \<Rightarrow> http_transport \<Rightarrow> http_transport" where
  "sweep_due env s =
     (case ht_sweep s of
        Some due \<Rightarrow> if due \<le> he_now env then sweep_sessions env False (s\<lparr>ht_sweep := None\<rparr>) else s
      | None \<Rightarrow> s)"

definition http_set_io :: "bool \<Rightarrow> http_transport \<Rightarrow> http_transport" where
  "http_set_io io s = s\<lparr>ht_io := io\<rparr>"

definition http_set_error_handler :: "bool \<Rightarrow> http_transport \<Rightarrow> http_transport" where
  "http_set_error_handler f s = s\<lparr>ht_on_error := f\<rparr>"

end
