(* ===== verification/Http_Caps.thy ===== *)
theory Http_Caps
  imports Http Prelude
begin

text \<open>
  The caps of the HTTP transport: a step relation for everything that happens to the transport, in any
  order, and its invariant. Addresses stay valid, the sessions stay sorted by id, and no more sessions
  are kept and no more connections are active than the configuration allows.
\<close>

section \<open>Validity and calm operations\<close>

text \<open>Every address in the transport names something that exists.\<close>

definition linked :: "http_transport \<Rightarrow> bool" where
  "linked s \<longleftrightarrow> osorted (ht_sessions s)
     \<and> (\<forall>x \<in> set (ht_streams s). sse_conn x < length (ht_conns s))
     \<and> (\<forall>k \<in> set (ht_sinks s). sk_conn k < length (ht_conns s))
     \<and> (\<forall>k \<in> set (ht_legacy s). k < length (ht_streams s))
     \<and> (\<forall>e \<in> set (ht_sessions s). \<forall>k \<in> set (hs_streams (snd e)). k < length (ht_streams s))"

definition actives :: "http_transport \<Rightarrow> nat" where
  "actives s = length (filter hc_active (ht_conns s))"

text \<open>What every operation but accepting a connection and creating a session does: it adds neither a
  connection nor a session, and gives back a slot only for a connection that it makes inactive.\<close>

definition calm :: "http_transport \<Rightarrow> http_transport \<Rightarrow> bool" where
  "calm s t \<longleftrightarrow> (linked s \<longrightarrow> linked t \<and> ht_config t = ht_config s \<and> length (ht_conns t) = length (ht_conns s)
     \<and> length (ht_streams s) \<le> length (ht_streams t) \<and> length (ht_sinks s) \<le> length (ht_sinks t)
     \<and> length (ht_sessions t) \<le> length (ht_sessions s)
     \<and> ht_count t \<le> ht_count s \<and> ht_count s + actives t \<le> ht_count t + actives s)"

lemma calm_refl [simp]: "calm s s"
  by (simp add: calm_def)

lemma calm_trans: "calm s t \<Longrightarrow> calm t u \<Longrightarrow> calm s u"
  by (auto simp: calm_def)

lemma calmI: "(linked s \<Longrightarrow> calm s t) \<Longrightarrow> calm s t"
  by (auto simp: calm_def)

lemma calm_then: "calm s t \<Longrightarrow> (linked s \<Longrightarrow> calm t u) \<Longrightarrow> calm s u"
  by (auto simp: calm_def)

lemma calm_lengths:
  assumes "calm s t" "linked s"
  shows "linked t" "length (ht_conns t) = length (ht_conns s)" "length (ht_streams s) \<le> length (ht_streams t)"
    "length (ht_sinks s) \<le> length (ht_sinks t)" "ht_config t = ht_config s"
  using assms by (simp_all add: calm_def)

lemma calm_fold:
  assumes "\<And>k t. k \<in> set ks \<Longrightarrow> k < length (ht_streams t) \<Longrightarrow> calm t (f k t)"
    and "linked s \<Longrightarrow> \<forall>k \<in> set ks. k < length (ht_streams s)"
  shows "calm s (fold f ks s)"
  using assms
proof (induction ks arbitrary: s)
  case (Cons k ks)
  show ?case
  proof (rule calmI)
    assume s: "linked s"
    have k: "calm s (f k s)" using Cons.prems s by simp
    have "calm (f k s) (fold f ks (f k s))"
      using Cons.prems(1) Cons.prems(2) [OF s] calm_lengths(3) [OF k s] by (intro Cons.IH) auto
    with k show "calm s (fold f (k # ks) s)" by (simp add: calm_trans)
  qed
qed simp

lemma filter_update_le: "(P y \<Longrightarrow> P (xs ! a)) \<Longrightarrow> length (filter P (xs[a := y])) \<le> length (filter P xs)"
  by (induction xs arbitrary: a) (auto split: nat.split intro: le_SucI)

lemma filter_update_less:
  "a < length xs \<Longrightarrow> P (xs ! a) \<Longrightarrow> \<not> P y \<Longrightarrow> length (filter P xs) = Suc (length (filter P (xs[a := y])))"
  by (induction xs arbitrary: a) (auto split: nat.split simp: less_Suc_eq_0_disj)

lemma calm_fields [simp]:
  "calm s (s\<lparr>ht_written := w\<rparr>)" "calm s (s\<lparr>ht_undefined := b\<rparr>)" "calm s (s\<lparr>ht_log := l\<rparr>)" "calm s (s\<lparr>ht_running := r\<rparr>)"
  "calm s (s\<lparr>ht_sweep := d\<rparr>)" "calm s (s\<lparr>ht_acceptor := acc\<rparr>)" "calm s (s\<lparr>ht_accepting := b\<rparr>)"
  "calm s (s\<lparr>ht_errors := es\<rparr>)" "calm s (s\<lparr>ht_io := b\<rparr>)" "calm s (s\<lparr>ht_on_error := b\<rparr>)"
  by (simp_all add: calm_def linked_def actives_def)

lemma calm_set_conn: "(hc_active c \<Longrightarrow> hc_active (ht_conns s ! a)) \<Longrightarrow> calm s (s\<lparr>ht_conns := (ht_conns s)[a := c]\<rparr>)"
  by (simp add: calm_def linked_def actives_def filter_update_le)

lemma calm_upd_conn: "(\<And>c. hc_active (f c) \<Longrightarrow> hc_active c) \<Longrightarrow> calm s (upd_conn a f s)"
  by (simp add: upd_conn_def calm_set_conn)

lemma calm_upd_stream: "(\<And>c. sse_conn (f c) = sse_conn c) \<Longrightarrow> calm s (upd_stream k f s)"
  by (cases "k < length (ht_streams s)")
    (auto simp: list_update_beyond calm_def linked_def actives_def upd_stream_def dest!: set_update_subset_insert [THEN subsetD])

lemma calm_legacy_subset: "set ks \<subseteq> set (ht_legacy s) \<Longrightarrow> calm s (s\<lparr>ht_legacy := ks\<rparr>)"
  by (auto simp: calm_def linked_def actives_def)

lemma set_oset: "set (oset k v m) \<subseteq> insert (k, v) (set m)"
  by (induction k v m rule: oset.induct) auto

lemma calm_upd_session:
  assumes "\<And>h k. linked s \<Longrightarrow> k \<in> set (hs_streams (f h)) \<Longrightarrow> k \<in> set (hs_streams h) \<or> k < length (ht_streams s)"
  shows "calm s (upd_session sid f s)"
proof (cases "map_of (ht_sessions s) sid")
  case (Some h)
  have "k < length (ht_streams s)" if "linked s" "k \<in> set (hs_streams (f h))" for k
    using assms [OF that] map_of_SomeD [OF Some] that(1) by (auto simp: linked_def)
  then show ?thesis
    using Some set_oset [of sid "f h" "ht_sessions s"]
    by (fastforce simp: calm_def upd_session_def linked_def actives_def osorted_oset length_oset)
qed (simp add: upd_session_def)

lemma osorted_filter: "osorted m \<Longrightarrow> osorted (filter P m)"
  by (induction m) (auto simp: osorted_Cons)

lemma calm_filter_sessions: "calm s (s\<lparr>ht_sessions := filter P (ht_sessions s)\<rparr>)"
  by (auto simp: calm_def linked_def actives_def osorted_filter)

lemma calm_erase [simp]: "calm s (erase_session sid s)"
  by (simp add: erase_session_def oerase_def calm_filter_sessions)


section \<open>Connections, writes and streams\<close>

lemma calm_disconnect [simp]: "calm s (run_disconnect d s)"
proof (cases d)
  case (LeaveSession sid k)
  then show ?thesis by (auto simp: run_disconnect_def intro!: calm_upd_session)
next
  case (LeaveLegacy k)
  have "calm s (s\<lparr>ht_legacy := removeAll k (ht_legacy s)\<rparr>)" by (rule calm_legacy_subset) auto
  then show ?thesis
    unfolding LeaveLegacy run_disconnect_def unregister_sse_connection_def
    by (auto intro!: calm_upd_stream elim: calm_trans)
qed (simp add: run_disconnect_def)

lemma calm_release:
  assumes "a < length (ht_conns s)" "hc_active (ht_conns s ! a)"
  shows "calm s (release_slot (upd_conn a (\<lambda>c. c\<lparr>hc_active := False\<rparr>) s))"
  using filter_update_less [OF assms(1), of hc_active "(ht_conns s ! a)\<lparr>hc_active := False\<rparr>"] assms(2)
  by (auto simp: calm_def linked_def actives_def release_slot_def upd_conn_def)

lemma calm_on_error: "a < length (ht_conns s) \<Longrightarrow> calm s (conn_on_error a s)"
  unfolding conn_on_error_def Let_def
  by (auto intro: calm_trans [OF calm_release calm_disconnect] calm_trans [OF calm_upd_conn calm_disconnect])

lemma calm_enqueue:
  assumes "a < length (ht_conns s)"
  shows "calm s (enqueue_write l a d s)"
proof -
  let ?c = "\<lambda>q. upd_conn a (\<lambda>c. c\<lparr>hc_queue := q\<rparr>) s"
  have queued: "calm s (?c q)" for q by (rule calm_upd_conn) simp
  have closed: "calm s (conn_on_error a (?c q))" for q
    by (rule calm_trans [OF queued calm_on_error]) (simp add: assms upd_conn_def)
  have undefined: "calm s ((?c q)\<lparr>ht_undefined := True\<rparr>)" for q by (rule calm_trans [OF queued calm_fields(2)])
  have stored: "calm s ((?c q)\<lparr>ht_written := w\<rparr>)" for q w by (rule calm_trans [OF queued calm_fields(1)])
  show ?thesis
    using closed undefined stored unfolding enqueue_write_def Let_def by (auto split: prod.split enqueue_outcome.split)
qed

lemma calm_writes:
  assumes "a < length (ht_conns s)"
  shows "calm s (conn_write a d s)" "calm s (write_text a st body s)" "calm s (fst (write_json env a st j hs s))"
    "calm s (deactivate a s)"
  by (auto simp: conn_write_def write_text_def write_json_def deactivate_def calm_enqueue assms
      intro!: calm_upd_conn split: sum.split)

lemma calm_close_stream: "k < length (ht_streams s) \<Longrightarrow> calm s (close_stream k s)"
proof (rule calmI)
  assume "k < length (ht_streams s)" "linked s"
  then have a: "sse_conn (ht_streams s ! k) < length (ht_conns s)" by (simp add: linked_def)
  show "calm s (close_stream k s)"
    unfolding close_stream_def Let_def
    by (rule calm_trans [OF calm_upd_conn calm_on_error]) (simp_all add: a upd_conn_def)
qed

lemma calm_deactivate_streams: "calm s (deactivate_streams ks s)"
  unfolding deactivate_streams_def
proof (induction ks arbitrary: s)
  case (Cons k ks)
  have "calm s (upd_stream k (\<lambda>c. c\<lparr>sse_active := False\<rparr>) s)" by (rule calm_upd_stream) simp
  then show ?case using Cons.IH by (auto intro: calm_trans)
qed simp

lemma calm_sse_push: "k < length (ht_streams s) \<Longrightarrow> calm s (sse_push k frame s)"
  by (rule calmI) (auto simp: sse_push_def linked_def intro: calm_enqueue)

lemma calm_push_all: "(linked s \<Longrightarrow> \<forall>k \<in> set ks. k < length (ht_streams s)) \<Longrightarrow> calm s (push_all ks frame s)"
  unfolding push_all_def by (intro calm_fold calm_sse_push)

lemma linked_session: "linked s \<Longrightarrow> map_of (ht_sessions s) sid = Some h \<Longrightarrow> k \<in> set (hs_streams h) \<Longrightarrow> k < length (ht_streams s)"
  by (fastforce simp: linked_def dest: map_of_SomeD)

lemma linked_streams:
  "linked s \<Longrightarrow> \<forall>k \<in> set (concat (map (\<lambda>(i, h). hs_streams h) (ht_sessions s))). k < length (ht_streams s)"
  by (fastforce simp: linked_def)

lemma calm_push [simp]:
  "calm s (fst (push_to_sse_connections env m s))" "calm s (fst (push_to_session_sse env sid m s))"
  "calm s (fst (push_to_all_sessions env m s))" "calm s (fst (send_message env m s))" "calm s (fst (send_to_session env sid m s))"
proof -
  show sse: "calm s (fst (push_to_sse_connections env m s))"
    by (auto simp: push_to_sse_connections_def linked_def intro!: calm_push_all split: sum.split)
  show one: "calm s (fst (push_to_session_sse env sid m s))"
    by (auto simp: push_to_session_sse_def intro!: calm_push_all linked_session split: sum.split option.split)
  show every: "calm s (fst (push_to_all_sessions env m s))"
    unfolding push_to_all_sessions_def by (auto intro!: calm_push_all split: sum.split) (use linked_streams in fastforce)
  show "calm s (fst (send_message env m s))" "calm s (fst (send_to_session env sid m s))"
    using sse one every by (simp_all add: send_message_def send_to_session_def)
qed



section \<open>Requests\<close>

lemma calm_sinks:
  "(linked s \<Longrightarrow> \<forall>k \<in> set ks. sk_conn k < length (ht_conns s)) \<Longrightarrow> length (ht_sinks s) \<le> length ks \<Longrightarrow> calm s (s\<lparr>ht_sinks := ks\<rparr>)"
  by (auto simp: calm_def linked_def actives_def)

lemma calm_call_sink:
  assumes "k < length (ht_sinks s)"
  shows "calm s (fst (call_sink env k r s))"
proof (rule calmI)
  assume s: "linked s"
  let ?sk = "ht_sinks s ! k"
  let ?s = "s\<lparr>ht_sinks := (ht_sinks s)[k := ?sk\<lparr>sk_written := True, sk_first := Some r\<rparr>]\<rparr>"
  have a: "sk_conn ?sk < length (ht_conns s)" using s assms by (simp add: linked_def)
  have "calm s ?s"
    using s a by (intro calm_sinks) (auto simp: linked_def dest!: set_update_subset_insert [THEN subsetD])
  moreover have "calm ?s (fst (write_json env (sk_conn ?sk) 200 r (session_header (sk_session ?sk)) ?s))"
    by (rule calm_writes(3)) (simp add: a)
  ultimately show "calm s (fst (call_sink env k r s))"
    unfolding call_sink_def Let_def by (auto intro: calm_trans)
qed

definition no_response :: "emission \<Rightarrow> bool" where
  "no_response e \<longleftrightarrow> (case e of Respond _ \<Rightarrow> False | _ \<Rightarrow> True)"

lemma calm_emissions: "list_all no_response es \<or> k < length (ht_sinks s) \<Longrightarrow> calm s (fst (run_emissions env k es s))"
proof (induction env k es s rule: run_emissions.induct)
  case (2 env k r es s)
  then have k: "k < length (ht_sinks s)" by (simp add: no_response_def)
  show ?case
  proof (rule calmI)
    assume s: "linked s"
    obtain t x where r: "call_sink env k r s = (t, x)" by (cases "call_sink env k r s")
    have c: "calm s t" using calm_call_sink [OF k, of env r] r by simp
    have "k < length (ht_sinks t)" using calm_lengths(4) [OF c s] k by simp
    then show "calm s (fst (run_emissions env k (Respond r # es) s))"
      using "2.IH" [OF r [symmetric]] c r by (auto intro: calm_trans split: option.split)
  qed
next
  case (3 env k sid m es s)
  let ?t = "fst (send_to_session env sid m s)"
  have t: "calm s ?t" by simp
  have "list_all no_response es \<or> k < length (ht_sinks ?t)" if "linked s"
    using "3.prems" calm_lengths(4) [OF t that] by auto
  then have "calm s (fst (run_emissions env k es ?t))" using "3.IH" t calm_then by blast
  then show ?case by simp
next
  case (4 env k m es s)
  let ?t = "fst (send_message env m s)"
  have t: "calm s ?t" by simp
  have "list_all no_response es \<or> k < length (ht_sinks ?t)" if "linked s"
    using "4.prems" calm_lengths(4) [OF t that] by auto
  then have "calm s (fst (run_emissions env k es ?t))" using "4.IH" t calm_then by blast
  then show ?case by simp
qed simp

lemma calm_legacy: "calm s (fst (legacy_emissions env es s))"
proof (induction env es s rule: legacy_emissions.induct)
  case (2 env r es s)
  then show ?case
    using calm_push(1) [of s env r]
    by (cases "push_to_sse_connections env r s"; cases "snd (push_to_sse_connections env r s)") (auto intro: calm_trans)
qed (auto intro: calm_trans [OF calm_push(5)] calm_trans [OF calm_push(4)])

lemma calm_batch: "calm s (fst (snd (run_batch env f sid js s h)))"
proof (induction js arbitrary: s h)
  case (Cons j js)
  obtain es b h' where f: "f True j sid h = ((es, b), h')" by (metis surj_pair)
  let ?es = "filter (\<lambda>e. case e of Respond _ \<Rightarrow> False | _ \<Rightarrow> True) es"
  obtain s' x where e: "run_emissions env 0 ?es s = (s', x)" by fastforce
  have "list_all no_response ?es" by (auto simp: list_all_iff no_response_def)
  then have "calm s s'" using calm_emissions [of ?es 0 s env] e by simp
  then have "calm s (fst (snd (run_batch env f sid js s' h')))" using Cons.IH by (rule calm_trans)
  then show ?case by (simp add: f e split: prod.split) (metis fst_conv snd_conv)
qed simp

text \<open>Adding a stream that belongs to an existing connection.\<close>

lemma calm_new_stream:
  "a < length (ht_conns s) \<Longrightarrow> calm s (s\<lparr>ht_streams := ht_streams s @ [\<lparr>sse_conn = a, sse_active = True\<rparr>]\<rparr>)"
  by (fastforce simp: calm_def linked_def actives_def)

lemma calm_conn_write_after: "calm s t \<Longrightarrow> a < length (ht_conns s) \<Longrightarrow> calm s (conn_write a d t)"
  by (rule calmI) (metis calm_lengths(2) calm_trans calm_writes(1))

lemma calm_deactivate_after: "calm s t \<Longrightarrow> calm s (deactivate a t)"
  unfolding deactivate_def by (rule calm_trans [OF _ calm_upd_conn]) auto

lemma calm_session_flag: "(\<And>h. hs_streams (f h) = hs_streams h) \<Longrightarrow> calm s (upd_session sid f s)"
  by (rule calm_upd_session) auto

lemma calm_run_handler:
  assumes a: "a < length (ht_conns s)"
  shows "calm s (fst (run_handler env a msg parsed sid s h))"
proof (cases "he_handler env")
  case None
  have "calm s (write_text a 500 body (if new then erase_session sid s else s))" for body new
    unfolding write_text_def by (rule calm_conn_write_after) (simp_all add: a)
  then show ?thesis by (simp add: run_handler_def None)
next
  case (Some f)
  obtain es b h' where f: "f False msg sid h = ((es, b), h')" by (metis surj_pair)
  let ?s1 = "s\<lparr>ht_sinks := ht_sinks s @ [\<lparr>sk_conn = a, sk_session = sid, sk_written = False, sk_first = None\<rparr>]\<rparr>"
  obtain s2 x where e: "run_emissions env (length (ht_sinks s)) es ?s1 = (s2, x)" by fastforce
  have "calm s ?s1" by (rule calm_sinks) (auto simp: linked_def a)
  moreover have "calm ?s1 s2" using calm_emissions [of es "length (ht_sinks s)" ?s1 env] e by simp
  ultimately have s2: "calm s s2" by (rule calm_trans)
  have s3: "calm s (if new then if ok then upd_session sid (\<lambda>x. x\<lparr>hs_initialized := True\<rparr>) s2 else erase_session sid s2 else s2)"
    for new ok by (simp add: s2 calm_trans [OF s2 calm_erase] calm_trans [OF s2 calm_session_flag])
  then show ?thesis
    by (simp add: run_handler_def Let_def Some f e calm_conn_write_after [OF s3 a])
qed

lemma calm_batch_post:
  assumes a: "a < length (ht_conns s)"
  shows "calm s (fst (fst (handle_post_batch env a js sid s h)))"
proof -
  have refuse: "fst (fst (case r of (s', e) \<Rightarrow> ((s', h), e))) = fst r" for r :: "http_transport \<times> exn option"
    by (cases r) simp
  have run: "calm s (fst (fst (case run_batch env f sid js s h of (rs, s', h') \<Rightarrow>
       if rs = [] then ((conn_write a d s', h'), None)
       else (case write_json env a 200 (JArr rs) hs s' of (s'', e) \<Rightarrow> ((s'', h'), e)))))" for f sid d hs
  proof -
    obtain rs s' h' where r: "run_batch env f sid js s h = (rs, s', h')" by (metis surj_pair)
    have c: "calm s s'" using calm_batch [of s env f sid js h] r by simp
    have "calm s (fst (write_json env a 200 (JArr rs) hs s'))"
      by (rule calm_then [OF c]) (simp add: calm_writes a calm_lengths(2) [OF c])
    then show ?thesis
      using calm_conn_write_after [OF c a] r by (cases "write_json env a 200 (JArr rs) hs s'") simp
  qed
  show ?thesis
    unfolding handle_post_batch_def Let_def
    by (auto simp: refuse calm_writes [OF a] run split: option.split)
qed

lemma calm_get: "a < length (ht_conns s) \<Longrightarrow> calm s (handle_get_sse env a s)"
proof -
  assume a: "a < length (ht_conns s)"
  have refused: "calm s (deactivate a (write_text a st body s))" for st body
    by (rule calm_deactivate_after) (rule calm_writes(2) [OF a])
  have streaming: "calm s (upd_session sid (\<lambda>x. x\<lparr>hs_streams := hs_streams x @ [length (ht_streams s)], hs_last_activity := now\<rparr>)
      (conn_write a d (upd_conn a (\<lambda>c. c\<lparr>hc_disc := LeaveSession sid (length (ht_streams s)), hc_streaming := True\<rparr>)
         (s\<lparr>ht_streams := ht_streams s @ [\<lparr>sse_conn = a, sse_active = True\<rparr>]\<rparr>))))" (is "calm s (upd_session sid ?f (conn_write a d ?s1))")
    for sid now d
  proof (rule calm_then)
    have s1: "calm (s\<lparr>ht_streams := ht_streams s @ [\<lparr>sse_conn = a, sse_active = True\<rparr>]\<rparr>) ?s1"
      by (rule calm_upd_conn) simp
    show c: "calm s (conn_write a d ?s1)"
      by (rule calm_conn_write_after [OF calm_trans [OF calm_new_stream [OF a] s1] a])
    assume "linked s"
    then have "linked ?s1" using calm_lengths(1) [OF calm_trans [OF calm_new_stream [OF a] s1]] by simp
    moreover have "calm ?s1 (conn_write a d ?s1)" by (rule calm_writes(1)) (simp add: a upd_conn_def)
    ultimately have "length (ht_streams s) < length (ht_streams (conn_write a d ?s1))"
      using calm_lengths(3) [of ?s1 "conn_write a d ?s1"] by (simp add: upd_conn_def)
    then show "calm (conn_write a d ?s1) (upd_session sid ?f (conn_write a d ?s1))"
      by (intro calm_upd_session) auto
  qed
  show ?thesis
    unfolding handle_get_sse_def Let_def
    by (auto split: option.split simp: refused streaming)
qed

lemma calm_delete: "a < length (ht_conns s) \<Longrightarrow> calm s (handle_delete a s)"
proof -
  assume a: "a < length (ht_conns s)"
  have closed: "calm s (write_text a 200 [] (fold close_stream (hs_streams ses)
      (erase_session sid (deactivate_streams (hs_streams ses) s))))"
    if ses: "map_of (ht_sessions s) sid = Some ses" for sid ses
  proof -
    let ?s1 = "erase_session sid (deactivate_streams (hs_streams ses) s)"
    have s1: "calm s ?s1" by (rule calm_trans [OF calm_deactivate_streams calm_erase])
    have "calm ?s1 (fold close_stream (hs_streams ses) ?s1)" if "linked s"
      using linked_session [OF that ses] calm_lengths(3) [OF s1 that]
      by (intro calm_fold calm_close_stream) (simp, fastforce)
    with s1 have "calm s (fold close_stream (hs_streams ses) ?s1)" by (rule calm_then)
    then show ?thesis unfolding write_text_def using a by (rule calm_conn_write_after)
  qed
  show ?thesis
    unfolding handle_delete_def Let_def find_session_def
    by (auto split: option.split simp: calm_enqueue a closed)
qed

lemma calm_sse_connect: "a < length (ht_conns s) \<Longrightarrow> calm s (handle_sse_connect a s)"
proof -
  assume a: "a < length (ht_conns s)"
  let ?k = "length (ht_streams s)"
  let ?s0 = "s\<lparr>ht_streams := ht_streams s @ [\<lparr>sse_conn = a, sse_active = True\<rparr>]\<rparr>"
  let ?s1 = "upd_conn a (\<lambda>c. c\<lparr>hc_disc := LeaveLegacy ?k\<rparr>) ?s0"
  have s1: "calm s ?s1" by (rule calm_trans [OF calm_new_stream [OF a] calm_upd_conn]) simp
  have registered: "calm s ((conn_write a d ?s1)\<lparr>ht_legacy := ht_legacy (conn_write a d ?s1) @ [?k]\<rparr>)" for d
  proof (rule calm_then [OF calm_conn_write_after [OF s1 a]])
    assume "linked s"
    then have "linked ?s1" using calm_lengths(1) [OF s1] by simp
    moreover have "calm ?s1 (conn_write a d ?s1)" by (rule calm_writes(1)) (simp add: a upd_conn_def)
    ultimately have "?k < length (ht_streams (conn_write a d ?s1))"
      using calm_lengths(3) [of ?s1 "conn_write a d ?s1"] by (simp add: upd_conn_def)
    then show "calm (conn_write a d ?s1) ((conn_write a d ?s1)\<lparr>ht_legacy := ht_legacy (conn_write a d ?s1) @ [?k]\<rparr>)"
      by (simp add: calm_def linked_def actives_def)
  qed
  show ?thesis
    unfolding handle_sse_connect_def Let_def by (rule registered)
qed

lemma calm_write_text_after: "calm s t \<Longrightarrow> a < length (ht_conns s) \<Longrightarrow> calm s (write_text a st body t)"
  unfolding write_text_def by (rule calm_conn_write_after)

lemma calm_sse_message: "a < length (ht_conns s) \<Longrightarrow> calm s (fst (fst (handle_sse_message env a s h)))"
proof -
  assume a: "a < length (ht_conns s)"
  have run: "calm s (fst (fst (case f False msg [] h of ((es, throws), h') \<Rightarrow>
      (case legacy_emissions env es s of (s', Some e) \<Rightarrow> ((s', h'), Some e)
       | (s', None) \<Rightarrow> if throws then ((s', h'), Some OtherEx) else ((write_text a 202 [] s', h'), None)))))" for f msg
  proof -
    obtain es b h' where f: "f False msg [] h = ((es, b), h')" by (metis surj_pair)
    obtain s' x where e: "legacy_emissions env es s = (s', x)" by fastforce
    have "calm s s'" using calm_legacy [of s env es] e by simp
    then show ?thesis by (simp add: f e calm_write_text_after a split: option.split)
  qed
  show ?thesis
    unfolding handle_sse_message_def
    by (auto simp: run calm_write_text_after a calm_writes(2) [OF a] split: sum.split option.split)
qed

text \<open>Closing streams while the sessions that hold them are dropped.\<close>

lemma sessions_deactivate [simp]: "ht_sessions (deactivate_streams ks s) = ht_sessions s"
  unfolding deactivate_streams_def by (induction ks arbitrary: s) (auto simp: upd_stream_def)

lemma calm_drop_sessions:
  assumes "linked s \<Longrightarrow> \<forall>k \<in> set ks. k < length (ht_streams s)"
  shows "calm s (fold close_stream ks ((deactivate_streams ks s)\<lparr>ht_sessions := filter P (ht_sessions s)\<rparr>))"
proof (rule calm_then)
  show c: "calm s ((deactivate_streams ks s)\<lparr>ht_sessions := filter P (ht_sessions s)\<rparr>)"
    using calm_trans [OF calm_deactivate_streams [of s ks] calm_filter_sessions [of _ P]] by simp
  assume s: "linked s"
  show "calm ((deactivate_streams ks s)\<lparr>ht_sessions := filter P (ht_sessions s)\<rparr>)
      (fold close_stream ks ((deactivate_streams ks s)\<lparr>ht_sessions := filter P (ht_sessions s)\<rparr>))"
    using assms [OF s] calm_lengths(3) [OF c s] by (intro calm_fold calm_close_stream) (simp, fastforce)
qed

lemma calm_arm [simp]: "calm s (arm_session_sweep env s)"
  by (simp add: arm_session_sweep_def Let_def)

lemma calm_sweep: "calm s (sweep_sessions env ec s)"
  unfolding sweep_sessions_def Let_def
  by (simp, intro impI calm_trans [OF calm_drop_sessions calm_arm]) (use linked_streams in fastforce)

lemma calm_stop: "calm s (stop s)"
proof -
  let ?s0 = "s\<lparr>ht_running := False, ht_sweep := None, ht_legacy := []\<rparr>"
  let ?s1 = "deactivate_streams (ht_legacy s) ?s0"
  let ?s2 = "fold close_stream (ht_legacy s) ?s1"
  have s1: "calm s ?s1"
    by (rule calm_trans [OF _ calm_deactivate_streams]) (simp add: calm_def linked_def actives_def)
  have "calm ?s1 ?s2" if "linked s"
    using that calm_lengths(3) [OF s1 that] by (intro calm_fold calm_close_stream) (simp, fastforce simp: linked_def)
  with s1 have s2: "calm s ?s2" by (rule calm_then)
  have "calm s (fold close_stream ks ((deactivate_streams ks ?s2)\<lparr>ht_sessions := []\<rparr>))"
    if "ks = concat (map (\<lambda>(i, h). hs_streams h) (ht_sessions ?s2))" for ks
    using calm_trans [OF s2 calm_drop_sessions [of ?s2 ks "\<lambda>_. False"]] linked_streams [of ?s2] that by simp
  then show ?thesis by (simp add: stop_def Let_def calm_trans [OF _ calm_fields(6)])
qed


section \<open>The step relation\<close>

text \<open>What happens to the transport and its handler: a socket is accepted, the parser calls back, a
  message is complete, a read fails, the sweep timer fires, a deferred response arrives, the server
  sends, the transport stops. The time, the random numbers and the handler may differ from step to step.\<close>

inductive http_step :: "'h http_env set \<Rightarrow> http_transport \<times> 'h \<Rightarrow> http_transport \<times> 'h \<Rightarrow> bool" for envs where
  accept: "env \<in> envs \<Longrightarrow> http_step envs (s, h) (on_accept env failed s, h)"
| event: "a < length (ht_conns s) \<Longrightarrow> run_event e (ht_conns s ! a) = Some c \<Longrightarrow>
    http_step envs (s, h) (s\<lparr>ht_conns := (ht_conns s)[a := c]\<rparr>, h)"
| request: "env \<in> envs \<Longrightarrow> a < length (ht_conns s) \<Longrightarrow> http_step envs (s, h) (fst (request_parsed env a s h))"
| read_error: "a < length (ht_conns s) \<Longrightarrow> http_step envs (s, h) (read_failed a s, h)"
| read_begins: "env \<in> envs \<Longrightarrow> http_step envs (s, h) (start_read env a s, h)"
| read_ends: "http_step envs (s, h) (read_completed a s, h)"
| timer: "env \<in> envs \<Longrightarrow> http_step envs (s, h) (timer_elapsed env a s, h)"
| timed_out: "a < length (ht_conns s) \<Longrightarrow> http_step envs (s, h) (read_timed_out a s, h)"
| started: "env \<in> envs \<Longrightarrow> http_step envs (s, h) (fst (start_http address listen env s), h)"
| sets: "http_step envs (s, h) (http_set_io b (http_set_error_handler b' s), h)"
| parse_error: "a < length (ht_conns s) \<Longrightarrow> http_step envs (s, h) (bad_request a s, h)"
| sweep: "env \<in> envs \<Longrightarrow> http_step envs (s, h) (sweep_due env s, h)"
| deferred: "env \<in> envs \<Longrightarrow> k < length (ht_sinks s) \<Longrightarrow> http_step envs (s, h) (fst (call_sink env k r s), h)"
| broadcast: "env \<in> envs \<Longrightarrow> http_step envs (s, h) (fst (send_message env m s), h)"
| to_session: "env \<in> envs \<Longrightarrow> http_step envs (s, h) (fst (send_to_session env sid m s), h)"
| stopped: "http_step envs (s, h) (stop s, h)"
| handler: "http_step envs (s, h) (s, h')"

definition http_start :: "http_config \<Rightarrow> http_transport \<times> 'h \<Rightarrow> bool" where
  "http_start cfg st \<longleftrightarrow> (\<exists>b. fst st = (HttpTransport cfg)\<lparr>ht_running := b\<rparr>)"

definition hinv :: "http_config \<Rightarrow> http_transport \<times> 'h \<Rightarrow> bool" where
  "hinv cfg st \<longleftrightarrow> (let s = fst st in ht_config s = cfg \<and> linked s \<and> actives s \<le> ht_count s
     \<and> (cfg_max_connections cfg > 0 \<longrightarrow> ht_count s \<le> cfg_max_connections cfg)
     \<and> (cfg_max_sessions cfg > 0 \<longrightarrow> length (ht_sessions s) \<le> cfg_max_sessions cfg))"

lemma hinv_start: "http_start cfg st \<Longrightarrow> hinv cfg st"
  by (auto simp: http_start_def hinv_def HttpTransport_def linked_def actives_def)

lemma hinv_calm: "hinv cfg (s, h) \<Longrightarrow> calm s t \<Longrightarrow> hinv cfg (t, h')"
  by (auto simp: hinv_def calm_def Let_def)

lemma hinv_accepted: "hinv cfg (s, h) \<Longrightarrow> hinv cfg (snd (accept_connection s), h)"
  by (fastforce simp: hinv_def accept_connection_def Let_def linked_def actives_def new_connection_def HttpConnection_def)

lemma calm_reading [simp]:
  "calm s (start_read env a s)" "calm s (read_completed a s)" "calm s (timer_elapsed env a s)"
  unfolding start_read_def read_completed_def timer_elapsed_def
  by (auto intro!: calm_upd_conn split: option.split if_splits)

lemma length_reading [simp]: "length (ht_conns (read_completed a s)) = length (ht_conns s)"
  by (simp add: read_completed_def upd_conn_def)

lemma calm_timed_out: "a < length (ht_conns s) \<Longrightarrow> calm s (read_timed_out a s)"
  unfolding read_timed_out_def
  by (auto intro!: calm_trans [OF calm_upd_conn calm_on_error]) (simp add: upd_conn_def)

lemma calm_start: "calm s (fst (start_http address listen env s))"
  by (auto simp: start_http_def Let_def http_report_def do_accept_def arm_session_sweep_def calm_def linked_def actives_def
      split: sum.split)

lemma hinv_accept:
  assumes "hinv cfg (s, h)"
  shows "hinv cfg (on_accept env failed s, h)"
proof -
  let ?s0 = "s\<lparr>ht_accepting := False\<rparr>"
  have s0: "hinv cfg (?s0, h)" by (rule hinv_calm [OF assms calm_fields(7)])
  have again: "hinv cfg (if ht_running t then do_accept t else t, h)" if "hinv cfg (t, h)" for t
    using that by (auto simp: do_accept_def intro: hinv_calm)
  obtain r t where t: "accept_connection ?s0 = (r, t)" by fastforce
  with hinv_accepted [OF s0] have t': "hinv cfg (t, h)" by simp
  show ?thesis
    using again [OF s0] again [OF t'] again [OF hinv_calm [OF t' calm_reading(1)]] t
    by (cases failed; cases r) (simp_all add: on_accept_def Let_def split del: if_split)
qed

lemma calm_sweep_due: "calm s (sweep_due env s)"
  using calm_trans [OF calm_fields(5) calm_sweep] by (auto simp: sweep_due_def split: option.split)

lemma hinv_create:
  assumes "hinv cfg (s, h)"
  shows "hinv cfg (snd (create_session env s), h)"
  using assms set_oset [of "he_session_id env" _ "ht_sessions s"]
  by (fastforce simp: hinv_def create_session_def Let_def linked_def actives_def osorted_oset length_oset)

lemma conns_create [simp]: "ht_conns (snd (create_session env s)) = ht_conns s"
  by (simp add: create_session_def Let_def)

lemma hinv_resolve:
  assumes s: "hinv cfg (s, h)" and a: "a < length (ht_conns s)"
  shows "case resolve_session env a m sid s of Inl r \<Rightarrow> hinv cfg (fst r, h)
    | Inr r \<Rightarrow> hinv cfg (snd r, h) \<and> length (ht_conns (snd r)) = length (ht_conns s)"
proof -
  obtain i t where c: "create_session env s = (i, t)" by fastforce
  have t: "hinv cfg (t, h)" "ht_conns t = ht_conns s"
    using hinv_create [OF s, of env] conns_create [of env s] c by simp_all
  have "hinv cfg (write_text a st body t, h)" for st body
    by (rule hinv_calm [OF t(1) calm_writes(2)]) (simp add: a t)
  moreover have "hinv cfg (write_text a st body s, h)" "hinv cfg (fst (write_json env a st j hs s), h)" for st body j hs
    by (rule hinv_calm [OF s], rule calm_writes [OF a])+
  ultimately show ?thesis
    using t s by (simp add: resolve_session_def c split: option.split)
qed

lemma hinv_run_handler:
  assumes "hinv cfg (s, h)" "a < length (ht_conns s)"
  shows "hinv cfg (run_handler env a msg parsed sid (upd_session sid (\<lambda>x. x\<lparr>hs_last_activity := t\<rparr>) s) h)"
proof -
  let ?s = "upd_session sid (\<lambda>x. x\<lparr>hs_last_activity := t\<rparr>) s"
  have "calm s ?s" by (rule calm_session_flag) simp
  moreover have "calm ?s (fst (run_handler env a msg parsed sid ?s h))"
    using assms(2) by (intro calm_run_handler) (simp add: upd_session_def split: option.split)
  ultimately show ?thesis
    using hinv_calm [OF assms(1) calm_trans] by (metis prod.collapse)
qed

lemma hinv_post:
  assumes s: "hinv cfg (s, h)" and a: "a < length (ht_conns s)"
  shows "hinv cfg (fst (post_message env a msg sid s h))"
proof -
  have refused: "hinv cfg (fst (case write_json env a st j hs s of (s', e) \<Rightarrow> ((s', h), e)))" for st j hs
    using hinv_calm [OF s calm_writes(3) [OF a, of env st j hs]] by (cases "write_json env a st j hs s") simp
  have handled: "hinv cfg (fst (case resolve_session env a m sid s of Inl (s', e) \<Rightarrow> ((s', h), e)
      | Inr (i, s') \<Rightarrow> (run_handler env a msg parsed i (upd_session i (\<lambda>x. x\<lparr>hs_last_activity := he_now env\<rparr>) s') h, None)))" for m parsed
    using hinv_resolve [OF s a, of env m sid] a by (auto intro!: hinv_run_handler split: sum.splits prod.splits)
  show ?thesis
    unfolding post_message_def by (cases "parse_message (he_what env) msg") (simp_all only: parsed_message.case refused handled)
qed

lemma hinv_handle_post:
  assumes s: "hinv cfg (s, h)" and a: "a < length (ht_conns s)"
  shows "hinv cfg (fst (handle_post env a s h))"
proof -
  have refused: "hinv cfg (write_text a st body s, h)" for st body
    by (rule hinv_calm [OF s calm_writes(2) [OF a]])
  have unreadable: "hinv cfg (fst (case write_json env a st j hs (s\<lparr>ht_log := l\<rparr>) of (s', e) \<Rightarrow> ((s', h), e)))" for st j hs l
  proof -
    have "calm s (fst (write_json env a st j hs (s\<lparr>ht_log := l\<rparr>)))"
      by (rule calm_trans [OF calm_fields(3) calm_writes(3)]) (simp add: a)
    then show ?thesis using hinv_calm [OF s] by (cases "write_json env a st j hs (s\<lparr>ht_log := l\<rparr>)") simp
  qed
  have batch: "hinv cfg (fst (handle_post_batch env a js sid s h))" for js sid
    using hinv_calm [OF s calm_batch_post [OF a, of env js sid h]] by (metis prod.collapse)
  show ?thesis
    unfolding handle_post_def Let_def
    by (auto simp: refused unreadable batch hinv_post [OF s a] split: sum.split json.split)
qed

lemma hinv_handle_request:
  assumes s: "hinv cfg (s, h)" and a: "a < length (ht_conns s)"
  shows "hinv cfg (fst (handle_request env a s h))"
proof -
  note hinv_s = hinv_calm [OF s]
  have "hinv cfg (deactivate a (write_text a st body s), h)" for st body
    by (rule hinv_s, rule calm_deactivate_after, rule calm_writes(2) [OF a])
  moreover have "hinv cfg (handle_options a s, h)"
    unfolding handle_options_def Let_def by (rule hinv_s, rule calm_writes(1) [OF a])
  moreover have "hinv cfg (handle_get_sse env a s, h)" "hinv cfg (handle_delete a s, h)" "hinv cfg (handle_sse_connect a s, h)"
    by (rule hinv_s, rule calm_get calm_delete calm_sse_connect, rule a)+
  moreover have "hinv cfg (fst (handle_sse_message env a s h))"
    using hinv_s [OF calm_sse_message [OF a, of env h]] by (metis prod.collapse)
  ultimately show ?thesis
    unfolding handle_request_def Let_def by (simp add: hinv_handle_post [OF s a])
qed

lemma hinv_request_parsed:
  assumes s: "hinv cfg (s, h)" and a: "a < length (ht_conns s)"
  shows "hinv cfg (fst (request_parsed env a s h))"
proof -
  obtain s' h' e where r: "(if hc_complete (ht_conns s ! a) \<and> hc_method (ht_conns s ! a) \<noteq> [] then handle_request env a s h
      else ((s, h), None)) = ((s', h'), e)" (is "?r = _") by (metis surj_pair)
  have "hinv cfg (fst ?r)" using hinv_handle_request [OF s a] s by simp
  then have s': "hinv cfg (s', h')" unfolding r by simp
  have "calm s' (upd_conn a reset_request s')" by (rule calm_upd_conn) (simp add: reset_request_def)
  then have "hinv cfg (upd_conn a reset_request s', h')" by (rule hinv_calm [OF s'])
  then show ?thesis
    using s' by (cases e) (simp_all add: request_parsed_def Let_def r)
qed

lemma active_event: "run_event e c = Some d \<Longrightarrow> hc_active d = hc_active c"
  by (cases e) (auto simp: on_url_def on_method_def on_body_def on_header_value_def on_message_complete_def
      on_headers_complete_def on_header_field_def flush_header_def Let_def split: if_splits)

lemma hinv_step: "http_step envs st st' \<Longrightarrow> hinv cfg st \<Longrightarrow> hinv cfg st'"
proof (induction rule: http_step.induct)
  case (event a s e c h)
  show ?case
    by (rule hinv_calm [OF event.prems calm_set_conn]) (simp add: active_event [OF event.hyps(2)])
next
  case (parse_error a s h)
  have w: "calm s (write_text a 400 ''Bad request'' s)" by (rule calm_writes(2) [OF parse_error.hyps])
  have "calm s (bad_request a s)"
    unfolding bad_request_def
    by (rule calm_then [OF w]) (simp add: calm_on_error calm_lengths(2) [OF w] parse_error.hyps)
  then show ?case by (rule hinv_calm [OF parse_error.prems])
next
  case (read_error a s h)
  show ?case unfolding read_failed_def
    by (rule hinv_calm [OF read_error.prems calm_trans [OF calm_reading(2) calm_on_error]]) (simp add: read_error.hyps)
next
  case (sets s h b b')
  then show ?case by (rule hinv_calm) (simp add: http_set_io_def http_set_error_handler_def calm_def linked_def actives_def)
next
  case (handler s h h')
  then show ?case by (simp add: hinv_def)
next
  case (request env a s h)
  then show ?case by (intro hinv_request_parsed)
next
  case (accept env s h failed)
  from accept.prems show ?case by (rule hinv_accept)
qed (erule hinv_calm, (rule calm_sweep_due calm_stop calm_push calm_reading calm_start | erule calm_call_sink calm_timed_out))+

interpretation http: invariant_system "http_start cfg" "http_step envs" "hinv cfg" for cfg envs
  by unfold_locales (auto intro: hinv_start hinv_step)

text \<open>C10: The caps hold. Whatever connections, requests, events, timers, deferred responses and
  broadcasts come in whatever order, there are never more active connections than the configured
  maximum and never more sessions than the configured maximum (zero meaning no maximum), session ids
  are unique, and every stream of a session belongs to a connection of the transport.\<close>

theorem caps_hold:
  assumes "(http_step envs)\<^sup>*\<^sup>* (HttpTransport cfg, h0) (s, h)"
  shows "(cfg_max_connections cfg > 0 \<longrightarrow> length (filter hc_active (ht_conns s)) \<le> cfg_max_connections cfg)
    \<and> (cfg_max_sessions cfg > 0 \<longrightarrow> length (ht_sessions s) \<le> cfg_max_sessions cfg)
    \<and> distinct (map fst (ht_sessions s))
    \<and> (\<forall>(sid, ses) \<in> set (ht_sessions s). \<forall>k \<in> set (hs_streams ses).
         k < length (ht_streams s) \<and> sse_conn (ht_streams s ! k) < length (ht_conns s))"
proof -
  have "http_start cfg (HttpTransport cfg, h0)"
    by (auto simp: http_start_def HttpTransport_def)
  then have "hinv cfg (s, h)" using assms http.reachable_inv by blast
  then show ?thesis
    by (fastforce simp: hinv_def linked_def actives_def osorted_distinct)
qed

definition ex_caps_env :: "nat http_env" where
  "ex_caps_env = \<lparr>he_parse = (\<lambda>t. Inr (JObj [])), he_dump = (\<lambda>j. Inr ''{}''), he_what = (\<lambda>_. []), he_now = 0,
     he_session_id = ''id'', he_handler = None\<rparr>"

theorem caps_hold_witness:
  "length (filter hc_active (ht_conns (on_accept ex_caps_env False (on_accept ex_caps_env False
     (HttpTransport (default_config\<lparr>cfg_max_connections := 1\<rparr>)))))) \<le> 1"
proof -
  let ?cfg = "default_config\<lparr>cfg_max_connections := 1\<rparr>"
  let ?t = "on_accept ex_caps_env False (on_accept ex_caps_env False (HttpTransport ?cfg))"
  have "(http_step {ex_caps_env})\<^sup>*\<^sup>* (HttpTransport ?cfg, 0) (?t, 0)"
    by (rule rtranclp.rtrancl_into_rtrancl [OF r_into_rtranclp]) (rule http_step.accept, simp)+
  from caps_hold [OF this] show ?thesis by (simp add: default_config_def)
qed

end
