(* ===== verification/Http_Frame.thy ===== *)
theory Http_Frame
  imports Http_Caps
begin

text \<open>
  What handling requests leaves alone on connections. Handlers change a connection in few ways only: they
  give its queue data, clear its flags, make it a stream, and clear the request it holds. The locale
  \<open>conn_frame\<close> takes any relation between connections that these changes respect and shows that every
  operation of the transport respects it on all connections. It is interpreted for the limits of a request and
  for the read timer, which gives two invariants of the transport.
\<close>

section \<open>The connections in other operations\<close>

lemma conns_same [simp]:
  "ht_conns (upd_stream k f s) = ht_conns s" "ht_conns (upd_session sid g s) = ht_conns s"
  "ht_conns (erase_session sid s) = ht_conns s" "ht_conns (unregister_sse_connection k s) = ht_conns s"
  "ht_conns (run_disconnect d s) = ht_conns s" "ht_conns (release_slot s) = ht_conns s"
  "ht_conns (arm_session_sweep env s) = ht_conns s" "ht_conns (fst (start_http address listen env s)) = ht_conns s"
  "ht_conns (http_set_io b s) = ht_conns s" "ht_conns (http_set_error_handler b s) = ht_conns s"
  by (auto simp: upd_stream_def upd_session_def erase_session_def unregister_sse_connection_def run_disconnect_def
      release_slot_def arm_session_sweep_def start_http_def http_report_def do_accept_def http_set_io_def http_set_error_handler_def Let_def
      split: option.split disconnect_action.split sum.split)

lemma conns_deactivate_streams [simp]: "ht_conns (deactivate_streams ks s) = ht_conns s"
  unfolding deactivate_streams_def by (induction ks arbitrary: s) auto

definition conns_rel :: "(http_connection \<Rightarrow> http_connection \<Rightarrow> bool) \<Rightarrow> http_transport \<Rightarrow> http_transport \<Rightarrow> bool" where
  "conns_rel K s t \<longleftrightarrow> list_all2 K (ht_conns s) (ht_conns t)"

lemma conns_rel_fields [simp]:
  "conns_rel K s (upd_stream k f t) = conns_rel K s t" "conns_rel K s (upd_session sid g t) = conns_rel K s t"
  "conns_rel K s (erase_session sid t) = conns_rel K s t" "conns_rel K s (unregister_sse_connection k t) = conns_rel K s t"
  "conns_rel K s (run_disconnect d t) = conns_rel K s t" "conns_rel K s (release_slot t) = conns_rel K s t"
  "conns_rel K s (arm_session_sweep env t) = conns_rel K s t" "conns_rel K s (deactivate_streams ks t) = conns_rel K s t"
  "conns_rel K s (t\<lparr>ht_written := w\<rparr>) = conns_rel K s t" "conns_rel K s (t\<lparr>ht_undefined := b\<rparr>) = conns_rel K s t"
  "conns_rel K s (t\<lparr>ht_log := l\<rparr>) = conns_rel K s t" "conns_rel K s (t\<lparr>ht_sinks := sk\<rparr>) = conns_rel K s t"
  "conns_rel K s (t\<lparr>ht_streams := st\<rparr>) = conns_rel K s t" "conns_rel K s (t\<lparr>ht_sessions := se\<rparr>) = conns_rel K s t"
  "conns_rel K s (t\<lparr>ht_legacy := le\<rparr>) = conns_rel K s t" "conns_rel K s (t\<lparr>ht_running := b\<rparr>) = conns_rel K s t"
  "conns_rel K s (t\<lparr>ht_sweep := sw\<rparr>) = conns_rel K s t" "conns_rel K s (t\<lparr>ht_acceptor := acc\<rparr>) = conns_rel K s t"
  "conns_rel K s (t\<lparr>ht_accepting := b\<rparr>) = conns_rel K s t"
  by (simp_all add: conns_rel_def)


section \<open>Relations that the handlers respect\<close>

locale conn_frame =
  fixes K :: "http_connection \<Rightarrow> http_connection \<Rightarrow> bool"
  assumes K_refl: "K c c"
    and K_trans: "K c d \<Longrightarrow> K d e \<Longrightarrow> K c e"
    and K_inactive: "K c (c\<lparr>hc_active := False\<rparr>)"
    and K_queue: "K c (c\<lparr>hc_queue := q\<rparr>)"
    and K_closed: "K c (c\<lparr>hc_open := False\<rparr>)"
    and K_disc: "K c (c\<lparr>hc_disc := x\<rparr>)"
    and K_streaming: "K c (c\<lparr>hc_streaming := True\<rparr>)"
    and K_reset: "K c (reset_request c)"
begin

abbreviation keeps :: "http_transport \<Rightarrow> http_transport \<Rightarrow> bool" where
  "keeps \<equiv> conns_rel K"

lemma keeps_same: "ht_conns t = ht_conns s \<Longrightarrow> keeps s t"
  by (simp add: conns_rel_def list.rel_refl K_refl)

lemma keeps_refl [simp]: "keeps s s"
  by (simp add: keeps_same)

lemma keeps_trans: "keeps s t \<Longrightarrow> keeps t u \<Longrightarrow> keeps s u"
  unfolding conns_rel_def by (rule list_all2_trans [of K]) (auto intro: K_trans)

lemma keeps_upd: "keeps s t \<Longrightarrow> (\<And>c. K c (f c)) \<Longrightarrow> keeps s (upd_conn a f t)"
proof (rule keeps_trans, assumption)
  assume "\<And>c. K c (f c)"
  then show "keeps t (upd_conn a f t)"
    by (cases "a < length (ht_conns t)")
      (auto simp: conns_rel_def upd_conn_def list_all2_conv_all_nth nth_list_update K_refl list_update_beyond)
qed

lemma keeps_fold: "keeps s t \<Longrightarrow> (\<And>k u. keeps s u \<Longrightarrow> keeps s (f k u)) \<Longrightarrow> keeps s (fold f ks t)"
  by (induction ks arbitrary: t) auto

lemma keeps_on_error: "keeps s t \<Longrightarrow> keeps s (conn_on_error a t)"
  by (auto simp: conn_on_error_def Let_def intro!: keeps_upd K_inactive)

lemma keeps_enqueue: "keeps s t \<Longrightarrow> keeps s (enqueue_write l a d t)"
  by (auto simp: enqueue_write_def Let_def intro!: keeps_on_error keeps_upd K_queue
      split: prod.split enqueue_outcome.split)

lemma keeps_deactivate: "keeps s t \<Longrightarrow> keeps s (deactivate a t)"
  unfolding deactivate_def by (intro keeps_upd K_inactive)

lemma keeps_writes:
  "keeps s t \<Longrightarrow> keeps s (conn_write a d t)" "keeps s t \<Longrightarrow> keeps s (write_text a st body t)"
  "keeps s t \<Longrightarrow> keeps s (fst (write_json env a st j hs t))"
  by (auto simp: conn_write_def write_text_def write_json_def intro!: keeps_enqueue split: sum.split)

lemma keeps_close_stream: "keeps s t \<Longrightarrow> keeps s (close_stream k t)"
  unfolding close_stream_def Let_def
  by (intro keeps_on_error keeps_upd, assumption) (metis K_closed K_queue K_trans)

lemma keeps_push_all: "keeps s t \<Longrightarrow> keeps s (push_all ks frame t)"
  unfolding push_all_def by (rule keeps_fold) (auto simp: sse_push_def intro: keeps_enqueue)

lemma keeps_push:
  "keeps s t \<Longrightarrow> keeps s (fst (push_to_sse_connections env m t))"
  "keeps s t \<Longrightarrow> keeps s (fst (send_message env m t))" "keeps s t \<Longrightarrow> keeps s (fst (send_to_session env sid m t))"
  by (auto simp: push_to_sse_connections_def send_message_def send_to_session_def push_to_session_sse_def
      push_to_all_sessions_def intro!: keeps_push_all split: sum.split option.split)

lemma keeps_call_sink: "keeps s t \<Longrightarrow> keeps s (fst (call_sink env k r t))"
  by (auto simp: call_sink_def Let_def intro!: keeps_push keeps_writes(3))

lemma keeps_emissions: "keeps s t \<Longrightarrow> keeps s (fst (run_emissions env k es t))"
proof (induction env k es t rule: run_emissions.induct)
  case (2 env k r es t)
  then show ?case
    using keeps_call_sink [OF "2.prems", of env k r] by (auto split: prod.split option.split)
qed (auto intro: keeps_push)

lemma keeps_legacy: "keeps s t \<Longrightarrow> keeps s (fst (legacy_emissions env es t))"
proof (induction env es t rule: legacy_emissions.induct)
  case (2 env r es t)
  then show ?case
    using keeps_push(1) [OF "2.prems", of env r] by (auto split: prod.split option.split)
qed (auto intro: keeps_push)

lemma keeps_batch: "keeps s t \<Longrightarrow> keeps s (fst (snd (run_batch env f sid js t h)))"
proof (induction js arbitrary: t h)
  case (Cons j js)
  obtain es b h' where f: "f True j sid h = ((es, b), h')" by (metis surj_pair)
  let ?es = "filter (\<lambda>e. case e of Respond _ \<Rightarrow> False | _ \<Rightarrow> True) es"
  have "keeps s (fst (run_emissions env 0 ?es t))" by (rule keeps_emissions [OF Cons.prems])
  from Cons.IH [OF this, of h'] show ?case by (simp add: f case_prod_beta)
qed simp

lemma keeps_run_handler: "keeps s t \<Longrightarrow> keeps s (fst (run_handler env a msg parsed sid t h))"
  unfolding run_handler_def Let_def case_prod_beta
  by (cases "he_handler env") (auto intro!: keeps_writes keeps_emissions)

lemma keeps_create: "keeps s t \<Longrightarrow> keeps s (snd (create_session env t))"
  by (simp add: create_session_def Let_def)

lemma keeps_resolve:
  "keeps s t \<Longrightarrow> case resolve_session env a m sid t of Inl r \<Rightarrow> keeps s (fst r) | Inr r \<Rightarrow> keeps s (snd r)"
  using keeps_create [of s t env]
  by (auto simp: resolve_session_def intro!: keeps_writes split: option.split prod.split)

lemma keeps_handle_post_batch: "keeps s t \<Longrightarrow> keeps s (fst (fst (handle_post_batch env a js sid t h)))"
  unfolding handle_post_batch_def Let_def case_prod_beta
  by (auto intro!: keeps_writes keeps_batch split: option.split)

lemma keeps_post_message:
  assumes "keeps s t"
  shows "keeps s (fst (fst (post_message env a msg sid t h)))"
proof -
  have "keeps s (fst (fst (case resolve_session env a m sid t of Inl (s', e) \<Rightarrow> ((s', h), e)
      | Inr (i, s') \<Rightarrow> (run_handler env a msg parsed i (upd_session i f s') h, None))))" for m parsed f
    using keeps_resolve [OF assms, of env a m sid] by (auto intro!: keeps_run_handler split: sum.splits prod.splits)
  moreover have "keeps s (fst (fst (case write_json env a st j hs t of (s', e) \<Rightarrow> ((s', h), e))))" for st j hs
    using keeps_writes(3) [OF assms] by (simp add: case_prod_beta)
  ultimately show ?thesis
    unfolding post_message_def by (cases "parse_message (he_what env) msg") (simp_all only: parsed_message.case)
qed

lemma keeps_handle_post: "keeps s t \<Longrightarrow> keeps s (fst (fst (handle_post env a t h)))"
  unfolding handle_post_def Let_def case_prod_beta
  by (auto intro!: keeps_writes keeps_handle_post_batch keeps_post_message split: sum.split json.split)

lemma keeps_get: "keeps s t \<Longrightarrow> keeps s (handle_get_sse env a t)"
proof -
  assume t: "keeps s t"
  have "K c (c\<lparr>hc_disc := x, hc_streaming := True\<rparr>)" for c x
    using K_trans [OF K_disc K_streaming] by simp
  with t show ?thesis
    by (auto simp: handle_get_sse_def Let_def intro!: keeps_writes keeps_deactivate keeps_upd split: option.split)
qed

lemma keeps_close_streams: "keeps s t \<Longrightarrow> keeps s (fold close_stream ks t)"
  by (rule keeps_fold) (auto intro: keeps_close_stream)

lemma keeps_delete: "keeps s t \<Longrightarrow> keeps s (handle_delete a t)"
  by (auto simp: handle_delete_def Let_def intro!: keeps_writes keeps_enqueue keeps_close_streams split: option.split)

lemma keeps_sse_connect: "keeps s t \<Longrightarrow> keeps s (handle_sse_connect a t)"
  by (auto simp: handle_sse_connect_def Let_def intro!: keeps_writes keeps_upd K_disc)

lemma keeps_sse_message: "keeps s t \<Longrightarrow> keeps s (fst (fst (handle_sse_message env a t h)))"
proof -
  assume t: "keeps s t"
  have "keeps s x" if "legacy_emissions env es t = (x, e)" for es x e
    using keeps_legacy [OF t, of env es] that by simp
  with t show ?thesis
    unfolding handle_sse_message_def
    by (auto intro!: keeps_writes split: sum.split option.split prod.split)
qed

lemma keeps_handle_request: "keeps s t \<Longrightarrow> keeps s (fst (fst (handle_request env a t h)))"
  unfolding handle_request_def Let_def handle_options_def
  by (auto intro!: keeps_writes keeps_deactivate keeps_handle_post keeps_get keeps_delete keeps_sse_connect keeps_sse_message)

lemma keeps_request: "keeps s t \<Longrightarrow> keeps s (fst (fst (request_parsed env a t h)))"
  unfolding request_parsed_def Let_def case_prod_beta
  by (auto intro!: keeps_upd K_reset intro: keeps_handle_request split: option.split)

lemma keeps_sweep: "keeps s t \<Longrightarrow> keeps s (sweep_sessions env ec t)"
  by (auto simp: sweep_sessions_def Let_def intro!: keeps_close_streams)

lemma keeps_sweep_due: "keeps s t \<Longrightarrow> keeps s (sweep_due env t)"
  by (auto simp: sweep_due_def intro!: keeps_sweep split: option.split)

lemma keeps_stop: "keeps s t \<Longrightarrow> keeps s (stop t)"
  unfolding stop_def Let_def by (auto intro!: keeps_close_streams)

lemma keeps_bad_request: "keeps s t \<Longrightarrow> keeps s (bad_request a t)"
  unfolding bad_request_def by (intro keeps_on_error keeps_writes)

end


section \<open>Limits and timers\<close>

text \<open>What handling requests never changes on a connection: its limits, which a request keeps, the state of its
  read timer; and it neither revives a connection nor ends its being a stream.\<close>

definition conn_le :: "http_connection \<Rightarrow> http_connection \<Rightarrow> bool" where
  "conn_le c d \<longleftrightarrow> hc_max_body d = hc_max_body c \<and> hc_max_line d = hc_max_line c \<and> hc_max_headers d = hc_max_headers c
     \<and> (within_limits c \<longrightarrow> within_limits d)
     \<and> hc_release d = hc_release c \<and> hc_reading d = hc_reading c \<and> hc_read_timeout d = hc_read_timeout c \<and> hc_timer d = hc_timer c
     \<and> hc_expired d = hc_expired c \<and> (hc_active d \<longrightarrow> hc_active c) \<and> (hc_open d \<longrightarrow> hc_open c) \<and> (hc_streaming c \<longrightarrow> hc_streaming d)"

lemma conn_le_trans: "conn_le c d \<Longrightarrow> conn_le d e \<Longrightarrow> conn_le c e"
  unfolding conn_le_def by (elim conjE) simp

interpretation le: conn_frame conn_le
proof unfold_locales
  show "conn_le c d \<Longrightarrow> conn_le d e \<Longrightarrow> conn_le c e" for c d e by (rule conn_le_trans)
qed (simp_all add: conn_le_def within_limits_def reset_request_def)

definition conn_ok :: "http_config \<Rightarrow> http_connection \<Rightarrow> bool" where
  "conn_ok cfg c \<longleftrightarrow> hc_max_body c = cfg_max_body cfg \<and> hc_max_line c = cfg_max_line cfg \<and> hc_max_headers c = cfg_max_headers cfg
     \<and> within_limits c \<and> hc_release c \<and> hc_read_timeout c = cfg_read_timeout cfg
     \<and> (hc_reading c \<and> hc_active c \<and> \<not> hc_streaming c \<and> cfg_read_timeout cfg > 0 \<longrightarrow> hc_timer c \<noteq> None \<or> hc_expired c > 0)"

definition conns_ok :: "http_config \<Rightarrow> http_transport \<times> 'h \<Rightarrow> bool" where
  "conns_ok cfg st \<longleftrightarrow> ht_config (fst st) = cfg \<and> (\<forall>c \<in> set (ht_conns (fst st)). conn_ok cfg c)"

lemma conn_ok_le: "conn_le c d \<Longrightarrow> conn_ok cfg c \<Longrightarrow> conn_ok cfg d"
  by (auto simp: conn_le_def conn_ok_def)

lemma conns_ok_le:
  assumes "conns_ok cfg (s, h)" "conns_rel conn_le s t" "ht_config t = ht_config s"
  shows "conns_ok cfg (t, h')"
proof -
  have "conn_ok cfg d" if "d \<in> set (ht_conns t)" for d
  proof -
    from that obtain i where i: "i < length (ht_conns t)" "d = ht_conns t ! i" by (auto simp: in_set_conv_nth)
    then have "conn_le (ht_conns s ! i) d" "ht_conns s ! i \<in> set (ht_conns s)"
      using assms(2) by (auto simp: conns_rel_def list_all2_conv_all_nth)
    then show ?thesis using assms(1) by (auto simp: conns_ok_def intro: conn_ok_le)
  qed
  with assms show ?thesis by (simp add: conns_ok_def)
qed

lemma conns_ok_upd:
  assumes "conns_ok cfg (s, h)" "\<And>c. conn_ok cfg c \<Longrightarrow> conn_ok cfg (f c)"
  shows "conns_ok cfg (upd_conn a f s, h')"
  using assms by (cases "a < length (ht_conns s)")
    (auto simp: conns_ok_def upd_conn_def list_update_beyond dest!: set_update_subset_insert [THEN subsetD])

lemma conn_ok_event:
  assumes "conn_ok cfg c" "run_event e c = Some d"
  shows "conn_ok cfg d"
proof -
  have "hc_release d = hc_release c \<and> hc_reading d = hc_reading c \<and> hc_active d = hc_active c \<and> hc_streaming d = hc_streaming c \<and> hc_read_timeout d = hc_read_timeout c
      \<and> hc_timer d = hc_timer c \<and> hc_expired d = hc_expired c"
    using assms(2) by (cases e) (auto simp: on_url_def on_method_def on_body_def on_header_value_def on_message_complete_def
        on_headers_complete_def on_header_field_def flush_header_def Let_def split: if_splits)
  then show ?thesis
    using assms limits_event [OF assms(2)] within_limits_event [OF _ assms(2)] by (simp add: conn_ok_def)
qed

lemma conn_ok_new: "conn_ok cfg (new_connection cfg)"
  by (simp add: conn_ok_def new_connection_def HttpConnection_def within_limits_def)

end
