(* ===== verification/Http_Props.thy ===== *)
theory Http_Props
  imports Http_Caps
begin

text \<open>
  The properties of the HTTP transport: the message handler is only reached through the checks of
  host, origin, path and session; exceptions of the handler are contained, while a batch lets the
  exception of its writer out; a message for a session stays in the session; and refused requests keep
  their connection slot for ever.
\<close>

section \<open>What keeps the state of the handler\<close>

definition admitted :: "'h http_env \<Rightarrow> http_transport \<Rightarrow> http_connection \<Rightarrow> bool" where
  "admitted env s c \<longleftrightarrow>
     (cfg_enforce_host (ht_config s) \<longrightarrow> is_host_allowed (header c ''host'') (cfg_host (ht_config s)))
   \<and> (header c ''origin'' = [] \<or> is_origin_allowed (header c ''origin'') (cfg_host (ht_config s)))
   \<and> hc_method c = ''POST'' \<and> before_char (CHR ''?'') (hc_url c) = cfg_path (ht_config s)
   \<and> str_contains (header c ''content-type'') ''application/json''
   \<and> (\<exists>msg. he_parse env (hc_body c) = Inr msg \<and>
        ((\<exists>ses. find_session (header c ''mcp-session-id'') s = Some ses \<and> hs_initialized ses)
       \<or> header c ''mcp-session-id'' = [] \<and> message_method (parse_message (he_what env) msg) = METHOD_INITIALIZE
           \<and> (cfg_max_sessions (ht_config s) > 0 \<longrightarrow> length (ht_sessions s) < cfg_max_sessions (ht_config s))))"

lemma refuse_keeps: "snd (fst (case r of (s', e) \<Rightarrow> ((s', h), e))) = h"
  by (cases r) simp

lemma batch_keeps:
  assumes "\<nexists>ses. find_session sid s = Some ses \<and> hs_initialized ses"
  shows "snd (fst (handle_post_batch env a batch sid s h)) = h"
  using assms by (auto simp: handle_post_batch_def Let_def refuse_keeps split: option.split)

lemma resolve_keeps:
  assumes "\<nexists>ses. find_session sid s = Some ses \<and> hs_initialized ses"
    and "sid = [] \<Longrightarrow> m = METHOD_INITIALIZE \<Longrightarrow>
       cfg_max_sessions (ht_config s) > 0 \<and> length (ht_sessions s) \<ge> cfg_max_sessions (ht_config s)"
  shows "\<exists>r. resolve_session env a m sid s = Inl r"
  using assms by (auto simp: resolve_session_def create_session_def split: option.split)

lemma post_keeps:
  assumes "c = ht_conns s ! a"
    and "\<not> str_contains (header c ''content-type'') ''application/json''
      \<or> (\<forall>msg. he_parse env (hc_body c) = Inr msg \<longrightarrow>
          (\<nexists>ses. find_session (header c ''mcp-session-id'') s = Some ses \<and> hs_initialized ses)
        \<and> (header c ''mcp-session-id'' = [] \<longrightarrow> message_method (parse_message (he_what env) msg) = METHOD_INITIALIZE \<longrightarrow>
            cfg_max_sessions (ht_config s) > 0 \<and> length (ht_sessions s) \<ge> cfg_max_sessions (ht_config s)))"
  shows "snd (fst (handle_post env a s h)) = h"
proof (cases "str_contains (header c ''content-type'') ''application/json''")
  case False
  with assms(1) show ?thesis by (simp add: handle_post_def Let_def)
next
  case json: True
  show ?thesis
  proof (cases "he_parse env (hc_body c)")
    case (Inl e)
    with json assms(1) show ?thesis by (simp add: handle_post_def Let_def refuse_keeps)
  next
    case (Inr msg)
    let ?sid = "header c ''mcp-session-id''"
    have none: "\<nexists>ses. find_session ?sid s = Some ses \<and> hs_initialized ses"
      using assms(2) json Inr by blast
    have "\<exists>r. resolve_session env a (message_method (parse_message (he_what env) msg)) ?sid s = Inl r"
      using assms(2) json Inr by (intro resolve_keeps none) blast
    then obtain s' e where r: "resolve_session env a (message_method (parse_message (he_what env) msg)) ?sid s = Inl (s', e)"
      by auto
    have "snd (fst (post_message env a msg ?sid s h)) = h"
      using r by (cases "parse_message (he_what env) msg") (simp_all add: post_message_def refuse_keeps)
    then show ?thesis
      using json Inr assms(1) batch_keeps [OF none, of env a _ h] by (cases msg) (simp_all add: handle_post_def Let_def)
  qed
qed

text \<open>C9: The message handler is guarded. In the streaming mode a request reaches the handler, whatever
  handler it is, only if its \<open>Host\<close> and \<open>Origin\<close> headers are allowed, it is a \<open>POST\<close> of a JSON text to the
  configured path, and it either names a session that exists and is initialized, or is an \<open>initialize\<close>
  without a session while the number of sessions is below its cap. Every other request leaves the
  handler's state untouched.\<close>

theorem handler_is_guarded:
  assumes "cfg_mode (ht_config s) = StreamableHttp" "\<not> admitted env s (ht_conns s ! a)"
  shows "snd (fst (handle_request env a s h)) = h"
proof -
  let ?c = "ht_conns s ! a"
  consider
      "cfg_enforce_host (ht_config s)" "\<not> is_host_allowed (header ?c ''host'') (cfg_host (ht_config s))"
    | "header ?c ''origin'' \<noteq> []" "\<not> is_origin_allowed (header ?c ''origin'') (cfg_host (ht_config s))"
    | "hc_method ?c \<noteq> ''POST'' \<or> before_char (CHR ''?'') (hc_url ?c) \<noteq> cfg_path (ht_config s)"
    | "snd (fst (handle_post env a s h)) = h"
    using assms(2) post_keeps [OF refl, of s a env h] unfolding admitted_def not_le [symmetric] by blast
  then show ?thesis
    by cases (use assms(1) in \<open>auto simp: handle_request_def Let_def\<close>)
qed

definition ex_env_http :: "nat http_env" where
  "ex_env_http = \<lparr>he_parse = (\<lambda>t. Inr (JObj [])), he_dump = (\<lambda>j. Inr ''{}''), he_what = (\<lambda>_. []), he_now = 0,
     he_session_id = ''id'', he_handler = Some (\<lambda>b j sid n. (([], False), Suc n))\<rparr>"

definition ex_http :: "string \<Rightarrow> http_transport" where
  "ex_http host = (HttpTransport default_config)\<lparr>ht_conns := [HttpConnection\<lparr>hc_method := ''POST'', hc_url := ''/mcp'',
     hc_headers := [(''host'', host)]\<rparr>]\<rparr>"

theorem handler_is_guarded_witness:
  "snd (fst (handle_request ex_env_http 0 (ex_http ''evil.example'') 0)) = 0"
  by (rule handler_is_guarded)
    (simp_all add: ex_http_def HttpTransport_def default_config_def admitted_def header_def is_host_allowed_def Let_def
      before_char_def to_lower_def to_lower_char_def)


section \<open>A connection that is refused\<close>

text \<open>A visit: a socket is accepted, one request arrives on it, and then the peer closes it.\<close>

definition visit :: "'h http_env \<Rightarrow> parse_event list \<Rightarrow> http_transport \<times> 'h \<Rightarrow> http_transport \<times> 'h" where
  "visit env es st =
     (case accept_connection (fst st) of (None, s) \<Rightarrow> (s, snd st)
      | (Some a, s) \<Rightarrow>
          (case run_events es (ht_conns s ! a) of
             None \<Rightarrow> (bad_request a s, snd st)
           | Some c \<Rightarrow>
               (case fst (request_parsed env a (s\<lparr>ht_conns := (ht_conns s)[a := c]\<rparr>) (snd st)) of
                  (s', h') \<Rightarrow> (read_failed a s', h'))))"

lemma queue_event: "run_event e c = Some d \<Longrightarrow> hc_queue d = hc_queue c"
  by (cases e) (auto simp: on_url_def on_method_def on_body_def on_header_value_def on_message_complete_def
      on_headers_complete_def on_header_field_def flush_header_def Let_def split: if_splits)

lemma queue_events: "run_events es c = Some d \<Longrightarrow> hc_queue d = hc_queue c"
  by (induction es arbitrary: c) (auto simp: bind_eq_Some_conv dest: queue_event)

text \<open>A queue that drops what does not fit never fails its connection.\<close>

lemma dropping_write:
  assumes "wq_policy (hc_queue (ht_conns s ! a)) = DropNewest" "a < length (ht_conns s)"
  shows "ht_count (conn_write a d s) = ht_count s \<and> ht_config (conn_write a d s) = ht_config s
    \<and> length (ht_conns (conn_write a d s)) = length (ht_conns s)
    \<and> (\<forall>b. b \<noteq> a \<longrightarrow> ht_conns (conn_write a d s) ! b = ht_conns s ! b)"
  using assms by (auto simp: conn_write_def enqueue_write_def enqueue_def upd_conn_def)

definition exhausted :: "http_config \<Rightarrow> nat \<Rightarrow> http_transport \<Rightarrow> bool" where
  "exhausted cfg n s \<longleftrightarrow> ht_config s = cfg \<and> ht_count s = n \<and> (\<forall>c \<in> set (ht_conns s). \<not> hc_active c)"

lemma exhausted_read_failed:
  assumes "exhausted cfg n s" "a < length (ht_conns s)"
  shows "exhausted cfg n (read_failed a s)"
proof -
  let ?t = "read_completed a s"
  have "\<not> hc_active (ht_conns ?t ! b)" if "b < length (ht_conns s)" for b
    using assms(1) that by (cases "b = a") (simp_all add: exhausted_def read_completed_def upd_conn_def)
  moreover from this have "read_failed a s = ?t"
    using assms(2) by (simp add: read_failed_def conn_on_error_def)
  moreover have "ht_config ?t = ht_config s" "ht_count ?t = ht_count s"
    by (simp_all add: read_completed_def upd_conn_def)
  ultimately show ?thesis
    using assms(1) by (simp add: exhausted_def all_set_conv_all_nth)
qed

lemma refused_visit:
  assumes s: "exhausted cfg n s" "n < cfg_max_connections cfg"
    and cfg: "cfg_enforce_host cfg" "cfg_queue_policy cfg = DropNewest"
    and c: "run_events es (new_connection cfg) = Some c" "hc_complete c" "hc_method c \<noteq> []"
      "\<not> is_host_allowed (header c ''host'') (cfg_host cfg)"
  shows "\<exists>t. visit env es (s, h) = (t, h) \<and> exhausted cfg (Suc n) t"
proof -
  let ?a = "length (ht_conns s)"
  let ?s = "s\<lparr>ht_count := Suc n, ht_conns := ht_conns s @ [c]\<rparr>"
  let ?w = "write_text ?a 403 ''Forbidden: Host not allowed'' ?s"
  let ?t = "upd_conn ?a reset_request (deactivate ?a ?w)"
  have q: "wq_policy (hc_queue c) = DropNewest"
    using queue_events [OF c(1)] cfg(2) by (simp add: new_connection_def make_write_queue_def)
  have accepted: "accept_connection s = (Some ?a, s\<lparr>ht_conns := ht_conns s @ [new_connection cfg], ht_count := Suc n\<rparr>)"
    using s by (simp add: accept_connection_def Let_def exhausted_def)
  have parsed: "request_parsed env ?a ?s h = ((?t, h), None)"
    using cfg(1) c s by (simp add: request_parsed_def handle_request_def Let_def exhausted_def)
  have w: "ht_count ?w = Suc n" "ht_config ?w = cfg" "length (ht_conns ?w) = Suc ?a"
      "\<And>b. b \<noteq> ?a \<Longrightarrow> ht_conns ?w ! b = (ht_conns s @ [c]) ! b"
    using dropping_write [of ?s ?a] q s by (simp_all add: write_text_def exhausted_def)
  have inactive: "\<not> hc_active (ht_conns ?t ! b)" if "b < Suc ?a" for b
  proof (cases "b = ?a")
    case True
    then show ?thesis using w(3) by (simp add: upd_conn_def deactivate_def reset_request_def)
  next
    case False
    then show ?thesis using w(4) [OF False] that s(1) by (simp add: upd_conn_def deactivate_def exhausted_def nth_append)
  qed
  then have "exhausted cfg (Suc n) ?t"
    using w(1-3) by (simp add: exhausted_def upd_conn_def deactivate_def all_set_conv_all_nth)
  then have "exhausted cfg (Suc n) (read_failed ?a ?t)"
    by (rule exhausted_read_failed) (simp add: w(3) upd_conn_def deactivate_def)
  moreover have "visit env es (s, h) = (read_failed ?a ?t, h)"
    by (simp add: visit_def accepted c(1) parsed)
  ultimately show ?thesis by blast
qed

lemma refused_visits:
  assumes "cfg_enforce_host cfg" "cfg_queue_policy cfg = DropNewest"
    and "run_events es (new_connection cfg) = Some c" "hc_complete c" "hc_method c \<noteq> []"
      "\<not> is_host_allowed (header c ''host'') (cfg_host cfg)"
    and "n \<le> cfg_max_connections cfg"
  shows "\<exists>t. (visit env es ^^ n) (HttpTransport cfg, h) = (t, h) \<and> exhausted cfg n t"
  using assms(7)
proof (induction n)
  case 0
  then show ?case by (simp add: exhausted_def HttpTransport_def)
next
  case (Suc n)
  then obtain t where t: "(visit env es ^^ n) (HttpTransport cfg, h) = (t, h)" "exhausted cfg n t" by auto
  with refused_visit [OF t(2) _ assms(1-6), of env h] Suc.prems show ?case by auto
qed

text \<open>Refused requests use up the connection slots. The handlers that refuse a request clear the
  connection's \<open>active\<close> flag themselves, so \<open>on_error\<close> later finds it cleared and never gives the slot
  back: after as many visits with a forbidden \<open>Host\<close> as there are slots, one after the other and each
  closed by its peer, no connection is active and yet every further socket is turned away.\<close>

theorem refused_requests_leak_slots:
  assumes "cfg_enforce_host cfg" "cfg_queue_policy cfg = DropNewest" "cfg_max_connections cfg > 0"
    and "run_events es (new_connection cfg) = Some c" "hc_complete c" "hc_method c \<noteq> []"
      "\<not> is_host_allowed (header c ''host'') (cfg_host cfg)"
  shows "\<exists>s. (visit env es ^^ cfg_max_connections cfg) (HttpTransport cfg, h) = (s, h)
     \<and> (\<forall>c \<in> set (ht_conns s). \<not> hc_active c) \<and> accept_connection s = (None, s)"
proof -
  obtain s where "(visit env es ^^ cfg_max_connections cfg) (HttpTransport cfg, h) = (s, h)" "exhausted cfg (cfg_max_connections cfg) s"
    using refused_visits [OF assms(1,2,4-7) order_refl, of env h] by auto
  then show ?thesis using assms(3) by (auto simp: exhausted_def accept_connection_def Let_def)
qed

definition ex_forbidden :: "parse_event list" where
  "ex_forbidden = [Method ''GET'', Url ''/mcp'', HeaderField ''Host'', HeaderValue ''evil.example'', HeadersComplete, MessageComplete]"

theorem refused_requests_leak_slots_witness:
  "\<exists>s. (visit ex_env_http ex_forbidden ^^ 1024) (HttpTransport default_config, 0) = (s, 0)
     \<and> (\<forall>c \<in> set (ht_conns s). \<not> hc_active c) \<and> accept_connection s = (None, s)"
proof -
  let ?c = "(new_connection default_config)\<lparr>hc_method := ''GET'', hc_url := ''/mcp'', hc_headers := [(''host'', ''evil.example'')], hc_complete := True\<rparr>"
  have host: "to_lower ''Host'' = ''host''" by code_simp
  have "run_events ex_forbidden (new_connection default_config) = Some ?c"
    by (simp add: ex_forbidden_def on_method_def on_url_def on_header_field_def on_header_value_def on_headers_complete_def
        on_message_complete_def flush_header_def Let_def new_connection_def default_config_def HttpConnection_def host)
  moreover have "\<not> is_host_allowed (header ?c ''host'') (cfg_host default_config)"
    by (simp add: default_config_def header_def is_host_allowed_def Let_def before_char_def to_lower_def to_lower_char_def)
  ultimately show ?thesis
    using refused_requests_leak_slots [of default_config ex_forbidden ?c ex_env_http 0] by (simp add: default_config_def)
qed


section \<open>Exceptions\<close>

text \<open>C38: Exceptions of the message handler are contained. In the streaming mode, if writing JSON as
  text does not throw, then no request makes \<open>handle_request\<close> throw, whatever the handler does,
  throwing included.\<close>

theorem handler_exceptions_are_contained:
  assumes "cfg_mode (ht_config s) = StreamableHttp" and dump: "\<forall>j. \<exists>text. he_dump env j = Inr text"
  shows "snd (handle_request env a s h) = None"
proof -
  have none: "snd (write_json env b st j hs s') = None" for b st j hs s'
    using dump [rule_format, of j] by (auto simp: write_json_def)
  have refuse: "snd (case write_json env b st j hs s' of (s', e) \<Rightarrow> ((s', h'), e)) = None" for b st j hs s' and h' :: 'a
    using none [of b st j hs s'] by (simp add: case_prod_beta)
  have batch: "snd (handle_post_batch env a js sid s h) = None" for js sid
    by (simp add: handle_post_batch_def Let_def refuse case_prod_beta none split: option.split)
  have resolved: "snd (fst (case_sum (\<lambda>r. (r, ())) (\<lambda>_. ((s, None), ())) (resolve_session env a m sid s))) = None" for m sid
    by (simp add: resolve_session_def none split: option.split prod.split)
  have "snd (post_message env a msg sid s h) = None" for msg sid
    using resolved [of "message_method (parse_message (he_what env) msg)" sid]
    by (auto simp: post_message_def refuse split: parsed_message.split sum.splits prod.split)
  then show ?thesis
    using assms(1) batch refuse by (simp add: handle_request_def handle_post_def Let_def split: sum.split json.split)
qed

definition ex_throwing :: "nat http_env" where
  "ex_throwing = ex_env_http\<lparr>he_handler := Some (\<lambda>b j sid n. (([], True), Suc n))\<rparr>"

theorem handler_exceptions_are_contained_witness:
  "snd (handle_request ex_throwing 0 (ex_http ''127.0.0.1'') 0) = None"
  by (rule handler_exceptions_are_contained)
    (simp_all add: ex_http_def HttpTransport_def default_config_def ex_throwing_def ex_env_http_def)

text \<open>The response of a batch is written as text outside every \<open>try\<close> block. When the handler has
  answered a batch and a text in the answers is not UTF-8, so that writing the array throws, the
  exception leaves \<open>handle_request\<close>, on the thread that runs the event loop, and the connection is
  left without a response.\<close>

theorem batch_writer_exception_escapes:
  assumes "find_session sid s = Some ses" "hs_initialized ses" "js \<noteq> []" "he_handler env = Some f"
    and "run_batch env f (hs_id ses) js s h = (rs, s', h')" "rs \<noteq> []" "he_dump env (JArr rs) = Inl e"
  shows "handle_post_batch env a js sid s h = ((s', h'), Some e)"
  using assms by (auto simp: handle_post_batch_def Let_def write_json_def find_session_def)

definition ex_bad_text :: "nat http_env" where
  "ex_bad_text = ex_env_http\<lparr>he_handler := Some (\<lambda>b j sid n. (([Respond JNull], False), Suc n)), he_dump := (\<lambda>j. Inl OtherEx)\<rparr>"

definition ex_session :: "http_transport" where
  "ex_session = (HttpTransport default_config)\<lparr>ht_sessions := [(''id'', \<lparr>hs_id = ''id'', hs_initialized = True, hs_streams = [],
     hs_last_activity = 0\<rparr>)]\<rparr>"

theorem batch_writer_exception_escapes_witness:
  "handle_post_batch ex_bad_text 0 [JNull] ''id'' ex_session 0 = ((ex_session, 1), Some OtherEx)"
proof -
  let ?f = "\<lambda>b j sid n. (([Respond JNull], False), Suc n)"
  let ?ses = "\<lparr>hs_id = ''id'', hs_initialized = True, hs_streams = [], hs_last_activity = 0\<rparr>"
  have ses: "find_session ''id'' ex_session = Some ?ses" by (simp add: ex_session_def find_session_def)
  have f: "he_handler ex_bad_text = Some ?f" by (simp add: ex_bad_text_def)
  have run: "run_batch ex_bad_text ?f (hs_id ?ses) [JNull] ex_session 0 = ([JNull], ex_session, 1)"
    by (simp only: run_batch.simps prod.case filter.simps emission.case if_False run_emissions.simps batch_response.simps option.case One_nat_def)
  show ?thesis
    by (rule batch_writer_exception_escapes [OF ses _ _ f run]) (simp_all add: ex_bad_text_def)
qed


section \<open>Streams of a session\<close>

text \<open>What an operation writes goes only to the connections \<open>as\<close>, and says only \<open>d\<close>; the streams keep
  their connections.\<close>

definition writes_only :: "nat set \<Rightarrow> string \<Rightarrow> http_transport \<Rightarrow> http_transport \<Rightarrow> bool" where
  "writes_only as d s t \<longleftrightarrow> (\<exists>w. ht_written t = ht_written s @ w \<and> set w \<subseteq> as \<times> {d})
     \<and> map sse_conn (ht_streams t) = map sse_conn (ht_streams s)"

lemma writes_only_refl [simp]: "writes_only as d s s"
  by (simp add: writes_only_def)

lemma writes_only_trans: "writes_only as d s t \<Longrightarrow> writes_only as d t u \<Longrightarrow> writes_only as d s u"
  by (fastforce simp: writes_only_def)

lemma writes_only_on_error: "writes_only as d s (conn_on_error a s)"
  by (auto simp: writes_only_def conn_on_error_def Let_def run_disconnect_def unregister_sse_connection_def upd_session_def
      upd_stream_def upd_conn_def release_slot_def map_update
      split: disconnect_action.split option.split)

lemma writes_only_conns: "writes_only as d s (upd_conn a f s)"
  by (simp add: writes_only_def upd_conn_def)

lemma writes_only_enqueue: "a \<in> as \<Longrightarrow> writes_only as d s (enqueue_write l a d s)"
proof -
  assume a: "a \<in> as"
  have closed: "writes_only as d s (conn_on_error a (upd_conn a f s))" for f
    by (rule writes_only_trans [OF writes_only_conns writes_only_on_error])
  have stored: "writes_only as d s ((upd_conn a f s)\<lparr>ht_written := ht_written s @ [(a, d)]\<rparr>)"
    "writes_only as d s ((upd_conn a f s)\<lparr>ht_undefined := True\<rparr>)" for f
    using a by (simp_all add: writes_only_def upd_conn_def)
  show ?thesis
    unfolding enqueue_write_def Let_def by (auto simp: closed stored split: prod.split enqueue_outcome.split)
qed

lemma writes_only_push_all:
  assumes "\<forall>k \<in> set ks. k < length (ht_streams s) \<and> sse_conn (ht_streams s ! k) \<in> as"
  shows "writes_only as d s (push_all ks d s)"
  using assms unfolding push_all_def
proof (induction ks arbitrary: s)
  case (Cons k ks)
  have p: "writes_only as d s (sse_push k d s)"
    using Cons.prems by (simp add: sse_push_def writes_only_enqueue)
  then have streams: "map sse_conn (ht_streams (sse_push k d s)) = map sse_conn (ht_streams s)"
    by (simp add: writes_only_def)
  then have len: "length (ht_streams (sse_push k d s)) = length (ht_streams s)" using map_eq_imp_length_eq by blast
  have "sse_conn (ht_streams (sse_push k d s) ! j) = sse_conn (ht_streams s ! j)" if "j < length (ht_streams s)" for j
    using streams len that by (metis nth_map)
  with Cons.prems len have "\<forall>j \<in> set ks. j < length (ht_streams (sse_push k d s)) \<and> sse_conn (ht_streams (sse_push k d s) ! j) \<in> as"
    by simp
  then show ?case using writes_only_trans [OF p Cons.IH] by simp
qed simp

text \<open>C15: A message for a session reaches that session only. In every reachable state in the streaming
  mode, \<open>send_to_session\<close> writes nothing but the event of this message, and writes it only to
  connections of the streams of the named session; for a session that does not exist it writes nothing.\<close>

theorem session_messages_stay_in_session:
  assumes "(http_step envs)\<^sup>*\<^sup>* (HttpTransport cfg, h0) (s, h)" "cfg_mode cfg = StreamableHttp"
    and "he_dump env m = Inr text"
  shows "\<exists>w. ht_written (fst (send_to_session env sid m s)) = ht_written s @ w
    \<and> (\<forall>(a, d) \<in> set w. d = sse_frame text \<and>
         (\<exists>ses k. map_of (ht_sessions s) sid = Some ses \<and> k \<in> set (hs_streams ses) \<and> a = sse_conn (ht_streams s ! k)))"
proof -
  have "http_start cfg (HttpTransport cfg, h0)" by (auto simp: http_start_def HttpTransport_def)
  then have inv: "hinv cfg (s, h)" using assms(1) http.reachable_inv by blast
  then have mode: "cfg_mode (ht_config s) = StreamableHttp" using assms(2) by (simp add: hinv_def Let_def)
  show ?thesis
  proof (cases "map_of (ht_sessions s) sid")
    case None
    then show ?thesis by (simp add: send_to_session_def mode push_to_session_sse_def assms(3))
  next
    case (Some ses)
    let ?as = "(\<lambda>k. sse_conn (ht_streams s ! k)) ` set (hs_streams ses)"
    have "linked s" using inv by (simp add: hinv_def Let_def)
    then have "writes_only ?as (sse_frame text) s (push_all (hs_streams ses) (sse_frame text) s)"
      using linked_session [OF _ Some] by (intro writes_only_push_all) blast
    then show ?thesis
      by (fastforce simp: writes_only_def send_to_session_def mode push_to_session_sse_def assms(3) Some)
  qed
qed

theorem session_messages_stay_in_session_witness:
  "ht_written (fst (send_to_session ex_env_http ''id'' JNull (on_accept ex_env_http False (HttpTransport default_config)))) = []"
proof -
  let ?s = "on_accept ex_env_http False (HttpTransport default_config)"
  have run: "(http_step {ex_env_http})\<^sup>*\<^sup>* (HttpTransport default_config, 0) (?s, 0)"
    by (rule r_into_rtranclp) (rule http_step.accept, simp)
  have s: "ht_written ?s = []" "ht_sessions ?s = []"
    by (simp_all add: default_config_def on_accept_def accept_connection_def HttpTransport_def start_read_def upd_conn_def do_accept_def Let_def)
  have "cfg_mode default_config = StreamableHttp" "he_dump ex_env_http JNull = Inr ''{}''"
    by (simp_all add: default_config_def ex_env_http_def)
  from session_messages_stay_in_session [OF run this, of "''id''"] s
  obtain w :: "(nat \<times> string) list" where
    "ht_written (fst (send_to_session ex_env_http ''id'' JNull ?s)) = w" "\<forall>(a, d) \<in> set w. False"
    by auto
  then show ?thesis by (cases w) auto
qed

end
