(* ===== verification/Http_Reading.thy ===== *)
theory Http_Reading
  imports Http_Frame Http_Props
begin

text \<open>
  The read loop of a connection (\<open>HttpConnection::start_read_with_dispatch\<close>), its timer, and the sweep of idle
  sessions. The parser, llhttp, is a parameter: a state, and a function that runs it on some bytes and gives the
  callbacks it makes, in order, and how it stops. Requests that arrive in one read are handled one after the
  other, each as if it had been parsed alone; no read can stall for ever, except on event streams.
\<close>

section \<open>The loop\<close>

text \<open>How a run stops when no callback refuses: all bytes are consumed; a message has ended after so many bytes
  (\<open>HPE_PAUSED\<close>); the protocol is to be upgraded; an error. \<open>rp_init\<close> is the state of a fresh parser, and of one that has
  been reset and resumed.\<close>

datatype 'p parse_stop = ParsedAll 'p | PausedAfter nat | PausedUpgrade 'p | ParseFailed 'p

record 'p request_parser =
  rp_init :: 'p
  rp_execute :: "'p \<Rightarrow> string \<Rightarrow> parse_event list \<times> 'p parse_stop"
  rp_after_upgrade :: "'p \<Rightarrow> 'p"

text \<open>The callbacks of a run, until one refuses; then the connection is not read again.\<close>

fun feed_events :: "parse_event list \<Rightarrow> http_connection \<Rightarrow> http_connection \<times> bool" where
  "feed_events [] c = (c, True)"
| "feed_events (e # es) c = (case run_event e c of None \<Rightarrow> (c, False) | Some c' \<Rightarrow> feed_events es c')"

datatype read_end = ReadOn | GaveUp | Threw exn

text \<open>Without fuel the loop has not ended. After an upgrade the same bytes are parsed again.\<close>

fun read_requests ::
    "nat \<Rightarrow> 'p request_parser \<Rightarrow> 'h http_env \<Rightarrow> nat \<Rightarrow> string \<Rightarrow> 'p \<Rightarrow> http_transport \<Rightarrow> 'h \<Rightarrow>
     ('p \<times> (http_transport \<times> 'h) \<times> read_end) option" where
  "read_requests 0 rp env a data p s h = None"
| "read_requests (Suc fuel) rp env a data p s h =
     (if data = [] then Some (p, (s, h), ReadOn)
      else case rp_execute rp p data of (es, how) \<Rightarrow>
        (case feed_events es (ht_conns s ! a) of (c, taken) \<Rightarrow>
           let s1 = s\<lparr>ht_conns := (ht_conns s)[a := c]\<rparr> in
           if \<not> taken then Some (p, (bad_request a s1, h), GaveUp)
           else case how of
             ParsedAll p' \<Rightarrow> Some (p', (s1, h), ReadOn)
           | PausedUpgrade p' \<Rightarrow> read_requests fuel rp env a data (rp_after_upgrade rp p') s1 h
           | PausedAfter n \<Rightarrow>
               (case request_parsed env a s1 h of
                  ((s2, h2), None) \<Rightarrow> read_requests fuel rp env a (drop n data) (rp_init rp) s2 h2
                | ((s2, h2), Some e) \<Rightarrow> Some (p, (s2, h2), Threw e))
           | ParseFailed p' \<Rightarrow> Some (p', (bad_request a s1, h), GaveUp)))"

text \<open>The completion of a read that gave \<open>data\<close>; an exception of a handler leaves it.\<close>

definition on_read ::
    "'p request_parser \<Rightarrow> 'h http_env \<Rightarrow> nat \<Rightarrow> string \<Rightarrow> 'p \<times> http_transport \<times> 'h \<Rightarrow>
     (('p \<times> http_transport \<times> 'h) \<times> exn option) option" where
  "on_read rp env a data psh =
     (case psh of (p, s, h) \<Rightarrow>
      map_option (\<lambda>(p', (s', h'), r).
          case r of
            ReadOn \<Rightarrow> ((p', if hc_active (ht_conns s' ! a) then start_read env a s' else s', h'), None)
          | GaveUp \<Rightarrow> ((p', s', h'), None)
          | Threw e \<Rightarrow> ((p', s', h'), Some e))
        (read_requests (Suc (length data)) rp env a data p (read_completed a s) h))"

lemma feed_events_Some: "run_events es c = Some d \<longleftrightarrow> feed_events es c = (d, True)"
  by (induction es arbitrary: c) (auto split: option.split)


section \<open>The loop as steps of the transport\<close>

text \<open>Every pass of the loop is a sequence of steps of the relation, so what holds in all reachable states holds
  also after a read.\<close>

lemma feed_steps:
  assumes "a < length (ht_conns s)"
  shows "(http_step envs)\<^sup>*\<^sup>* (s, h) (s\<lparr>ht_conns := (ht_conns s)[a := fst (feed_events es (ht_conns s ! a))]\<rparr>, h)"
  using assms
proof (induction es arbitrary: s)
  case (Cons e es)
  show ?case
  proof (cases "run_event e (ht_conns s ! a)")
    case (Some c)
    let ?s = "s\<lparr>ht_conns := (ht_conns s)[a := c]\<rparr>"
    have "http_step envs (s, h) (?s, h)" by (rule http_step.event [OF Cons.prems Some])
    then show ?thesis
      using Cons.IH [of ?s] Cons.prems Some by (simp add: converse_rtranclp_into_rtranclp)
  qed simp
qed simp

lemma length_request: "length (ht_conns (fst (fst (request_parsed env a s h)))) = length (ht_conns s)"
  using le.keeps_request [OF le.keeps_refl, of s env a h] by (simp add: conns_rel_def list_all2_lengthD)

lemma read_steps:
  assumes "read_requests fuel rp env a data p s h = Some (p', (s', h'), r)" "a < length (ht_conns s)" "env \<in> envs"
  shows "(http_step envs)\<^sup>*\<^sup>* (s, h) (s', h') \<and> length (ht_conns s') = length (ht_conns s)"
  using assms
proof (induction fuel arbitrary: data p s h)
  case (Suc fuel)
  show ?case
  proof (cases "data = []")
    case False
    obtain es how where x: "rp_execute rp p data = (es, how)" by fastforce
    obtain c taken where f: "feed_events es (ht_conns s ! a) = (c, taken)" by fastforce
    let ?s = "s\<lparr>ht_conns := (ht_conns s)[a := c]\<rparr>"
    have fed: "(http_step envs)\<^sup>*\<^sup>* (s, h) (?s, h)" using feed_steps [OF Suc.prems(2), of envs h es] f by simp
    have bad: "http_step envs (?s, h) (bad_request a ?s, h)" "length (ht_conns (bad_request a ?s)) = length (ht_conns s)"
      using Suc.prems(2) le.keeps_bad_request [OF le.keeps_refl, of ?s a]
      by (auto intro: http_step.parse_error simp: conns_rel_def dest: list_all2_lengthD)
    obtain s2 h2 e where q: "request_parsed env a ?s h = ((s2, h2), e)" by (metis surj_pair)
    have req: "http_step envs (?s, h) (s2, h2)" "length (ht_conns s2) = length (ht_conns s)"
      using http_step.request [OF Suc.prems(3), of a ?s h] Suc.prems(2) length_request [of env a ?s h] q by simp_all
    have more: ?thesis if "read_requests fuel rp env a data' p1 s1 h1 = Some (p', (s', h'), r)"
      "(http_step envs)\<^sup>*\<^sup>* (s, h) (s1, h1)" "length (ht_conns s1) = length (ht_conns s)" for data' p1 s1 h1
      using Suc.IH [OF that(1)] Suc.prems(2,3) that(2,3) by auto
    note steps = fed rtranclp.rtrancl_into_rtrancl [OF fed bad(1)] rtranclp.rtrancl_into_rtrancl [OF fed req(1)]
    note unfold = Suc.prems(1) False x f
    show ?thesis
    proof (cases taken)
      case taken: True
      show ?thesis
      proof (cases how)
        case (PausedAfter n)
        then show ?thesis
          using unfold taken q req(2) steps(3) more [OF _ steps(3) req(2)] by (cases e) (auto simp: Let_def)
      next
        case (PausedUpgrade p1)
        then show ?thesis
          using unfold taken more [OF _ fed] by (auto simp: Let_def)
      qed (use unfold taken steps bad(2) in \<open>auto simp: Let_def\<close>)
    qed (use unfold steps bad(2) in \<open>auto simp: Let_def\<close>)
  qed (use Suc.prems in auto)
qed simp


section \<open>Reading ends\<close>

text \<open>What is relied on: llhttp pauses at the end of a message, which has at least one byte, and since
  \<open>on_message_complete\<close> pauses it always, it never gets to report an upgrade.\<close>

definition sound_parser :: "'p request_parser \<Rightarrow> bool" where
  "sound_parser rp \<longleftrightarrow> (\<forall>p d. case snd (rp_execute rp p d) of PausedAfter n \<Rightarrow> 0 < n | PausedUpgrade p' \<Rightarrow> False | _ \<Rightarrow> True)"

lemma read_requests_ends:
  assumes "sound_parser rp" "length data < fuel"
  shows "read_requests fuel rp env a data p s h \<noteq> None"
  using assms(2)
proof (induction fuel arbitrary: data p s h)
  case (Suc fuel)
  obtain es how where x: "rp_execute rp p data = (es, how)" by fastforce
  have how: "case how of PausedAfter n \<Rightarrow> 0 < n | PausedUpgrade p' \<Rightarrow> False | _ \<Rightarrow> True"
    using assms(1) x unfolding sound_parser_def by (metis snd_conv)
  have "read_requests fuel rp env a (drop n data) p1 s1 h1 \<noteq> None" if "data \<noteq> []" "0 < n" for n p1 s1 h1
    using that Suc.prems by (intro Suc.IH) (cases data, auto)
  then show ?case
    using x how by (auto simp: Let_def split: parse_stop.splits prod.splits option.splits)
qed simp

text \<open>Every read of a connection is handled in finitely many rounds, whatever bytes arrive, whatever state the
  parser is in and whatever the message handler does; afterwards the connection is read again only if it is active.\<close>

theorem reads_end:
  assumes "sound_parser rp"
  shows "on_read rp env a data (p, s, h) \<noteq> None"
  using read_requests_ends [OF assms, of data "Suc (length data)" env a p "read_completed a s" h]
  by (simp add: on_read_def del: read_requests.simps)


section \<open>Requests in one read\<close>

text \<open>A connection without a request.\<close>

definition blank :: "http_connection \<Rightarrow> http_connection" where
  "blank c = c\<lparr>hc_url := [], hc_method := [], hc_body := [], hc_headers := [], hc_field := [], hc_value := [],
     hc_complete := False\<rparr>"

lemma reset_blank: "reset_request c = blank c"
  by (simp add: reset_request_def blank_def)

text \<open>The reference: requests, given by their callbacks, handled one after the other, each parsed from a connection
  without a request.\<close>

fun serve_requests ::
    "'h http_env \<Rightarrow> nat \<Rightarrow> parse_event list list \<Rightarrow> http_transport \<Rightarrow> 'h \<Rightarrow> (http_transport \<times> 'h) \<times> read_end" where
  "serve_requests env a [] s h = ((s, h), ReadOn)"
| "serve_requests env a (es # ess) s h =
     (case feed_events es (blank (ht_conns s ! a)) of (c, taken) \<Rightarrow>
        let s1 = s\<lparr>ht_conns := (ht_conns s)[a := c]\<rparr> in
        if \<not> taken then ((bad_request a s1, h), GaveUp)
        else case request_parsed env a s1 h of
          ((s2, h2), None) \<Rightarrow> serve_requests env a ess s2 h2
        | ((s2, h2), Some e) \<Rightarrow> ((s2, h2), Threw e))"

text \<open>A text is a whole request when a fresh parser given anything that begins with it makes the same callbacks and
  pauses after it.\<close>

definition whole_request :: "'p request_parser \<Rightarrow> string \<Rightarrow> parse_event list \<Rightarrow> bool" where
  "whole_request rp text es \<longleftrightarrow> text \<noteq> [] \<and> (\<forall>rest. rp_execute rp (rp_init rp) (text @ rest) = (es, PausedAfter (length text)))"

lemma reset_after_request:
  assumes "request_parsed env a s h = ((s', h'), None)" "a < length (ht_conns s)"
  shows "blank (ht_conns s' ! a) = ht_conns s' ! a" "a < length (ht_conns s')"
proof -
  show len: "a < length (ht_conns s')" using length_request [of env a s h] assms by simp
  from assms(1) obtain u where u: "s' = upd_conn a reset_request u"
    unfolding request_parsed_def Let_def by (auto split: prod.splits option.splits)
  with len show "blank (ht_conns s' ! a) = ht_conns s' ! a"
    by (simp add: upd_conn_def reset_blank) (simp add: blank_def)
qed

lemma read_whole_requests:
  assumes "list_all2 (whole_request rp) texts ess" "length (concat texts) < fuel" "a < length (ht_conns s)"
    and "blank (ht_conns s ! a) = ht_conns s ! a"
  shows "\<exists>p. read_requests fuel rp env a (concat texts) (rp_init rp) s h = Some (p, serve_requests env a ess s h)"
  using assms
proof (induction texts ess arbitrary: fuel s h rule: list_all2_induct)
  case Nil
  then show ?case by (cases fuel) auto
next
  case (Cons tx texts es ess)
  then obtain fuel' where fuel: "fuel = Suc fuel'" by (cases fuel) auto
  have tx: "tx \<noteq> []" "rp_execute rp (rp_init rp) (tx @ concat texts) = (es, PausedAfter (length tx))"
    using Cons.hyps(1) by (simp_all add: whole_request_def)
  obtain c taken where f: "feed_events es (ht_conns s ! a) = (c, taken)" by fastforce
  let ?s = "s\<lparr>ht_conns := (ht_conns s)[a := c]\<rparr>"
  obtain s2 h2 e where q: "request_parsed env a ?s h = ((s2, h2), e)" by (metis surj_pair)
  have step: "read_requests fuel rp env a (concat (tx # texts)) (rp_init rp) s h =
      (if taken then case e of None \<Rightarrow> read_requests fuel' rp env a (concat texts) (rp_init rp) s2 h2
          | Some x \<Rightarrow> Some (rp_init rp, (s2, h2), Threw x)
       else Some (rp_init rp, (bad_request a ?s, h), GaveUp))"
    using tx f q by (simp add: fuel split: option.split)
  have ref: "serve_requests env a (es # ess) s h =
      (if taken then case e of None \<Rightarrow> serve_requests env a ess s2 h2 | Some x \<Rightarrow> ((s2, h2), Threw x)
       else ((bad_request a ?s, h), GaveUp))"
    using f q Cons.prems(3) by (simp split: option.split)
  show ?case
  proof (cases "taken \<and> e = None")
    case True
    have "a < length (ht_conns ?s)" using Cons.prems(2) by simp
    from reset_after_request [OF _ this] q True have s2: "blank (ht_conns s2 ! a) = ht_conns s2 ! a" "a < length (ht_conns s2)"
      by auto
    have "length (concat texts) < fuel'" using Cons.prems(1) tx(1) fuel by (cases tx) auto
    from Cons.IH [OF this s2(2,1)] True show ?thesis
      unfolding step ref by simp
  next
    case False
    then show ?thesis
      unfolding step ref by (auto split: option.split)
  qed
qed

text \<open>C11: Requests that arrive together are handled apart. When a read gives any number of whole requests at once, the
  connection handles them one after the other in their order, each exactly as if its bytes had been parsed alone
  on a connection without a request: nothing of an earlier request is left in a later one. A request that exceeds
  a limit, and one whose handling throws, ends the reading at that place.\<close>

theorem coalesced_requests_are_separate:
  assumes "list_all2 (whole_request rp) texts ess" "a < length (ht_conns s)"
    and "blank (ht_conns s ! a) = ht_conns s ! a"
  shows "\<exists>p. read_requests (Suc (length (concat texts))) rp env a (concat texts) (rp_init rp) s h
      = Some (p, serve_requests env a ess s h)"
  by (rule read_whole_requests [OF assms(1) _ assms(2,3)]) simp

text \<open>A parser for a protocol whose requests are single letters.\<close>

definition ex_parser :: "unit request_parser" where
  "ex_parser = \<lparr>rp_init = (), rp_execute = (\<lambda>p d. ([Method (take 1 d), MessageComplete], PausedAfter 1)),
     rp_after_upgrade = id\<rparr>"

theorem coalesced_requests_are_separate_witness:
  "\<exists>p. read_requests 3 ex_parser ex_env_http 0 ''GP'' () (ex_http [] \<lparr>ht_conns := [HttpConnection]\<rparr>) 0
     = Some (p, serve_requests ex_env_http 0 [[Method ''G'', MessageComplete], [Method ''P'', MessageComplete]]
         (ex_http [] \<lparr>ht_conns := [HttpConnection]\<rparr>) 0)"
proof -
  have "list_all2 (whole_request ex_parser) [''G'', ''P''] [[Method ''G'', MessageComplete], [Method ''P'', MessageComplete]]"
    by (simp add: whole_request_def ex_parser_def)
  from coalesced_requests_are_separate [OF this, of 0 "ex_http [] \<lparr>ht_conns := [HttpConnection]\<rparr>" ex_env_http 0]
  show ?thesis
    by (simp add: ex_parser_def HttpConnection_def blank_def numeral_3_eq_3)
qed


section \<open>Limits and timers in every reachable state\<close>

lemma conns_ok_step:
  assumes "http_step envs st st'" "conns_ok cfg st" "hinv cfg st" "hinv cfg st'"
  shows "conns_ok cfg st'"
  using assms
proof (induction rule: http_step.induct)
  case (accept env s h failed)
  have new: "conns_ok cfg (snd (accept_connection t), h)" if "conns_ok cfg (t, h)" for t
    using that conn_ok_new by (auto simp: accept_connection_def conns_ok_def Let_def)
  have again: "conns_ok cfg (if ht_running t then do_accept t else t, h)" if "conns_ok cfg (t, h)" for t
    using that by (simp add: do_accept_def conns_ok_def)
  have start: "conns_ok cfg (start_read env a t, h)" if "conns_ok cfg (t, h)" for a t
    using that unfolding start_read_def by (rule conns_ok_upd) (auto simp: conn_ok_def within_limits_def)
  let ?s = "s\<lparr>ht_accepting := False\<rparr>"
  have s: "conns_ok cfg (?s, h)" using accept.prems(1) by (simp add: conns_ok_def)
  obtain r t where r: "accept_connection ?s = (r, t)" by fastforce
  with new [OF s] have t: "conns_ok cfg (t, h)" by simp
  show ?case
    using again [OF s] again [OF t] again [OF start [OF t]] r
    by (cases failed; cases r) (simp_all add: on_accept_def Let_def split del: if_split)
next
  case (event a s e c h)
  have "conn_ok cfg (ht_conns s ! a)" using event.prems(1) event.hyps(1) by (simp add: conns_ok_def)
  from conn_ok_event [OF this event.hyps(2)] show ?case
    using event.prems(1) by (auto simp: conns_ok_def dest!: set_update_subset_insert [THEN subsetD])
next
  case (read_begins env s h a)
  show ?case unfolding start_read_def
    by (rule conns_ok_upd [OF read_begins.prems(1)]) (auto simp: conn_ok_def within_limits_def)
next
  case (read_ends s h a)
  show ?case unfolding read_completed_def
    by (rule conns_ok_upd [OF read_ends.prems(1)]) (auto simp: conn_ok_def within_limits_def)
next
  case (timer env s h a)
  have "conns_ok cfg (upd_conn a (\<lambda>c. c\<lparr>hc_timer := None, hc_expired := hc_expired c + 1\<rparr>) s, h)"
    by (rule conns_ok_upd [OF timer.prems(1)]) (auto simp: conn_ok_def within_limits_def)
  then show ?case
    using timer.prems(1) by (simp add: timer_elapsed_def split: option.split)
next
  case (timed_out a s h)
  have c: "conn_ok cfg (ht_conns s ! a)" using timed_out by (simp add: conns_ok_def)
  then have "conn_ok cfg ((ht_conns s ! a)\<lparr>hc_expired := n, hc_open := False, hc_active := False\<rparr>)"
    "\<not> hc_active (ht_conns s ! a) \<Longrightarrow> conn_ok cfg ((ht_conns s ! a)\<lparr>hc_expired := n, hc_open := False\<rparr>)" for n
    by (auto simp: conn_ok_def within_limits_def)
  moreover have "ht_config (read_timed_out a s) = cfg" using timed_out.prems(3) by (simp add: hinv_def Let_def)
  ultimately show ?case
    using timed_out by (auto simp: conns_ok_def read_timed_out_def conn_on_error_def Let_def upd_conn_def
        dest!: set_update_subset_insert [THEN subsetD])
next
  case (started env s h address listen)
  then show ?case by (simp add: conns_ok_def hinv_def Let_def)
next
  case (sets s h b b')
  then show ?case by (simp add: conns_ok_def hinv_def Let_def)
next
  case (handler s h h')
  then show ?case by (simp add: conns_ok_def)
next
  case (request env a s h)
  have "conns_rel conn_le s (fst (fst (request_parsed env a s h)))" by (rule le.keeps_request) simp
  then have "conns_ok cfg (fst (fst (request_parsed env a s h)), h)"
    using request.prems by (intro conns_ok_le [OF request.prems(1)]) (simp_all add: hinv_def Let_def)
  then show ?case by (simp add: conns_ok_def)
next
  case (read_error a s h)
  have "conns_ok cfg (read_completed a s, h)" unfolding read_completed_def
    by (rule conns_ok_upd [OF read_error.prems(1)]) (auto simp: conn_ok_def within_limits_def)
  moreover have "conns_rel conn_le (read_completed a s) (read_failed a s)"
    unfolding read_failed_def by (rule le.keeps_on_error) simp
  moreover have "ht_config (read_failed a s) = ht_config (read_completed a s)"
    using read_error.prems by (simp add: hinv_def Let_def read_completed_def upd_conn_def)
  ultimately show ?case by (rule conns_ok_le)
qed (erule conns_ok_le, (rule le.keeps_refl | rule le.keeps_bad_request | rule le.keeps_sweep_due | rule le.keeps_call_sink
    | rule le.keeps_push | rule le.keeps_stop)+, (simp add: hinv_def Let_def)?)+


definition rinv :: "http_config \<Rightarrow> http_transport \<times> 'h \<Rightarrow> bool" where
  "rinv cfg st \<longleftrightarrow> hinv cfg st \<and> conns_ok cfg st"

interpretation reading: invariant_system "http_start cfg" "http_step envs" "rinv cfg" for cfg envs
proof unfold_locales
  show "rinv cfg st" if "http_start cfg st" for st :: "http_transport \<times> 'a"
    using hinv_start [OF that] that by (auto simp: rinv_def http_start_def conns_ok_def HttpTransport_def)
  show "rinv cfg st'" if "rinv cfg st" "http_step envs st st'" for st st' :: "http_transport \<times> 'a"
    using that hinv_step [OF that(2)] conns_ok_step [OF that(2)] by (simp add: rinv_def)
qed

lemma reachable_rinv:
  assumes "(http_step envs)\<^sup>*\<^sup>* (HttpTransport cfg, h0) st"
  shows "rinv cfg st"
proof -
  have "http_start cfg (HttpTransport cfg, h0)" by (auto simp: http_start_def HttpTransport_def)
  then show ?thesis using assms by (rule reading.reachable_inv)
qed

lemma reachable_conn_ok:
  assumes "(http_step envs)\<^sup>*\<^sup>* (HttpTransport cfg, h0) (s, h)" "a < length (ht_conns s)"
  shows "conn_ok cfg (ht_conns s ! a)"
  using reachable_rinv [OF assms(1)] assms(2) by (simp add: rinv_def conns_ok_def)

text \<open>C12: Requests stay within the limits of the configuration. Whatever happens to the transport, in any order, no
  connection ever holds more than the configured number of bytes of a body, of a URL, of a header name or of a
  header value, or more than the configured number of headers.\<close>

theorem requests_stay_within_limits:
  assumes "(http_step envs)\<^sup>*\<^sup>* (HttpTransport cfg, h0) (s, h)" "a < length (ht_conns s)" "c = ht_conns s ! a"
  shows "length (hc_body c) \<le> cfg_max_body cfg \<and> length (hc_url c) \<le> cfg_max_line cfg
    \<and> length (hc_field c) \<le> cfg_max_line cfg \<and> length (hc_value c) \<le> cfg_max_line cfg
    \<and> length (hc_headers c) \<le> cfg_max_headers cfg"
  using reachable_conn_ok [OF assms(1,2)] assms(3) by (simp add: conn_ok_def within_limits_def split: if_splits)

theorem requests_stay_within_limits_witness:
  "length (hc_body (ht_conns (on_accept ex_caps_env False (HttpTransport default_config)) ! 0)) \<le> 1024 * 1024"
proof -
  let ?s = "on_accept ex_caps_env False (HttpTransport default_config)"
  have run: "(http_step {ex_caps_env})\<^sup>*\<^sup>* (HttpTransport default_config, 0) (?s, 0)"
    by (rule r_into_rtranclp) (rule http_step.accept, simp)
  have "0 < length (ht_conns ?s)"
    by (simp add: default_config_def on_accept_def accept_connection_def HttpTransport_def start_read_def upd_conn_def do_accept_def Let_def)
  from requests_stay_within_limits [OF run this refl] show ?thesis by (simp add: default_config_def)
qed

text \<open>What the timer does to a connection that it catches.\<close>

lemma timed_out_effect:
  assumes "a < length (ht_conns s)" "hc_expired (ht_conns s ! a) > 0" "hc_active (ht_conns s ! a)" "hc_release (ht_conns s ! a)"
  shows "\<not> hc_active (ht_conns (read_timed_out a s) ! a) \<and> \<not> hc_open (ht_conns (read_timed_out a s) ! a)
    \<and> ht_count (read_timed_out a s) = ht_count s - 1"
proof -
  have count: "ht_count (run_disconnect d t) = ht_count t" for d t
    by (simp add: run_disconnect_def upd_session_def unregister_sse_connection_def upd_stream_def split: disconnect_action.split option.split)
  show ?thesis
    using assms by (auto simp: read_timed_out_def conn_on_error_def upd_conn_def release_slot_def count Let_def)
qed

text \<open>C13: No read stalls for ever. If a read timeout is configured, then in every reachable state the timer of every active
  connection that waits for data and is not an event stream is running, or has just ended; and when it ends, and its
  handler runs, the connection is closed and its slot is free again.\<close>

theorem no_read_stalls:
  assumes "(http_step envs)\<^sup>*\<^sup>* (HttpTransport cfg, h0) (s, h)" "cfg_read_timeout cfg > 0"
    and "a < length (ht_conns s)" "c = ht_conns s ! a" "hc_active c" "hc_reading c" "\<not> hc_streaming c"
  shows "(hc_timer c \<noteq> None \<or> hc_expired c > 0)
    \<and> (hc_expired c > 0 \<or> (\<exists>due \<le> he_now env. hc_timer c = Some due) \<longrightarrow>
        (let t = read_timed_out a (timer_elapsed env a s) in
         \<not> hc_active (ht_conns t ! a) \<and> \<not> hc_open (ht_conns t ! a) \<and> ht_count t + 1 = ht_count s))"
proof -
  have ok: "conn_ok cfg c" using reachable_conn_ok [OF assms(1,3)] assms(4) by simp
  have "ht_conns s ! a \<in> set (filter hc_active (ht_conns s))" using assms(3-5) by simp
  then have "0 < length (filter hc_active (ht_conns s))" by (rule length_pos_if_in_set)
  moreover have "length (filter hc_active (ht_conns s)) \<le> ht_count s"
    using reachable_rinv [OF assms(1)] by (simp add: rinv_def hinv_def Let_def actives_def)
  ultimately have pos: "0 < ht_count s" by linarith
  have closed: "\<not> hc_active (ht_conns (read_timed_out a t) ! a) \<and> \<not> hc_open (ht_conns (read_timed_out a t) ! a)
      \<and> ht_count (read_timed_out a t) + 1 = ht_count s"
    if "t = s \<or> t = upd_conn a (\<lambda>c. c\<lparr>hc_timer := None, hc_expired := hc_expired c + 1\<rparr>) s" "hc_expired (ht_conns t ! a) > 0" for t
    using that timed_out_effect [of a t] assms(3-5) ok pos by (auto simp: upd_conn_def conn_ok_def)
  have "timer_elapsed env a s = s
      \<or> timer_elapsed env a s = upd_conn a (\<lambda>c. c\<lparr>hc_timer := None, hc_expired := hc_expired c + 1\<rparr>) s"
    by (simp add: timer_elapsed_def split: option.split)
  moreover have "hc_expired (ht_conns (timer_elapsed env a s) ! a) > 0"
    if "hc_expired c > 0 \<or> (\<exists>due \<le> he_now env. hc_timer c = Some due)"
    using that assms(3,4) by (auto simp: timer_elapsed_def upd_conn_def split: option.split)
  ultimately show ?thesis
    using closed [of "timer_elapsed env a s"] ok assms(2,5-7) by (auto simp: conn_ok_def Let_def)
qed


definition ex_reading :: http_transport where
  "ex_reading = on_accept ex_caps_env False (HttpTransport default_config)"

lemma ex_reading_run: "(http_step {ex_caps_env})\<^sup>*\<^sup>* (HttpTransport default_config, 0) (ex_reading, 0)"
  unfolding ex_reading_def by (rule r_into_rtranclp) (rule http_step.accept, simp)

lemma ex_reading_eval:
  "ht_conns ex_reading = [(new_connection default_config)\<lparr>hc_timer := Some 30000, hc_reading := True\<rparr>]" "ht_count ex_reading = 1"
  by (simp_all add: ex_reading_def default_config_def on_accept_def accept_connection_def HttpTransport_def start_read_def upd_conn_def
      do_accept_def Let_def ex_caps_env_def new_connection_def HttpConnection_def)

theorem no_read_stalls_witness:
  "\<not> hc_open (ht_conns (read_timed_out 0 (timer_elapsed (ex_caps_env\<lparr>he_now := 30000\<rparr>) 0 ex_reading)) ! 0)"
proof -
  let ?c = "ht_conns ex_reading ! 0"
  have c: "hc_active ?c" "hc_reading ?c" "\<not> hc_streaming ?c" "hc_timer ?c = Some 30000" "0 < length (ht_conns ex_reading)"
    by (simp_all add: ex_reading_eval new_connection_def HttpConnection_def)
  have "cfg_read_timeout default_config > 0" by (simp add: default_config_def)
  from no_read_stalls [OF ex_reading_run this c(5) refl c(1-3), of "ex_caps_env\<lparr>he_now := 30000\<rparr>"] c(4)
  show ?thesis by (simp add: Let_def)
qed


section \<open>Streams of the legacy mode\<close>

lemma dropping_write_conns:
  assumes "wq_policy (hc_queue (ht_conns s ! a)) = DropNewest"
  shows "\<exists>q. ht_conns (conn_write a d s) = (ht_conns s)[a := (ht_conns s ! a)\<lparr>hc_queue := q\<rparr>]
    \<and> ht_legacy (conn_write a d s) = ht_legacy s \<and> ht_streams (conn_write a d s) = ht_streams s"
proof -
  have "ht_conns s = (ht_conns s)[a := (ht_conns s ! a)\<lparr>hc_queue := hc_queue (ht_conns s ! a)\<rparr>]" by simp
  then show ?thesis
    using assms by (auto simp: conn_write_def enqueue_write_def enqueue_def upd_conn_def intro: exI [of _ "hc_queue (ht_conns s ! a)"])
qed

text \<open>C39: The read timeout closes the event streams of the legacy mode. \<open>handle_sse_connect\<close> does not mark its connection as
  a stream, as \<open>handle_get_sse\<close> does: when the connection is read again, its timer is armed, and if the client
  sends nothing until it ends, the stream is closed and removed, although nothing is wrong with it.\<close>

theorem legacy_streams_time_out:
  assumes "a < length (ht_conns s)" "hc_active (ht_conns s ! a)" "\<not> hc_streaming (ht_conns s ! a)"
    and "hc_read_timeout (ht_conns s ! a) > 0" "wq_policy (hc_queue (ht_conns s ! a)) = DropNewest"
    and "t = start_read env a (handle_sse_connect a s)" "he_now env' \<ge> he_now env + hc_read_timeout (ht_conns s ! a)"
    and "u = read_timed_out a (timer_elapsed env' a t)"
  shows "length (ht_streams s) \<in> set (ht_legacy t) \<and> hc_timer (ht_conns t ! a) = Some (he_now env + hc_read_timeout (ht_conns s ! a))
    \<and> length (ht_streams s) \<notin> set (ht_legacy u) \<and> \<not> hc_open (ht_conns u ! a) \<and> \<not> hc_active (ht_conns u ! a)"
proof -
  let ?k = "length (ht_streams s)"
  let ?c = "(ht_conns s ! a)\<lparr>hc_disc := LeaveLegacy ?k\<rparr>"
  let ?h = "handle_sse_connect a s"
  have "\<exists>q. ht_conns ?h ! a = ?c\<lparr>hc_queue := q\<rparr> \<and> a < length (ht_conns ?h) \<and> ht_legacy ?h = ht_legacy s @ [?k]
      \<and> length (ht_streams ?h) = Suc ?k"
  proof -
    let ?s = "upd_conn a (\<lambda>c. c\<lparr>hc_disc := LeaveLegacy ?k\<rparr>) (s\<lparr>ht_streams := ht_streams s @ [\<lparr>sse_conn = a, sse_active = True\<rparr>]\<rparr>)"
    have "wq_policy (hc_queue (ht_conns ?s ! a)) = DropNewest" using assms(1,5) by (simp add: upd_conn_def)
    from dropping_write_conns [OF this, of "stream_head [] @ ''event: endpoint'' @ [lf] @ ''data: '' @ cfg_message_path (ht_config s) @ [lf, lf]"]
    show ?thesis
      using assms(1) by (auto simp: handle_sse_connect_def Let_def upd_conn_def)
  qed
  then obtain q where h: "ht_conns ?h ! a = ?c\<lparr>hc_queue := q\<rparr>" "a < length (ht_conns ?h)" "ht_legacy ?h = ht_legacy s @ [?k]"
    "length (ht_streams ?h) = Suc ?k" by blast
  have t: "ht_conns t ! a = ?c\<lparr>hc_queue := q, hc_timer := Some (he_now env + hc_read_timeout (ht_conns s ! a)), hc_reading := True\<rparr>"
      "a < length (ht_conns t)" "ht_legacy t = ht_legacy s @ [?k]" "length (ht_streams t) = Suc ?k"
    using h assms(3,4,6) by (simp_all add: start_read_def upd_conn_def)
  then show ?thesis
    using assms(2,7,8) by (auto simp: timer_elapsed_def read_timed_out_def conn_on_error_def upd_conn_def run_disconnect_def
        unregister_sse_connection_def upd_stream_def release_slot_def Let_def)
qed

theorem legacy_streams_time_out_witness:
  "let s = start_read ex_caps_env 0 (handle_sse_connect 0 ex_reading);
       u = read_timed_out 0 (timer_elapsed (ex_caps_env\<lparr>he_now := 30000\<rparr>) 0 s)
   in 0 \<in> set (ht_legacy s) \<and> 0 \<notin> set (ht_legacy u)"
proof -
  have c: "0 < length (ht_conns ex_reading)" "hc_active (ht_conns ex_reading ! 0)" "\<not> hc_streaming (ht_conns ex_reading ! 0)"
    "hc_read_timeout (ht_conns ex_reading ! 0) = 30000" "wq_policy (hc_queue (ht_conns ex_reading ! 0)) = DropNewest"
    by (simp_all add: ex_reading_eval new_connection_def HttpConnection_def default_config_def make_write_queue_def)
  have "length (ht_streams ex_reading) = 0"
    by (simp add: ex_reading_def default_config_def on_accept_def accept_connection_def HttpTransport_def start_read_def upd_conn_def
      do_accept_def Let_def)
  moreover have "he_now (ex_caps_env\<lparr>he_now := 30000\<rparr>) \<ge> he_now ex_caps_env + hc_read_timeout (ht_conns ex_reading ! 0)"
    by (simp add: c(4) ex_caps_env_def)
  ultimately show ?thesis
    using legacy_streams_time_out [OF c(1-3) _ c(5) refl _ refl] c(4) by (metis less_numeral_simps(2) list.size(3) of_nat_numeral zero_less_numeral)
qed

end
