(* ===== verification/Http_Sweep.thy ===== *)
theory Http_Sweep
  imports Http_Reading
begin

text \<open>
  The sweep of idle sessions (\<open>arm_session_sweep\<close>, \<open>sweep_sessions\<close> in \<open>http_transport.cpp\<close>): a timer that drops the
  sessions without activity and closes their streams, and nothing else. And starting the transport.
\<close>

section \<open>Idle sessions\<close>

text \<open>The sessions with the time of their last activity.\<close>

definition ages :: "http_transport \<Rightarrow> (string \<times> int) list" where
  "ages s = map (\<lambda>(i, h). (i, hs_last_activity h)) (ht_sessions s)"

lemma map_oset_same:
  assumes "osorted m" "map_of m k = Some v" "g v' = g v"
  shows "map (\<lambda>(i, h). (i, g h)) (oset k v' m) = map (\<lambda>(i, h). (i, g h)) m"
  using assms
proof (induction k v' m rule: oset.induct)
  case (2 k v' k0 v0 m)
  then have "k \<in> fst ` set m" if "k \<noteq> k0" using that by (force dest: map_of_SomeD)
  with 2 show ?case by (auto simp: osorted_Cons split: if_splits)
qed simp

lemma osorted_ages: "osorted (ht_sessions s) \<longleftrightarrow> osorted (ages s)"
  by (simp add: osorted_def ages_def comp_def case_prod_unfold)

lemma ages_same [simp]:
  "ages (upd_conn a f s) = ages s" "ages (release_slot s) = ages s" "ages (unregister_sse_connection k s) = ages s"
  "ages (arm_session_sweep env s) = ages s" "ages (deactivate_streams ks s) = ages s"
  by (simp_all add: ages_def upd_conn_def release_slot_def unregister_sse_connection_def upd_stream_def arm_session_sweep_def Let_def)

lemma ages_disconnect [simp]: "osorted (ages s) \<Longrightarrow> ages (run_disconnect d s) = ages s"
proof (cases d)
  case (LeaveSession sid k)
  assume "osorted (ages s)"
  then have "osorted (ht_sessions s)" by (simp add: osorted_ages)
  from map_oset_same [OF this, of sid _ hs_last_activity] LeaveSession show ?thesis
    by (auto simp: run_disconnect_def upd_session_def ages_def split: option.split)
qed (simp_all add: run_disconnect_def)

lemma ages_close_stream: "osorted (ages s) \<Longrightarrow> ages (close_stream k s) = ages s"
  by (simp add: close_stream_def conn_on_error_def Let_def)

lemma ages_close_streams: "osorted (ages s) \<Longrightarrow> ages (fold close_stream ks s) = ages s"
  by (induction ks arbitrary: s) (simp_all add: ages_close_stream)

text \<open>Streams that are closed stay closed.\<close>

definition stream_le :: "sse_connection \<Rightarrow> sse_connection \<Rightarrow> bool" where
  "stream_le x y \<longleftrightarrow> sse_conn y = sse_conn x \<and> (sse_active y \<longrightarrow> sse_active x)"

definition streams_rel :: "http_transport \<Rightarrow> http_transport \<Rightarrow> bool" where
  "streams_rel s t \<longleftrightarrow> list_all2 stream_le (ht_streams s) (ht_streams t)"

lemma streams_rel_same: "ht_streams t = ht_streams s \<Longrightarrow> streams_rel s t"
  by (simp add: streams_rel_def stream_le_def list.rel_refl)

lemma streams_rel_trans: "streams_rel s t \<Longrightarrow> streams_rel t u \<Longrightarrow> streams_rel s u"
  unfolding streams_rel_def by (rule list_all2_trans [of stream_le]) (auto simp: stream_le_def)

lemma streams_rel_off: "streams_rel s (upd_stream k (\<lambda>c. c\<lparr>sse_active := False\<rparr>) s)"
  by (cases "k < length (ht_streams s)")
    (auto simp: streams_rel_def upd_stream_def list_all2_conv_all_nth nth_list_update stream_le_def list_update_beyond)

lemma streams_rel_off_all: "streams_rel s (deactivate_streams ks s)"
  unfolding deactivate_streams_def
  by (induction ks arbitrary: s) (auto intro: streams_rel_same streams_rel_trans [OF streams_rel_off])

lemma streams_rel_close: "streams_rel s (close_stream k s)"
proof -
  have "streams_rel t (run_disconnect d t)" for d t
    using streams_rel_off [of "t\<lparr>ht_legacy := l\<rparr>" for l]
    by (auto simp: run_disconnect_def unregister_sse_connection_def upd_session_def streams_rel_def upd_stream_def
        intro: streams_rel_same [unfolded streams_rel_def] split: disconnect_action.split option.split)
  then have "streams_rel s (run_disconnect d t)" if "ht_streams t = ht_streams s" for d t
    using streams_rel_trans [OF streams_rel_same [OF that]] by blast
  then show ?thesis
    by (auto simp: close_stream_def conn_on_error_def Let_def upd_conn_def release_slot_def streams_rel_same)
qed

definition dead_conn :: "nat \<Rightarrow> http_transport \<Rightarrow> bool" where
  "dead_conn a s \<longleftrightarrow> \<not> hc_active (ht_conns s ! a) \<and> \<not> hc_open (ht_conns s ! a)"

lemma dead_conn_stays: "dead_conn a s \<Longrightarrow> conns_rel conn_le s t \<Longrightarrow> a < length (ht_conns s) \<Longrightarrow> dead_conn a t"
  by (auto simp: dead_conn_def conns_rel_def list_all2_conv_all_nth conn_le_def)

lemma close_stream_kills: "sse_conn (ht_streams s ! k) < length (ht_conns s) \<Longrightarrow> dead_conn (sse_conn (ht_streams s ! k)) (close_stream k s)"
  by (auto simp: close_stream_def conn_on_error_def dead_conn_def Let_def upd_conn_def)

lemma close_streams_kill:
  assumes "\<forall>k \<in> set ks. k < length (ht_streams s) \<and> sse_conn (ht_streams s ! k) < length (ht_conns s)"
  shows "conns_rel conn_le s (fold close_stream ks s) \<and> streams_rel s (fold close_stream ks s)
    \<and> (\<forall>k \<in> set ks. dead_conn (sse_conn (ht_streams s ! k)) (fold close_stream ks s))"
  using assms
proof (induction ks arbitrary: s)
  case (Cons k ks)
  let ?t = "close_stream k s"
  have c: "conns_rel conn_le s ?t" by (rule le.keeps_close_stream) simp
  have st: "streams_rel s ?t" by (rule streams_rel_close)
  then have len: "length (ht_conns ?t) = length (ht_conns s)" "length (ht_streams ?t) = length (ht_streams s)"
      and conn: "\<And>j. j < length (ht_streams s) \<Longrightarrow> sse_conn (ht_streams ?t ! j) = sse_conn (ht_streams s ! j)"
    using c by (auto simp: conns_rel_def streams_rel_def list_all2_conv_all_nth stream_le_def)
  with Cons.prems have "\<forall>j \<in> set ks. j < length (ht_streams ?t) \<and> sse_conn (ht_streams ?t ! j) < length (ht_conns ?t)" by simp
  note IH = Cons.IH [OF this]
  have "dead_conn (sse_conn (ht_streams s ! k)) (fold close_stream ks ?t)"
    using close_stream_kills [of s k] dead_conn_stays [OF _ IH [THEN conjunct1]] Cons.prems len by simp
  with IH c st conn Cons.prems show ?case
    by (auto intro: le.keeps_trans streams_rel_trans)
qed (simp add: streams_rel_same)

lemma deactivate_streams_off:
  "k \<in> set ks \<Longrightarrow> k < length (ht_streams s) \<Longrightarrow> \<not> sse_active (ht_streams (deactivate_streams ks s) ! k)"
proof (induction ks arbitrary: s)
  case (Cons j ks)
  let ?t = "upd_stream j (\<lambda>c. c\<lparr>sse_active := False\<rparr>) s"
  have fold: "deactivate_streams (j # ks) s = deactivate_streams ks ?t" by (simp add: deactivate_streams_def)
  have "streams_rel ?t (deactivate_streams ks ?t)" by (rule streams_rel_off_all)
  then have "\<not> sse_active (ht_streams ?t ! k) \<Longrightarrow> \<not> sse_active (ht_streams (deactivate_streams ks ?t) ! k)"
    using Cons.prems(2) by (auto simp: streams_rel_def list_all2_conv_all_nth stream_le_def upd_stream_def)
  moreover have "\<not> sse_active (ht_streams ?t ! k)" if "k = j" using that Cons.prems(2) by (simp add: upd_stream_def)
  ultimately show ?case
    using Cons by (cases "k = j") (auto simp: fold upd_stream_def)
qed simp


lemma config_close_streams: "ht_config (fold close_stream ks s) = ht_config s \<and> ht_io (fold close_stream ks s) = ht_io s"
proof -
  have "ht_config (close_stream k t) = ht_config t \<and> ht_io (close_stream k t) = ht_io t" for k t
    by (auto simp: close_stream_def conn_on_error_def Let_def upd_conn_def release_slot_def run_disconnect_def upd_session_def
        unregister_sse_connection_def upd_stream_def split: disconnect_action.split option.split)
  then show ?thesis by (induction ks arbitrary: s) simp_all
qed

lemma config_deactivate [simp]: "ht_config (deactivate_streams ks s) = ht_config s" "ht_io (deactivate_streams ks s) = ht_io s"
  unfolding deactivate_streams_def by (induction ks arbitrary: s) (simp_all add: upd_stream_def)

text \<open>Streams switched off and then closed, whatever else is done to the sessions in between.\<close>

lemma off_and_closed:
  assumes "\<forall>k \<in> set ks. k < length (ht_streams s) \<and> sse_conn (ht_streams s ! k) < length (ht_conns s)" "k \<in> set ks"
  shows "\<not> sse_active (ht_streams (fold close_stream ks ((deactivate_streams ks s)\<lparr>ht_sessions := se\<rparr>)) ! k)
    \<and> dead_conn (sse_conn (ht_streams s ! k)) (fold close_stream ks ((deactivate_streams ks s)\<lparr>ht_sessions := se\<rparr>))"
proof -
  define u where "u = (deactivate_streams ks s)\<lparr>ht_sessions := se\<rparr>"
  have off: "streams_rel s u"
    using streams_rel_off_all [of s ks] by (simp add: streams_rel_def u_def)
  have conns: "ht_conns u = ht_conns s" by (simp add: u_def)
  have all: "\<forall>k \<in> set ks. k < length (ht_streams u) \<and> sse_conn (ht_streams u ! k) < length (ht_conns u)"
    using assms(1) off conns by (auto simp: streams_rel_def list_all2_conv_all_nth stream_le_def)
  have "\<not> sse_active (ht_streams u ! k)"
    using deactivate_streams_off [OF assms(2)] assms by (simp add: u_def)
  moreover have "sse_conn (ht_streams u ! k) = sse_conn (ht_streams s ! k)"
    using off assms by (auto simp: streams_rel_def list_all2_conv_all_nth stream_le_def)
  ultimately show ?thesis
    using close_streams_kill [OF all] all assms(2)
    by (auto simp: streams_rel_def list_all2_conv_all_nth stream_le_def u_def [symmetric])
qed

text \<open>C14: Exactly the idle sessions are dropped. In every reachable state in which the transport runs and the wait of the
  sweep timer has ended, the sessions whose last activity is longer ago than the idle timeout are removed, and
  their event streams are closed with their connections; every other session stays with its time of activity; and the
  next sweep comes after the timeout, or a second if that is longer, so that no session without activity
  outlives its timeout by more than that.\<close>

theorem idle_sessions_are_dropped:
  assumes "(http_step envs)\<^sup>*\<^sup>* (HttpTransport cfg, h0) (s, h)" "ht_running s" "ht_io s" "cfg_idle_timeout cfg > 0"
    and "ht_sweep s = Some due" "due \<le> he_now env" "t = sweep_due env s"
  shows "ages t = filter (\<lambda>(i, last). he_now env - last \<le> cfg_idle_timeout cfg) (ages s)
    \<and> (\<forall>(i, x) \<in> set (ht_sessions s). he_now env - hs_last_activity x > cfg_idle_timeout cfg \<longrightarrow>
         (\<forall>k \<in> set (hs_streams x). \<not> sse_active (ht_streams t ! k) \<and> dead_conn (sse_conn (ht_streams s ! k)) t))
    \<and> (\<exists>next. ht_sweep t = Some next \<and> next = he_now env + max (cfg_idle_timeout cfg) 1000
         \<and> (\<forall>(i, last) \<in> set (ages t). next \<le> last + cfg_idle_timeout cfg + max (cfg_idle_timeout cfg) 1000))"
proof -
  define idle where "idle = (\<lambda>p :: string \<times> http_session. he_now env - hs_last_activity (snd p) > cfg_idle_timeout cfg)"
  define ks where "ks = concat (map (\<lambda>(i, x). hs_streams x) (filter idle (ht_sessions s)))"
  define u where "u = (deactivate_streams ks (s\<lparr>ht_sweep := None\<rparr>))\<lparr>ht_sessions := filter (\<lambda>p. \<not> idle p) (ht_sessions s)\<rparr>"
  have inv: "ht_config s = cfg" "linked s"
    using reachable_rinv [OF assms(1)] by (simp_all add: rinv_def hinv_def Let_def)
  have t: "t = arm_session_sweep env (fold close_stream ks u)"
    using assms(2,5-7) inv(1) by (simp add: sweep_due_def sweep_sessions_def Let_def case_prod_unfold u_def ks_def idle_def)
  have "ages u = filter (\<lambda>(i, last). he_now env - last \<le> cfg_idle_timeout cfg) (ages s)"
    by (simp add: ages_def filter_map comp_def case_prod_unfold not_less u_def idle_def)
  moreover from this have "osorted (ages u)"
    using inv(2) by (simp add: osorted_filter linked_def osorted_ages)
  then have "ages (fold close_stream ks u) = ages u" by (rule ages_close_streams)
  ultimately have ages: "ages t = filter (\<lambda>(i, last). he_now env - last \<le> cfg_idle_timeout cfg) (ages s)"
    by (simp add: t)
  have valid: "\<forall>k \<in> set ks. k < length (ht_streams (s\<lparr>ht_sweep := None\<rparr>))
      \<and> sse_conn (ht_streams (s\<lparr>ht_sweep := None\<rparr>) ! k) < length (ht_conns (s\<lparr>ht_sweep := None\<rparr>))"
    using inv(2) by (force simp: linked_def ks_def)
  have "\<not> sse_active (ht_streams t ! k) \<and> dead_conn (sse_conn (ht_streams s ! k)) t" if "k \<in> set ks" for k
    using off_and_closed [OF valid that] by (simp add: t u_def dead_conn_def arm_session_sweep_def Let_def)
  then have "\<forall>(i, x) \<in> set (ht_sessions s). he_now env - hs_last_activity x > cfg_idle_timeout cfg \<longrightarrow>
      (\<forall>k \<in> set (hs_streams x). \<not> sse_active (ht_streams t ! k) \<and> dead_conn (sse_conn (ht_streams s ! k)) t)"
    by (fastforce simp: ks_def idle_def)
  moreover have "ht_sweep t = Some (he_now env + max (cfg_idle_timeout cfg) 1000)"
    using config_close_streams [of ks u] inv(1) assms(3,4)
    by (simp add: t arm_session_sweep_def Let_def u_def max_def)
  ultimately show ?thesis
    using ages by auto
qed

theorem idle_sessions_are_dropped_witness:
  "ht_sweep (sweep_due (ex_caps_env\<lparr>he_now := 3600000\<rparr>)
     (fst (start_http (\<lambda>_. True) (Inr (Some 3000)) ex_caps_env (http_set_io True (http_set_error_handler True (HttpTransport default_config))))))
   = Some 7200000"
proof -
  let ?init = "http_set_io True (http_set_error_handler True (HttpTransport default_config))"
  let ?s = "fst (start_http (\<lambda>_. True) (Inr (Some 3000)) ex_caps_env ?init)"
  have steps: "http_step {ex_caps_env} (HttpTransport default_config, 0) (?init, 0)" "http_step {ex_caps_env} (?init, 0) (?s, 0)"
    by (rule http_step.sets, rule http_step.started, simp)
  then have run: "(http_step {ex_caps_env})\<^sup>*\<^sup>* (HttpTransport default_config, 0) (?s, 0)"
    by (rule rtranclp.rtrancl_into_rtrancl [OF r_into_rtranclp])
  have s: "ht_running ?s" "ht_io ?s" "ht_sweep ?s = Some 3600000" "cfg_idle_timeout default_config > 0"
    by (simp_all add: start_http_def http_set_io_def http_set_error_handler_def HttpTransport_def default_config_def do_accept_def
        arm_session_sweep_def ex_caps_env_def Let_def)
  have "3600000 \<le> he_now (ex_caps_env\<lparr>he_now := 3600000\<rparr>)" by simp
  from idle_sessions_are_dropped [OF run s(1,2,4,3) this refl] show ?thesis
    by (simp add: default_config_def)
qed

end
