(* ===== verification/Line_Framing.thy ===== *)
theory Line_Framing
  imports Http_Util "HOL-Library.Sublist"
begin

text \<open>
  Newline-delimited messages, as the standard I/O and local pipe transports exchange them. All four
  read with \<open>asio::async_read_until\<close>, take the reported number of bytes off the buffer, strip the end
  of the line and handle what is left. Their common contract is the locale \<open>line_reader\<close>: a completed
  read takes one line off the buffer and acts on it. What is proved once there is that the bytes of a
  stream are handled line by line and in order, however the stream is cut into pieces.
\<close>

section \<open>Definitions\<close>

text \<open>The number of bytes with which \<open>async_read_until(stream, buffer, '\n')\<close> completes, by its
  documentation: up to and including the first newline in the buffer.\<close>

definition read_until :: "string \<Rightarrow> nat option" where
  "read_until buf = map_option Suc (find_char lf buf)"

text \<open>\<open>while (!line.empty() && (line.back() == '\n' || line.back() == '\r')) line.pop_back();\<close>\<close>

definition strip_eol :: "string \<Rightarrow> string" where
  "strip_eol = strip_back (\<lambda>c. c = lf \<or> c = cr)"

text \<open>The read loop of one stream: while a read is outstanding and the buffer holds a newline, the read
  completes and \<open>on_read\<close> runs. Each completion takes at least one byte, so as many rounds as the buffer has
  bytes are enough.\<close>

fun deliver :: "nat \<Rightarrow> ('s \<Rightarrow> string) \<Rightarrow> ('s \<Rightarrow> bool) \<Rightarrow> (nat \<Rightarrow> 's \<Rightarrow> 's) \<Rightarrow> 's \<Rightarrow> 's" where
  "deliver 0 buf reading on_read s = s"
| "deliver (Suc fuel) buf reading on_read s =
     (if reading s then
        (case read_until (buf s) of None \<Rightarrow> s | Some n \<Rightarrow> deliver fuel buf reading on_read (on_read n s))
      else s)"

definition arrive ::
    "('s \<Rightarrow> string) \<Rightarrow> (string \<Rightarrow> 's \<Rightarrow> 's) \<Rightarrow> ('s \<Rightarrow> bool) \<Rightarrow> (nat \<Rightarrow> 's \<Rightarrow> 's) \<Rightarrow> string \<Rightarrow> 's \<Rightarrow> 's" where
  "arrive buf set_buf reading on_read chunk s =
     deliver (length (buf s @ chunk)) buf reading on_read (set_buf (buf s @ chunk) s)"

text \<open>A stream as its complete lines and what follows the last newline.\<close>

fun split_lines :: "string \<Rightarrow> string list \<times> string" where
  "split_lines [] = ([], [])"
| "split_lines (c # cs) =
     (case split_lines cs of (ls, r) \<Rightarrow>
        if c = lf then ([] # ls, r) else (case ls of [] \<Rightarrow> ([], c # r) | l # ls' \<Rightarrow> ((c # l) # ls', r)))"

definition join_lines :: "string list \<Rightarrow> string" where
  "join_lines ls = concat (map (\<lambda>l. l @ [lf]) ls)"


section \<open>Splitting and joining\<close>

lemma join_lines_simps [simp]: "join_lines [] = []" "join_lines (l # ls) = l @ lf # join_lines ls"
  "join_lines (ls @ ms) = join_lines ls @ join_lines ms"
  by (simp_all add: join_lines_def)

lemma cr_neq_lf [simp]: "cr \<noteq> lf" "lf \<noteq> cr"
  by (simp_all add: cr_def lf_def)

lemma split_lines_rest: "lf \<notin> set r \<Longrightarrow> split_lines r = ([], r)"
  by (induction r) auto

lemma split_lines_line: "lf \<notin> set l \<Longrightarrow> split_lines (l @ lf # s) = (case split_lines s of (ls, r) \<Rightarrow> (l # ls, r))"
  by (induction l) (auto split: prod.split)

lemma split_lines_join:
  "lf \<notin> set r \<Longrightarrow> \<forall>l \<in> set ls. lf \<notin> set l \<Longrightarrow> split_lines (join_lines ls @ r) = (ls, r)"
  by (induction ls) (simp_all add: split_lines_rest split_lines_line)

lemma split_linesD:
  "split_lines s = (ls, r) \<Longrightarrow> s = join_lines ls @ r \<and> lf \<notin> set r \<and> (\<forall>l \<in> set ls. lf \<notin> set l)"
  by (induction s arbitrary: ls r) (auto split: prod.splits if_splits list.splits)

lemma split_lines_append:
  assumes "split_lines a = (la, ra)" "split_lines (ra @ b) = (lb, rb)"
  shows "split_lines (a @ b) = (la @ lb, rb)"
proof -
  have "a @ b = join_lines (la @ lb) @ rb" "lf \<notin> set rb" "\<forall>l \<in> set (la @ lb). lf \<notin> set l"
    using split_linesD [OF assms(1)] split_linesD [OF assms(2)] by auto
  then show ?thesis by (metis split_lines_join)
qed

lemma read_until_rest: "lf \<notin> set r \<Longrightarrow> read_until r = None"
  by (simp add: read_until_def find_char_None_iff)

lemma find_char_append: "c \<notin> set l \<Longrightarrow> find_char c (l @ c # s) = Some (length l)"
  by (induction l) auto

lemma read_until_line: "lf \<notin> set l \<Longrightarrow> read_until (l @ lf # s) = Some (Suc (length l))"
  by (simp add: read_until_def find_char_append)

lemma strip_eol_newline [simp]: "strip_eol (l @ [lf]) = strip_eol l"
  by (simp add: strip_eol_def strip_back_def)

lemma strip_eol_id: "t = [] \<or> last t \<noteq> lf \<and> last t \<noteq> cr \<Longrightarrow> strip_eol t = t"
  by (cases t rule: rev_cases) (simp_all add: strip_eol_def strip_back_def)


section \<open>The contract of a line reader\<close>

text \<open>\<open>fits l\<close> says that \<open>l\<close> is within the reader's limit on lines, \<open>piece c\<close> that a single read may deliver
  \<open>c\<close>. A reader may rely on its buffer never holding more than an unfinished line and one piece.\<close>

locale line_reader =
  fixes buf :: "'s \<Rightarrow> string"
    and set_buf :: "string \<Rightarrow> 's \<Rightarrow> 's"
    and reading :: "'s \<Rightarrow> bool"
    and on_read :: "nat \<Rightarrow> 's \<Rightarrow> 's"
    and act :: "string \<Rightarrow> 's \<Rightarrow> 's"
    and fits :: "string \<Rightarrow> bool"
    and piece :: "string \<Rightarrow> bool"
  assumes buf_set: "reading s \<Longrightarrow> buf (set_buf b s) = b"
    and set_set: "set_buf b (set_buf c s) = set_buf b s"
    and set_same: "set_buf (buf s) s = s"
    and reading_set: "reading (set_buf b s) = reading s"
    and act_set: "act l (set_buf b s) = set_buf b (act l s)"
    and fits_prefix: "fits (a @ b) \<Longrightarrow> fits a"
    and on_read_line: "reading s \<Longrightarrow> fits l \<Longrightarrow> lf \<notin> set l \<Longrightarrow> buf s = l @ lf # rest \<Longrightarrow>
      fits p \<Longrightarrow> piece c \<Longrightarrow> suffix rest (p @ c) \<Longrightarrow>
      on_read (Suc (length l)) s = act (strip_eol l) (set_buf rest s)"
    and act_reading: "reading s \<Longrightarrow> fits l \<Longrightarrow> lf \<notin> set l \<Longrightarrow> reading (act (strip_eol l) s)"
begin

definition acts :: "string list \<Rightarrow> 's \<Rightarrow> 's" where
  "acts ls = fold (\<lambda>l. act (strip_eol l)) ls"

lemma acts_simps [simp]: "acts [] s = s" "acts (l # ls) s = acts ls (act (strip_eol l) s)"
  "acts (ls @ ms) s = acts ms (acts ls s)"
  by (simp_all add: acts_def)

lemma acts_set: "acts ls (set_buf b s) = set_buf b (acts ls s)"
  by (induction ls arbitrary: s) (simp_all add: act_set)

lemma acts_reading: "reading s \<Longrightarrow> \<forall>l \<in> set ls. fits l \<and> lf \<notin> set l \<Longrightarrow> reading (acts ls s)"
  by (induction ls arbitrary: s) (simp_all add: act_reading)

lemma deliver_lines:
  assumes c: "fits p" "piece c"
    and "suffix (buf s) (p @ c)" "reading s" "\<forall>l \<in> set ls. fits l \<and> lf \<notin> set l" "lf \<notin> set r" "buf s = join_lines ls @ r"
    and "length ls \<le> fuel"
  shows "deliver fuel buf reading on_read s = acts ls (set_buf r s)"
  using assms(3-)
proof (induction ls arbitrary: s fuel)
  case Nil
  then have "deliver fuel buf reading on_read s = s" by (cases fuel) (simp_all add: read_until_rest)
  also have "\<dots> = set_buf r s" using Nil.prems(5) set_same [of s] by simp
  finally show ?case by simp
next
  case (Cons l ls)
  obtain fuel' where fuel: "fuel = Suc fuel'" "length ls \<le> fuel'" using Cons.prems(6) by (cases fuel) auto
  let ?s = "act (strip_eol l) (set_buf (join_lines ls @ r) s)"
  have reading: "reading ?s" using Cons.prems by (simp add: act_reading reading_set)
  have "buf ?s = join_lines ls @ r"
    unfolding act_set using Cons.prems by (intro buf_set act_reading) simp_all
  moreover have suffix: "suffix (join_lines ls @ r) (p @ c)"
    using Cons.prems(1,5) by (metis append_Cons append_assoc join_lines_simps(2) suffix_appendD suffix_ConsD)
  ultimately have "deliver fuel' buf reading on_read ?s = acts ls (set_buf r ?s)"
    using Cons.prems(3,4) fuel(2) reading by (intro Cons.IH) simp_all
  moreover have "on_read (Suc (length l)) s = ?s"
    using Cons.prems(2-5) c suffix by (intro on_read_line) simp_all
  ultimately show ?case
    using Cons.prems fuel(1) by (simp add: read_until_line act_set set_set)
qed

lemma length_join: "length ls \<le> length (join_lines ls)"
  by (induction ls) simp_all

lemma arrive_lines:
  assumes "reading s" "split_lines (buf s @ chunk) = (ls, r)" "\<forall>l \<in> set ls. fits l" "fits (buf s)" "piece chunk"
  shows "arrive buf set_buf reading on_read chunk s = set_buf r (acts ls s)"
proof -
  have d: "buf s @ chunk = join_lines ls @ r" "lf \<notin> set r" "\<forall>l \<in> set ls. fits l \<and> lf \<notin> set l"
    using split_linesD [OF assms(2)] assms(3) by auto
  let ?s = "set_buf (buf s @ chunk) s"
  have "deliver (length (buf s @ chunk)) buf reading on_read ?s = acts ls (set_buf r ?s)"
    using assms(1,4,5) d length_join [of ls]
    by (intro deliver_lines [of "buf s" chunk]) (simp_all add: reading_set buf_set)
  then show ?thesis by (simp add: arrive_def set_set acts_set)
qed

lemma unfinished_fits:
  assumes "split_lines (p @ s) = (ls, r)" "lf \<notin> set p" "\<forall>l \<in> set ls. fits l" "fits r"
  shows "fits p"
proof (cases ls)
  case Nil
  then have "p @ s = r" using split_linesD [OF assms(1)] by simp
  with assms(4) show ?thesis by (metis fits_prefix)
next
  case (Cons l ls')
  then have "p @ s = l @ lf # (join_lines ls' @ r)" using split_linesD [OF assms(1)] by simp
  then obtain u where "p @ u = l \<or> p = l @ u \<and> u @ s = lf # (join_lines ls' @ r)"
    by (metis append_eq_append_conv2)
  moreover have "u = []" if "p = l @ u" "u @ s = lf # (join_lines ls' @ r)"
    using that assms(2) by (cases u) auto
  ultimately have "\<exists>v. p @ v = l" by auto
  then obtain v where "p @ v = l" ..
  moreover have "fits l" using assms(3) Cons by simp
  ultimately show ?thesis using fits_prefix by blast
qed

text \<open>The pieces in which the bytes arrive do not matter.\<close>

lemma arrive_pieces:
  assumes "reading s" "lf \<notin> set (buf s)" "split_lines (buf s @ concat chunks) = (ls, r)" "\<forall>l \<in> set ls. fits l"
    and "fits r" "\<forall>c \<in> set chunks. piece c"
  shows "fold (arrive buf set_buf reading on_read) chunks s = set_buf r (acts ls s)"
  using assms
proof (induction chunks arbitrary: s ls)
  case Nil
  then show ?case using set_same [of s] by (simp add: split_lines_rest)
next
  case (Cons c cs)
  obtain la ra where a: "split_lines (buf s @ c) = (la, ra)" by fastforce
  obtain lb rb where b: "split_lines (ra @ concat cs) = (lb, rb)" by fastforce
  have ls: "ls = la @ lb" "r = rb" using split_lines_append [OF a b] Cons.prems(3) by simp_all
  have "fits (buf s)" using unfinished_fits [OF Cons.prems(3,2,4,5)] .
  then have s: "arrive buf set_buf reading on_read c s = set_buf ra (acts la s)"
    using Cons.prems ls by (intro arrive_lines [OF _ a]) auto
  have lines: "\<forall>l \<in> set la. fits l \<and> lf \<notin> set l" "lf \<notin> set ra"
    using split_linesD [OF a] Cons.prems(4) ls by auto
  then have reading: "reading (acts la s)" using Cons.prems(1) by (simp add: acts_reading)
  have "fold (arrive buf set_buf reading on_read) cs (set_buf ra (acts la s)) = set_buf r (acts lb (set_buf ra (acts la s)))"
    using Cons.prems(4-6) b ls lines(2) reading by (intro Cons.IH) (simp_all add: reading_set buf_set)
  then show ?case by (simp add: s ls acts_set set_set)
qed

text \<open>A stream of whole lines leaves nothing behind.\<close>

lemma arrive_stream:
  assumes "reading s" "buf s = []" "concat chunks = join_lines ls" "\<forall>l \<in> set ls. fits l \<and> lf \<notin> set l"
    and "fits []" "\<forall>c \<in> set chunks. piece c"
  shows "fold (arrive buf set_buf reading on_read) chunks s = acts ls s"
proof -
  have "split_lines (buf s @ concat chunks) = (ls, [])"
    using assms split_lines_join [of "[]" ls] by simp
  then have "fold (arrive buf set_buf reading on_read) chunks s = set_buf [] (acts ls s)"
    using assms by (intro arrive_pieces) simp_all
  also have "\<dots> = acts ls (set_buf (buf s) s)" using assms(2) by (simp add: acts_set)
  finally show ?thesis by (simp add: set_same)
qed

end

end
