(* ===== verification/Line_Client.thy ===== *)
theory Line_Client
  imports Transport Line_Framing Write_Queue
begin

text \<open>
  What the two line-based transports of the client share: \<open>StdioClientTransport\<close> and
  \<open>LocalPipeClientTransport\<close> keep the same state and run the same read loop, up to the texts of their error
  messages. The state is a record; handlers are the flags that say whether they are set, the message
  handler itself is in the environment, where it may send messages through the transport it belongs to. Tasks
  posted to the event loop are kept in a list and run one after the other.
\<close>

section \<open>State\<close>

datatype client_task = NotifyDisconnect | ClearHandlers

record line_client =
  lc_io :: bool
  lc_on_message :: bool
  lc_on_error :: bool
  lc_on_disconnect :: bool
  lc_connected :: bool
  lc_stopping :: bool
  lc_stream :: "bool option"
  lc_queue :: "write_queue option"
  lc_buf :: string
  lc_reading :: bool
  lc_posted :: "client_task list"
  lc_sent :: "string list"
  lc_errors :: "string list"
  lc_log :: "string list"
  lc_disconnects :: nat
  lc_escaped :: "exn option"

text \<open>\<open>lc_stream\<close> is the pointer to the stream, with whether it is open; \<open>lc_sent\<close> what the write queue accepted.\<close>

definition new_line_client :: line_client where
  "new_line_client = \<lparr>lc_io = False, lc_on_message = False, lc_on_error = False, lc_on_disconnect = False, lc_connected = False,
     lc_stopping = False, lc_stream = None, lc_queue = None, lc_buf = [], lc_reading = False, lc_posted = [], lc_sent = [],
     lc_errors = [], lc_log = [], lc_disconnects = 0, lc_escaped = None\<rparr>"

definition client_max_line :: nat where "client_max_line = 16 * 1024 * 1024"


section \<open>Operations\<close>

definition client_error :: "string \<Rightarrow> line_client \<Rightarrow> line_client" where
  "client_error m s = (if lc_on_error s then s\<lparr>lc_errors := lc_errors s @ [m]\<rparr> else s)"

definition client_log :: "string \<Rightarrow> line_client \<Rightarrow> line_client" where
  "client_log m s = s\<lparr>lc_log := lc_log s @ [m]\<rparr>"

definition client_post :: "client_task \<Rightarrow> line_client \<Rightarrow> line_client" where
  "client_post t s = s\<lparr>lc_posted := lc_posted s @ [t]\<rparr>"

definition post_disconnect :: "line_client \<Rightarrow> line_client" where
  "post_disconnect s = (if lc_on_disconnect s \<and> lc_io s then client_post NotifyDisconnect s else s)"

definition clear_handlers :: "line_client \<Rightarrow> line_client" where
  "clear_handlers s = s\<lparr>lc_on_message := False, lc_on_error := False, lc_on_disconnect := False\<rparr>"

definition has_handler :: "line_client \<Rightarrow> bool" where
  "has_handler s \<longleftrightarrow> lc_on_message s \<or> lc_on_error s \<or> lc_on_disconnect s"

text \<open>The event loop runs the oldest task.\<close>

fun client_run_task :: "client_task \<Rightarrow> line_client \<Rightarrow> line_client" where
  "client_run_task NotifyDisconnect s = (if lc_on_disconnect s then s\<lparr>lc_disconnects := lc_disconnects s + 1\<rparr> else s)"
| "client_run_task ClearHandlers s = clear_handlers s"

definition client_run_posted :: "line_client \<Rightarrow> line_client" where
  "client_run_posted s = (case lc_posted s of [] \<Rightarrow> s | t # ts \<Rightarrow> client_run_task t (s\<lparr>lc_posted := ts\<rparr>))"

text \<open>The write queue is shut down and the streams are closed.\<close>

definition close_streams :: "line_client \<Rightarrow> line_client" where
  "close_streams s = s\<lparr>lc_queue := map_option wq_shutdown (lc_queue s), lc_stream := map_option (\<lambda>_. False) (lc_stream s)\<rparr>"

definition client_do_read :: "string \<Rightarrow> line_client \<Rightarrow> line_client" where
  "client_do_read too_large s =
     (if length (lc_buf s) > client_max_line then
        post_disconnect (close_streams ((client_error too_large s)\<lparr>lc_connected := False, lc_stopping := True\<rparr>))
      else if lc_stream s = None \<or> lc_stopping s then s
      else s\<lparr>lc_reading := True\<rparr>)"

definition client_read_failed :: "line_client \<Rightarrow> line_client" where
  "client_read_failed s = post_disconnect (s\<lparr>lc_reading := False, lc_connected := False\<rparr>)"

text \<open>\<open>send_message\<close>. The queue is made without a bound, so it never closes by itself (\<open>unbounded_enqueue\<close>).\<close>

definition client_send :: "string \<Rightarrow> 'h line_env \<Rightarrow> json \<Rightarrow> line_client \<Rightarrow> line_client \<times> exn option" where
  "client_send too_large env m s =
     (case lc_queue s of None \<Rightarrow> (s, None)
      | Some q \<Rightarrow>
          (case le_dump env m of Inl e \<Rightarrow> (s, Some e)
           | Inr t \<Rightarrow>
               if length (t @ [lf]) > client_max_line then (client_error too_large s, None)
               else
                 (case enqueue (t @ [lf]) q of
                    (Stored arm, q') \<Rightarrow> (s\<lparr>lc_queue := Some q', lc_sent := lc_sent s @ [t @ [lf]]\<rparr>, None)
                  | (_, q') \<Rightarrow> (s, None))))"

text \<open>A read that completes with a line.\<close>

definition client_on_read ::
    "string \<Rightarrow> (string \<Rightarrow> line_client \<Rightarrow> 'h \<Rightarrow> (line_client \<times> 'h) \<times> exn option) \<Rightarrow> nat \<Rightarrow> line_client \<times> 'h \<Rightarrow> line_client \<times> 'h" where
  "client_on_read too_large handle_line n sh =
     (case sh of (s, h) \<Rightarrow>
      let line = strip_eol (take n (lc_buf s)); s1 = s\<lparr>lc_reading := False, lc_buf := drop n (lc_buf s)\<rparr> in
      case (if line \<noteq> [] then handle_line line s1 h else ((s1, h), None)) of
        ((s2, h2), None) \<Rightarrow> (if \<not> lc_stopping s2 then client_do_read too_large s2 else s2, h2)
      | ((s2, h2), Some e) \<Rightarrow> (s2\<lparr>lc_escaped := Some e\<rparr>, h2))"

text \<open>What \<open>handle_line\<close> does after its checks: parse, and call the message handler if there is one; a
  \<open>std::exception\<close> of either is caught.\<close>

definition client_handle_line ::
    "(json \<Rightarrow> line_client \<Rightarrow> line_client \<times> exn option) \<Rightarrow> (string \<Rightarrow> line_client \<Rightarrow> line_client) \<Rightarrow> 'h line_env \<Rightarrow>
     string \<Rightarrow> line_client \<Rightarrow> 'h \<Rightarrow> (line_client \<times> 'h) \<times> exn option" where
  "client_handle_line send caught env line s h =
     handle_line_with (if lc_on_message s then env else env\<lparr>le_handler := None\<rparr>)
       (\<lambda>err s. (caught err s, None)) send send (\<lambda>e. caught (exn_what (le_what env) e)) line s h"


section \<open>Lemmas\<close>

lemma unbounded_enqueue: "wq_max q = 0 \<Longrightarrow> fst (enqueue d q) = (if wq_active q then Stored (\<not> wq_writing q) else Refused)"
  by (simp add: enqueue_def Let_def)

lemma client_notes [simp]:
  "client_error m (s\<lparr>lc_buf := b\<rparr>) = (client_error m s)\<lparr>lc_buf := b\<rparr>"
  "client_error m (s\<lparr>lc_reading := r\<rparr>) = (client_error m s)\<lparr>lc_reading := r\<rparr>"
  "client_log m (s\<lparr>lc_buf := b\<rparr>) = (client_log m s)\<lparr>lc_buf := b\<rparr>"
  "client_log m (s\<lparr>lc_reading := r\<rparr>) = (client_log m s)\<lparr>lc_reading := r\<rparr>"
  by (simp_all add: client_error_def client_log_def)

lemma client_send_frame:
  "client_send msg env m (s\<lparr>lc_buf := b\<rparr>) = map_prod (lc_buf_update (\<lambda>_. b)) id (client_send msg env m s)"
  "client_send msg env m (s\<lparr>lc_reading := r\<rparr>) = map_prod (lc_reading_update (\<lambda>_. r)) id (client_send msg env m s)"
  by (simp_all add: client_send_def split: option.split sum.split prod.split enqueue_outcome.split)

text \<open>A client that reads and goes on reading.\<close>

definition client_live :: "line_client \<Rightarrow> bool" where
  "client_live s \<longleftrightarrow> lc_reading s \<and> \<not> lc_stopping s \<and> lc_stream s \<noteq> None \<and> lc_escaped s = None"

lemma client_live_notes [simp]:
  "client_live (client_error m s) = client_live s" "client_live (client_log m s) = client_live s"
  "client_live (s\<lparr>lc_buf := b\<rparr>) = client_live s"
  by (simp_all add: client_live_def client_error_def client_log_def)

lemma client_send_live: "client_live s \<Longrightarrow> client_live (fst (client_send msg env m s))"
  by (simp add: client_send_def split: option.split sum.split prod.split enqueue_outcome.split) (simp add: client_live_def)


lemma client_send_no_throw: "tame_env env \<Longrightarrow> snd (client_send msg env m s) = None"
  by (auto simp: client_send_def tame_dump split: option.split sum.split prod.split enqueue_outcome.split)

lemma client_handle_frame:
  assumes "\<And>e s. caught e (g s) = g (caught e s)" "\<And>m s. send m (g s) = map_prod g id (send m s)"
    and "\<And>s. lc_on_message (g s) = lc_on_message s"
  shows "client_handle_line send caught env l (g s) h = map_prod (map_prod g id) id (client_handle_line send caught env l s h)"
  unfolding client_handle_line_def assms(3) by (rule handle_line_frame [where g = g]) (simp_all add: assms(1,2))

lemma client_handle_keeps:
  assumes "\<And>e s. P s \<Longrightarrow> P (caught e s)" "\<And>m s. P s \<Longrightarrow> P (fst (send m s))" "P s"
  shows "P (fst (fst (client_handle_line send caught env l s h)))"
  unfolding client_handle_line_def by (rule handle_line_keeps [where P = P]) (simp_all only: fst_conv assms)

lemma client_handle_tame:
  assumes "tame_env env" "\<And>m s. snd (send m s) = None"
  shows "snd (client_handle_line send caught env l s h) = None"
proof -
  have "tame_env (if lc_on_message s then env else env\<lparr>le_handler := None\<rparr>)" using assms(1) by (simp add: tame_env_def)
  then show ?thesis unfolding client_handle_line_def using assms(2) by (intro handle_line_tame) simp_all
qed

text \<open>What the message handler is given.\<close>

lemma client_handle_message:
  assumes "le_parse env l = Inr j" "le_handler env = Some f" "lc_on_message s"
  shows "snd (fst (client_handle_line send caught env l s h)) = snd (f j h)"
  using assms by (simp add: client_handle_line_def handle_line_message)

lemma client_send_on_message: "lc_on_message (fst (client_send msg env m s)) = lc_on_message s"
  by (simp add: client_send_def client_error_def split: option.split sum.split prod.split enqueue_outcome.split)

text \<open>An active queue without a bound takes every message that is not too long.\<close>

definition client_open :: "line_client \<Rightarrow> bool" where
  "client_open s \<longleftrightarrow> (\<exists>q. lc_queue s = Some q \<and> wq_active q \<and> wq_max q = 0)"

lemma client_send_open:
  assumes "client_open s" "le_dump env m = Inr t" "length t < client_max_line"
  shows "client_open (fst (client_send msg env m s)) \<and> lc_sent (fst (client_send msg env m s)) = lc_sent s @ [t @ [lf]]"
  using assms by (auto simp: client_open_def client_send_def enqueue_def Let_def)

lemma client_sends_open:
  assumes "client_open s" "map (le_dump env) ms = map Inr ts" "\<forall>t \<in> set ts. length t < client_max_line"
  shows "lc_sent (fold (\<lambda>m s. fst (client_send msg env m s)) ms s) = lc_sent s @ map (\<lambda>t. t @ [lf]) ts"
  using assms
proof (induction ms arbitrary: s ts)
  case (Cons m ms)
  then obtain t ts' where t: "ts = t # ts'" "le_dump env m = Inr t" "map (le_dump env) ms = map Inr ts'" by (cases ts) auto
  with client_send_open [OF Cons.prems(1) t(2), of msg] Cons.prems(3) Cons.IH [OF _ t(3)] show ?case by simp
qed simp

text \<open>Closing is not reported: whether the cancelled read completes before or after the handlers are
  cleared, the disconnect handler is gone when its task runs.\<close>

lemma cleared_before_notified:
  assumes "lc_posted s = [ClearHandlers]"
  shows "lc_disconnects (client_run_posted (client_run_posted (client_read_failed s))) = lc_disconnects s"
    and "lc_disconnects (client_run_posted (client_read_failed (client_run_posted s))) = lc_disconnects s"
  using assms
  by (simp_all add: client_run_posted_def client_read_failed_def post_disconnect_def client_post_def clear_handlers_def)


section \<open>Reading\<close>

text \<open>A piece of input is at most the 64 KiB that \<open>async_read_until\<close> asks for at a time; a line that leaves
  room for it never trips the limit on the buffer.\<close>

definition client_fits :: "string \<Rightarrow> bool" where
  "client_fits l \<longleftrightarrow> length l + 65536 \<le> client_max_line"

definition client_piece :: "string \<Rightarrow> bool" where
  "client_piece c \<longleftrightarrow> length c \<le> 65536"

definition client_set_buf :: "string \<Rightarrow> line_client \<times> 'h \<Rightarrow> line_client \<times> 'h" where
  "client_set_buf b = map_prod (lc_buf_update (\<lambda>_. b)) id"

text \<open>A client that may read, when its environment lets no foreign exception out; and what it does with a line.\<close>

definition client_ready :: "bool \<Rightarrow> line_client \<times> 'h \<Rightarrow> bool" where
  "client_ready calm sh \<longleftrightarrow> calm \<and> client_live (fst sh)"

definition client_act ::
    "(string \<Rightarrow> line_client \<Rightarrow> 'h \<Rightarrow> (line_client \<times> 'h) \<times> exn option) \<Rightarrow> string \<Rightarrow> line_client \<times> 'h \<Rightarrow> line_client \<times> 'h" where
  "client_act handle l sh = (if l = [] then sh else fst (handle l (fst sh) (snd sh)))"

locale client_reader =
  fixes too_large :: string
    and handle :: "string \<Rightarrow> line_client \<Rightarrow> 'h \<Rightarrow> (line_client \<times> 'h) \<times> exn option"
    and calm :: bool
  assumes frame_buf: "handle l (s\<lparr>lc_buf := b\<rparr>) h = map_prod (map_prod (lc_buf_update (\<lambda>_. b)) id) id (handle l s h)"
    and frame_reading: "handle l (s\<lparr>lc_reading := r\<rparr>) h = map_prod (map_prod (lc_reading_update (\<lambda>_. r)) id) id (handle l s h)"
    and live: "client_live s \<Longrightarrow> client_live (fst (fst (handle l s h)))"
    and tame: "calm \<Longrightarrow> snd (handle l s h) = None"
begin

lemma act_ready: "client_ready calm sh \<Longrightarrow> client_ready calm (client_act handle l sh)"
  unfolding client_ready_def client_act_def by (simp add: live)

lemma act_buf: "client_act handle l (client_set_buf b sh) = client_set_buf b (client_act handle l sh)"
  by (cases sh) (simp add: client_act_def client_set_buf_def frame_buf)

lemma reads_line:
  assumes "client_ready calm (s, h)" "lc_buf s = l @ lf # rest" "length rest \<le> client_max_line"
  shows "client_on_read too_large handle (Suc (length l)) (s, h) = client_act handle (strip_eol l) (client_set_buf rest (s, h))"
proof -
  let ?s = "s\<lparr>lc_buf := rest\<rparr>"
  have calm: calm and live_s: "client_live ?s" using assms(1) unfolding client_ready_def by simp_all
  have r: "s\<lparr>lc_reading := False, lc_buf := rest\<rparr> = ?s\<lparr>lc_reading := False\<rparr>" by simp
  obtain s' h' where handled: "handle (strip_eol l) s h = ((s', h'), None)"
    using tame [OF calm] by (metis prod.collapse)
  then have handled_rest: "handle (strip_eol l) ?s h = ((s'\<lparr>lc_buf := rest\<rparr>, h'), None)" by (simp add: frame_buf)
  have "client_live s'" using live [of s "strip_eol l" h] assms(1) handled unfolding client_ready_def by simp
  then show ?thesis
    using assms(2,3) handled_rest live_s
    by (simp add: client_on_read_def Let_def r frame_reading client_act_def client_set_buf_def client_do_read_def client_live_def)
qed

sublocale reader: line_reader "\<lambda>sh. lc_buf (fst sh)" client_set_buf "client_ready calm" "client_on_read too_large handle" "client_act handle" client_fits client_piece
proof
  show "client_on_read too_large handle (Suc (length l)) sh = client_act handle (strip_eol l) (client_set_buf rest sh)"
    if "client_ready calm sh" "lc_buf (fst sh) = l @ lf # rest" "client_fits p" "client_piece c" "suffix rest (p @ c)" for sh l rest p c
  proof -
    have "length rest \<le> length (p @ c)" using that(5) by (rule suffix_length_le)
    then have "length rest \<le> client_max_line" using that(3,4) by (simp add: client_fits_def client_piece_def)
    with that(1,2) show ?thesis by (cases sh) (simp add: reads_line)
  qed
qed (simp_all add: act_ready act_buf, auto simp: client_set_buf_def client_ready_def client_fits_def)

end

end
