(* ===== verification/Http_Client.thy ===== *)
theory Http_Client
  imports Http_Connection Line_Client
begin

text \<open>
  The HTTP transport of the client (\<open>http_client_transport.hpp\<close>, \<open>http_client_transport.cpp\<close>): requests,
  responses, the session id, and the event stream. As in the server, the HTTP parser is a parameter:
  running it on some bytes gives the callbacks it makes, in order, and how it stops. The message handler is
  that of the other client transports. What the resolver, the sockets and the timer answer are arguments of
  the completions.
\<close>

section \<open>State\<close>

record http_client =
  ct_host :: string
  ct_port :: "16 word"
  ct_endpoint :: string
  ct_extra :: "(string \<times> string) list"
  ct_io :: bool
  ct_on_message :: bool
  ct_on_error :: bool
  ct_on_disconnect :: bool
  ct_connected :: bool
  ct_stopping :: bool
  ct_socket :: "bool option"
  ct_reading :: bool
  ct_queue :: "write_queue option"
  ct_sent :: "string list"
  ct_sse_socket :: "bool option"
  ct_sse_open :: bool
  ct_sse_reading :: bool
  ct_sse_event :: string
  ct_sse_data :: string
  ct_sse_sent :: "string list"
  ct_field :: string
  ct_value :: string
  ct_headers :: "(string \<times> string) list"
  ct_body :: string
  ct_status :: int
  ct_complete :: bool
  ct_session :: string
  ct_posted :: "client_task list"
  ct_disconnects :: nat
  ct_errors :: "string list"
  ct_log :: "string list"
  ct_escaped :: "exn option"
  ct_undefined :: bool

definition HttpClientTransport :: "string \<Rightarrow> 16 word \<Rightarrow> string \<Rightarrow> http_client" where
  "HttpClientTransport host port endpoint = \<lparr>ct_host = host, ct_port = port, ct_endpoint = endpoint, ct_extra = [], ct_io = False,
     ct_on_message = False, ct_on_error = False, ct_on_disconnect = False, ct_connected = False, ct_stopping = False,
     ct_socket = None, ct_reading = False, ct_queue = None, ct_sent = [], ct_sse_socket = None, ct_sse_open = False,
     ct_sse_reading = False, ct_sse_event = [], ct_sse_data = [], ct_sse_sent = [], ct_field = [], ct_value = [], ct_headers = [],
     ct_body = [], ct_status = 0, ct_complete = False, ct_session = [], ct_posted = [], ct_disconnects = 0, ct_errors = [],
     ct_log = [], ct_escaped = None, ct_undefined = False\<rparr>"

definition client_max_body :: nat where "client_max_body = 16 * 1024 * 1024"

definition http_client_error :: "string \<Rightarrow> http_client \<Rightarrow> http_client" where
  "http_client_error m s = (if ct_on_error s then s\<lparr>ct_errors := ct_errors s @ [m]\<rparr> else s)"

definition http_client_log :: "string \<Rightarrow> http_client \<Rightarrow> http_client" where
  "http_client_log m s = s\<lparr>ct_log := ct_log s @ [m]\<rparr>"


section \<open>The callbacks of the parser\<close>

definition client_flush_header :: "http_client \<Rightarrow> http_client" where
  "client_flush_header s =
     (if ct_field s = [] then s
      else
        let field = to_lower (ct_field s);
            s1 = s\<lparr>ct_headers := oset field (ct_value s) (ct_headers s)\<rparr>;
            s2 = (if field = ''mcp-session-id'' \<and> ct_value s \<noteq> [] then s1\<lparr>ct_session := ct_value s\<rparr> else s1)
        in s2\<lparr>ct_field := [], ct_value := []\<rparr>)"

definition client_header_field :: "string \<Rightarrow> http_client \<Rightarrow> http_client" where
  "client_header_field d s =
     (let s1 = (if ct_field s \<noteq> [] then client_flush_header s else s) in s1\<lparr>ct_field := ct_field s1 @ d\<rparr>)"

definition client_header_value :: "string \<Rightarrow> http_client \<Rightarrow> http_client" where
  "client_header_value d s = s\<lparr>ct_value := ct_value s @ d\<rparr>"

definition client_headers_complete :: "int \<Rightarrow> http_client \<Rightarrow> http_client" where
  "client_headers_complete status s = client_flush_header (s\<lparr>ct_status := status\<rparr>)"

text \<open>The only callback that may refuse, which stops the parser with an error.\<close>

definition client_body :: "string \<Rightarrow> http_client \<Rightarrow> http_client option" where
  "client_body d s =
     (if length (ct_body s) + length d > client_max_body then None else Some (s\<lparr>ct_body := ct_body s @ d\<rparr>))"

definition client_message_complete :: "http_client \<Rightarrow> http_client" where
  "client_message_complete s = s\<lparr>ct_complete := True\<rparr>"

datatype response_event = RField string | RValue string | RHeaders int | RBody string | RComplete

fun client_event :: "response_event \<Rightarrow> http_client \<Rightarrow> http_client option" where
  "client_event (RField d) s = Some (client_header_field d s)"
| "client_event (RValue d) s = Some (client_header_value d s)"
| "client_event (RHeaders status) s = Some (client_headers_complete status s)"
| "client_event (RBody d) s = client_body d s"
| "client_event RComplete s = Some (client_message_complete s)"

text \<open>The callbacks of one run of the parser, until one refuses; the flag tells that none did.\<close>

fun client_events :: "response_event list \<Rightarrow> http_client \<Rightarrow> http_client \<times> bool" where
  "client_events [] s = (s, True)"
| "client_events (e # es) s = (case client_event e s of None \<Rightarrow> (s, False) | Some s' \<Rightarrow> client_events es s')"


section \<open>Sending\<close>

definition host_port :: "http_client \<Rightarrow> string" where
  "host_port s = ct_host s @ '':'' @ nat_to_dec (unat (ct_port s))"

definition extra_lines :: "http_client \<Rightarrow> string" where
  "extra_lines s = concat (map (\<lambda>(k, v). k @ '': '' @ v @ crlf) (ct_extra s))"

definition build_post_request :: "string \<Rightarrow> http_client \<Rightarrow> string" where
  "build_post_request body s =
     ''POST '' @ ct_endpoint s @ '' HTTP/1.1'' @ crlf
     @ ''Host: '' @ host_port s @ crlf
     @ ''Content-Type: application/json'' @ crlf
     @ ''Content-Length: '' @ nat_to_dec (length body) @ crlf
     @ ''Accept: application/json, text/event-stream'' @ crlf
     @ (if ct_session s \<noteq> [] then ''Mcp-Session-Id: '' @ ct_session s @ crlf else [])
     @ extra_lines s
     @ ''Connection: keep-alive'' @ crlf @ crlf @ body"

definition http_client_send :: "'h line_env \<Rightarrow> json \<Rightarrow> http_client \<Rightarrow> http_client \<times> exn option" where
  "http_client_send env m s =
     (case ct_queue s of None \<Rightarrow> (http_client_error ''http transport not connected'' s, None)
      | Some q \<Rightarrow>
          (case le_dump env m of Inl e \<Rightarrow> (s, Some e)
           | Inr t \<Rightarrow>
               let req = build_post_request t s in
               case enqueue req q of
                 (Stored arm, q') \<Rightarrow> (s\<lparr>ct_queue := Some q', ct_sent := ct_sent s @ [req]\<rparr>, None)
               | (_, q') \<Rightarrow> (s, None)))"

text \<open>The message handler, when there is one; it may send through this transport.\<close>

definition call_handler :: "'h line_env \<Rightarrow> json \<Rightarrow> http_client \<Rightarrow> 'h \<Rightarrow> (http_client \<times> 'h) \<times> exn option" where
  "call_handler env j s h =
     (case (if ct_on_message s then le_handler env else None) of None \<Rightarrow> ((s, h), None)
      | Some f \<Rightarrow>
          (case f j h of ((es, x), h') \<Rightarrow>
             (case run_sink (http_client_send env) (http_client_send env) es s of
                (s', thrown) \<Rightarrow> ((s', h'), case thrown of None \<Rightarrow> x | Some e \<Rightarrow> Some e))))"


section \<open>The event stream\<close>

text \<open>The lines over which the loops run: up to each newline, and what follows the last one, if anything does.\<close>

definition chunk_lines :: "string \<Rightarrow> string list" where
  "chunk_lines data = (case split_lines data of (ls, r) \<Rightarrow> if r = [] then ls else ls @ [r])"

definition strip_cr :: "string \<Rightarrow> string" where
  "strip_cr = strip_back (\<lambda>c. c = cr)"

definition strip_spaces :: "string \<Rightarrow> string" where
  "strip_spaces = dropWhile (\<lambda>c. c = CHR '' '')"

text \<open>A line of \<open>handle_sse_frame\<close>: a text that cannot be parsed and a \<open>std::exception\<close> of the handler are ignored.\<close>

definition frame_text :: "'h line_env \<Rightarrow> string \<Rightarrow> http_client \<Rightarrow> 'h \<Rightarrow> (http_client \<times> 'h) \<times> exn option" where
  "frame_text env text s h =
     (case le_parse env text of Inl err \<Rightarrow> ((s, h), None)
      | Inr j \<Rightarrow>
          (case call_handler env j s h of
             (sh, Some e) \<Rightarrow> (sh, if is_std_exception e then None else Some e)
           | (sh, None) \<Rightarrow> (sh, None)))"

definition frame_line :: "'h line_env \<Rightarrow> string \<Rightarrow> http_client \<Rightarrow> 'h \<Rightarrow> (http_client \<times> 'h) \<times> exn option" where
  "frame_line env line s h =
     (let line' = strip_cr line in
      if has_prefix ''data:'' line' then frame_text env (strip_spaces (drop 5 line')) s h
      else if line' \<noteq> [] then frame_text env line' s h
      else ((s, h), None))"

fun frame_lines :: "'h line_env \<Rightarrow> string list \<Rightarrow> http_client \<Rightarrow> 'h \<Rightarrow> (http_client \<times> 'h) \<times> exn option" where
  "frame_lines env [] s h = ((s, h), None)"
| "frame_lines env (l # ls) s h =
     (case frame_line env l s h of
        ((s', h'), None) \<Rightarrow> frame_lines env ls s' h'
      | ((s', h'), Some e) \<Rightarrow> ((s', h'), Some e))"

definition handle_sse_frame :: "'h line_env \<Rightarrow> string \<Rightarrow> http_client \<Rightarrow> 'h \<Rightarrow> (http_client \<times> 'h) \<times> exn option" where
  "handle_sse_frame env data s h =
     (if data = [] \<or> \<not> ct_on_message s then ((s, h), None) else frame_lines env (chunk_lines data) s h)"

text \<open>A line of \<open>on_sse_read\<close>.\<close>

definition sse_line :: "'h line_env \<Rightarrow> string \<Rightarrow> http_client \<Rightarrow> 'h \<Rightarrow> (http_client \<times> 'h) \<times> exn option" where
  "sse_line env line s h =
     (let line' = strip_cr line in
      if line' = [] then
        (if ct_sse_data s \<noteq> [] then
           (case handle_sse_frame env (ct_sse_data s) s h of
              ((s', h'), None) \<Rightarrow> ((s'\<lparr>ct_sse_event := [], ct_sse_data := []\<rparr>, h'), None)
            | ((s', h'), Some e) \<Rightarrow> ((s', h'), Some e))
         else ((s, h), None))
      else if has_prefix ''event:'' line' then ((s\<lparr>ct_sse_event := strip_spaces (drop 6 line')\<rparr>, h), None)
      else if has_prefix ''data:'' line' then
        let d = strip_spaces (drop 5 line') in
        ((s\<lparr>ct_sse_data := (if ct_sse_data s = [] then d else ct_sse_data s @ [lf] @ d)\<rparr>, h), None)
      else ((s, h), None))"

fun sse_lines :: "'h line_env \<Rightarrow> string list \<Rightarrow> http_client \<Rightarrow> 'h \<Rightarrow> (http_client \<times> 'h) \<times> exn option" where
  "sse_lines env [] s h = ((s, h), None)"
| "sse_lines env (l # ls) s h =
     (case sse_line env l s h of
        ((s', h'), None) \<Rightarrow> sse_lines env ls s' h'
      | ((s', h'), Some e) \<Rightarrow> ((s', h'), Some e))"

text \<open>\<open>on_sse_read\<close>: with the bytes of one read, and with an error.\<close>

definition on_sse_read :: "'h line_env \<Rightarrow> string \<Rightarrow> http_client \<times> 'h \<Rightarrow> http_client \<times> 'h" where
  "on_sse_read env data sh =
     (case sse_lines env (chunk_lines data) ((fst sh)\<lparr>ct_sse_reading := False\<rparr>) (snd sh) of
        ((s, h), None) \<Rightarrow> (if \<not> ct_stopping s \<and> ct_sse_socket s \<noteq> None then s\<lparr>ct_sse_reading := True\<rparr> else s, h)
      | ((s, h), Some e) \<Rightarrow> (s\<lparr>ct_escaped := Some e\<rparr>, h))"

definition sse_read_failed :: "string \<Rightarrow> http_client \<Rightarrow> http_client" where
  "sse_read_failed msg s =
     http_client_log (''SSE GET stream closed: '' @ msg) (s\<lparr>ct_sse_reading := False, ct_sse_open := False\<rparr>)"

definition start_sse_get :: "http_client \<Rightarrow> http_client" where
  "start_sse_get s =
     (if ct_sse_open s \<or> ct_stopping s \<or> \<not> ct_io s \<or> ct_session s = [] then s
      else s\<lparr>ct_sse_open := True, ct_sse_socket := Some False\<rparr>)"

text \<open>The completions of resolving and connecting, which share their failure path, and of writing the request. The
  last does not check that the socket is still there.\<close>

definition sse_give_up :: "http_client \<Rightarrow> http_client" where
  "sse_give_up s = s\<lparr>ct_sse_open := False, ct_sse_socket := None\<rparr>"

definition sse_get_request :: "http_client \<Rightarrow> string" where
  "sse_get_request s =
     ''GET '' @ ct_endpoint s @ '' HTTP/1.1'' @ crlf
     @ ''Host: '' @ host_port s @ crlf
     @ ''Accept: text/event-stream'' @ crlf
     @ ''Mcp-Session-Id: '' @ ct_session s @ crlf
     @ extra_lines s
     @ ''Connection: keep-alive'' @ crlf @ crlf"

definition sse_resolved :: "bool \<Rightarrow> http_client \<Rightarrow> http_client" where
  "sse_resolved ok s = (if \<not> ok \<or> ct_sse_socket s = None then sse_give_up s else s)"

definition sse_connected :: "bool \<Rightarrow> http_client \<Rightarrow> http_client" where
  "sse_connected ok s =
     (if \<not> ok \<or> ct_sse_socket s = None then sse_give_up s
      else s\<lparr>ct_sse_socket := Some True, ct_sse_sent := ct_sse_sent s @ [sse_get_request s]\<rparr>)"

definition sse_request_written :: "bool \<Rightarrow> http_client \<Rightarrow> http_client" where
  "sse_request_written ok s =
     (if \<not> ok then s\<lparr>ct_sse_open := False\<rparr>
      else if ct_sse_socket s = None then s\<lparr>ct_undefined := True\<rparr>
      else http_client_log ''SSE GET stream opened'' (s\<lparr>ct_sse_reading := True\<rparr>))"

definition close_sse :: "http_client \<Rightarrow> http_client" where
  "close_sse s = s\<lparr>ct_sse_socket := None, ct_sse_open := False, ct_sse_event := [], ct_sse_data := []\<rparr>"


section \<open>Responses\<close>

definition is_sse_response :: "http_client \<Rightarrow> bool" where
  "is_sse_response s = (case map_of (ct_headers s) ''content-type'' of None \<Rightarrow> False | Some v \<Rightarrow> str_contains v ''text/event-stream'')"

definition maybe_open_sse :: "http_client \<Rightarrow> http_client" where
  "maybe_open_sse s = (if \<not> ct_sse_open s \<and> ct_session s \<noteq> [] then start_sse_get s else s)"

text \<open>The texts and codes of a status that is neither 200 nor 202; the dash is that of the source, in UTF-8.\<close>

definition status_message :: "int \<Rightarrow> string" where
  "status_message st = ''http server returned status '' @ int_to_dec st"

definition status_error :: "int \<Rightarrow> int \<times> string" where
  "status_error st =
     (if st = 404 then
        (CLIENT_NOT_CONNECTED, status_message st @ '' (session not found '' @ [CHR 0xE2, CHR 0x80, CHR 0x94] @ '' reconnect required)'')
      else if st = 400 then (INVALID_REQUEST, status_message st)
      else if st = 429 then (REQUEST_FAILED, status_message st)
      else (INTERNAL_ERROR, status_message st))"

text \<open>\<open>json::empty\<close>: null, an array or an object without elements.\<close>

fun json_empty :: "json \<Rightarrow> bool" where
  "json_empty JNull = True"
| "json_empty (JArr xs) = (xs = [])"
| "json_empty (JObj m) = (m = [])"
| "json_empty _ = False"

definition status_reply :: "'h line_env \<Rightarrow> int \<Rightarrow> string \<Rightarrow> json" where
  "status_reply env st text =
     (let body = (case le_parse env text of Inl _ \<Rightarrow> JObj [] | Inr j \<Rightarrow> j)
      in jobject [(''jsonrpc'', JStr ''2.0''), (''id'', JNull),
           (''error'', error_object (fst (status_error st)) (snd (status_error st)) (if json_empty body then None else Some body))])"

definition body_failed :: "string \<Rightarrow> http_client \<Rightarrow> http_client" where
  "body_failed what s = http_client_error ''http body parse error'' (http_client_log (''http body parse error: '' @ what) s)"

definition handle_response :: "'h line_env \<Rightarrow> http_client \<Rightarrow> 'h \<Rightarrow> (http_client \<times> 'h) \<times> exn option" where
  "handle_response env s h =
     (if ct_status s = 200 \<or> ct_status s = 202 then
        (if is_sse_response s then
           (case handle_sse_frame env (ct_body s) s h of
              ((s', h'), None) \<Rightarrow> ((maybe_open_sse s', h'), None)
            | ((s', h'), Some e) \<Rightarrow> ((s', h'), Some e))
         else if ct_body s \<noteq> [] then
           (case le_parse env (ct_body s) of
              Inl err \<Rightarrow> ((body_failed err s, h), None)
            | Inr j \<Rightarrow>
                (case call_handler env j s h of
                   ((s', h'), None) \<Rightarrow> ((maybe_open_sse s', h'), None)
                 | ((s', h'), Some e) \<Rightarrow>
                     if is_std_exception e then ((body_failed (exn_what (le_what env) e) s', h'), None) else ((s', h'), Some e)))
         else ((s, h), None))
      else
        (case call_handler env (status_reply env (ct_status s) (ct_body s)) s h of
           ((s', h'), None) \<Rightarrow> ((http_client_error (status_message (ct_status s')) s', h'), None)
         | ((s', h'), Some e) \<Rightarrow> ((s', h'), Some e)))"

definition reset_response :: "http_client \<Rightarrow> http_client" where
  "reset_response s = s\<lparr>ct_body := [], ct_headers := [], ct_status := 0, ct_complete := False\<rparr>"


section \<open>Reading\<close>

text \<open>How a run of the parser stops when no callback refuses: it has consumed everything, it was paused by the end
  of a message after so many bytes, or it failed; with its state. \<open>lh_init\<close> is the state after a reset.\<close>

datatype 'p parser_stop = StopOk 'p | StopPaused nat | StopError string 'p

record 'p http_parser =
  lh_init :: 'p
  lh_run :: "'p \<Rightarrow> string \<Rightarrow> response_event list \<times> 'p parser_stop"
  lh_refused :: "'p \<Rightarrow> string \<Rightarrow> 'p"

text \<open>The loop of \<open>on_read\<close>. A callback that refuses gives the error \<open>HPE_USER\<close>; after an error the parser is left as it
  is. Without fuel the loop has not ended.\<close>

fun read_responses ::
    "nat \<Rightarrow> 'p http_parser \<Rightarrow> 'h line_env \<Rightarrow> string \<Rightarrow> 'p \<Rightarrow> http_client \<Rightarrow> 'h \<Rightarrow> ('p \<times> (http_client \<times> 'h) \<times> exn option) option" where
  "read_responses 0 lh env data p s h = None"
| "read_responses (Suc fuel) lh env data p s h =
     (if data = [] then Some (p, (s, h), None)
      else case lh_run lh p data of (es, stop) \<Rightarrow>
        (case client_events es s of
           (s', False) \<Rightarrow> Some (lh_refused lh p data, (http_client_error ''http response parse error: HPE_USER'' s', h), None)
         | (s', True) \<Rightarrow>
             (case stop of
                StopOk p' \<Rightarrow> Some (p', (s', h), None)
              | StopError name p' \<Rightarrow> Some (p', (http_client_error (''http response parse error: '' @ name) s', h), None)
              | StopPaused n \<Rightarrow>
                  (case (if ct_complete s' then handle_response env s' h else ((s', h), None)) of
                     ((s2, h2), None) \<Rightarrow> read_responses fuel lh env (drop n data) (lh_init lh) (reset_response s2) h2
                   | ((s2, h2), Some e) \<Rightarrow> Some (p, (s2, h2), Some e)))))"

definition http_start_read :: "http_client \<Rightarrow> http_client" where
  "http_start_read s = (if ct_socket s = None \<or> ct_stopping s then s else s\<lparr>ct_reading := True\<rparr>)"

definition http_on_read ::
    "'p http_parser \<Rightarrow> 'h line_env \<Rightarrow> string \<Rightarrow> 'p \<times> http_client \<times> 'h \<Rightarrow> ('p \<times> http_client \<times> 'h) option" where
  "http_on_read lh env data psh =
     (case psh of (p, s, h) \<Rightarrow>
      map_option (\<lambda>(p', (s', h'), thrown).
          case thrown of
            None \<Rightarrow> (p', if \<not> ct_stopping s' then http_start_read s' else s', h')
          | Some e \<Rightarrow> (p', s'\<lparr>ct_escaped := Some e\<rparr>, h'))
        (read_responses (Suc (length data)) lh env data p (s\<lparr>ct_reading := False\<rparr>) h))"

definition http_read_failed :: "http_client \<Rightarrow> http_client" where
  "http_read_failed s =
     (let s1 = s\<lparr>ct_reading := False, ct_connected := False\<rparr> in
      if ct_on_disconnect s1 \<and> ct_io s1 then s1\<lparr>ct_posted := ct_posted s1 @ [NotifyDisconnect]\<rparr> else s1)"


section \<open>Connecting and disconnecting\<close>

text \<open>\<open>connect\<close>; \<open>failed\<close> is the exception of the resolver or of the connection, if any, and whether the new socket was
  there already. A fresh parser is part of it.\<close>

definition http_client_connect :: "(bool \<times> exn) option \<Rightarrow> http_client \<Rightarrow> http_client \<times> exn option" where
  "http_client_connect failed s =
     (if ct_connected s then (s, None)
      else if \<not> ct_io s then (s\<lparr>ct_connected := False\<rparr>, Some (StdEx ''HttpClientTransport: no io_context''))
      else
        let s1 = s\<lparr>ct_connected := True, ct_stopping := False\<rparr> in
        case failed of
          Some (made, e) \<Rightarrow> (s1\<lparr>ct_connected := False, ct_socket := (if made then Some False else ct_socket s1)\<rparr>, Some e)
        | None \<Rightarrow>
            (http_start_read (s1\<lparr>ct_socket := Some True, ct_queue := Some (make_write_queue 0 DropNewest), ct_connected := True\<rparr>), None))"

definition http_client_write_failed :: "http_client \<Rightarrow> http_client" where
  "http_client_write_failed = http_client_error ''http write error''"

definition delete_request :: "http_client \<Rightarrow> string" where
  "delete_request s =
     ''DELETE '' @ ct_endpoint s @ '' HTTP/1.1'' @ crlf
     @ ''Host: '' @ host_port s @ crlf
     @ ''Mcp-Session-Id: '' @ ct_session s @ crlf
     @ ''Connection: close'' @ crlf @ crlf"

definition http_clear_handlers :: "http_client \<Rightarrow> http_client" where
  "http_clear_handlers s = s\<lparr>ct_on_message := False, ct_on_error := False, ct_on_disconnect := False\<rparr>"

text \<open>\<open>disconnect\<close>; the DELETE is written past the queue, so it is recorded as sent at once.\<close>

definition http_client_disconnect :: "http_client \<Rightarrow> http_client" where
  "http_client_disconnect s =
     (let s1 = (if ct_connected s \<and> ct_session s \<noteq> [] \<and> ct_socket s = Some True
            then s\<lparr>ct_sent := ct_sent s @ [delete_request s]\<rparr> else s);
          s2 = s1\<lparr>ct_stopping := True, ct_connected := False, ct_queue := map_option wq_shutdown (ct_queue s1)\<rparr>;
          s3 = (close_sse s2)\<lparr>ct_socket := map_option (\<lambda>_. False) (ct_socket s2), ct_session := []\<rparr>
      in if ct_io s3 \<and> (ct_on_message s3 \<or> ct_on_error s3 \<or> ct_on_disconnect s3)
         then s3\<lparr>ct_posted := ct_posted s3 @ [ClearHandlers]\<rparr> else http_clear_handlers s3)"

end
