(* ===== verification/Http_Client_Props.thy ===== *)
theory Http_Client_Props
  imports Http_Client Http
begin

text \<open>
  What the HTTP transport of the client achieves: messages the server pushes on an event stream reach the
  message handler, the session id is adopted and sent with every request, requests are read back as they were meant,
  and the read loop ends with bounded bodies.
\<close>

section \<open>The event stream\<close>

text \<open>What a stream of lines means for the message handler: the data collected so far, and the state
  of the handler. This is the contract that the transport implements.\<close>

definition deliver_text :: "'h line_env \<Rightarrow> (json \<Rightarrow> 'h \<Rightarrow> (emission list \<times> exn option) \<times> 'h) \<Rightarrow> string \<Rightarrow> 'h \<Rightarrow> 'h" where
  "deliver_text env f text h = (case le_parse env text of Inl _ \<Rightarrow> h | Inr j \<Rightarrow> snd (f j h))"

definition deliver_line :: "'h line_env \<Rightarrow> (json \<Rightarrow> 'h \<Rightarrow> (emission list \<times> exn option) \<times> 'h) \<Rightarrow> string \<Rightarrow> 'h \<Rightarrow> 'h" where
  "deliver_line env f line h =
     (let l = strip_cr line in
      if has_prefix ''data:'' l then deliver_text env f (strip_spaces (drop 5 l)) h
      else if l \<noteq> [] then deliver_text env f l h else h)"

definition stream_line ::
    "'h line_env \<Rightarrow> (json \<Rightarrow> 'h \<Rightarrow> (emission list \<times> exn option) \<times> 'h) \<Rightarrow> string \<Rightarrow> string \<times> 'h \<Rightarrow> string \<times> 'h" where
  "stream_line env f line dh =
     (case dh of (d, h) \<Rightarrow>
      let l = strip_cr line in
      if l = [] then ([], if d = [] then h else fold (deliver_line env f) (chunk_lines d) h)
      else if has_prefix ''event:'' l then (d, h)
      else if has_prefix ''data:'' l then
        (if d = [] then strip_spaces (drop 5 l) else d @ [lf] @ strip_spaces (drop 5 l), h)
      else (d, h))"

text \<open>A client whose handler may be called.\<close>

definition listening :: "'h line_env \<Rightarrow> (json \<Rightarrow> 'h \<Rightarrow> (emission list \<times> exn option) \<times> 'h) \<Rightarrow> string \<Rightarrow> http_client \<Rightarrow> bool" where
  "listening env f d s \<longleftrightarrow> tame_env env \<and> le_handler env = Some f \<and> ct_on_message s \<and> ct_sse_data s = d \<and> ct_escaped s = None"

lemma http_client_send_keeps:
  "ct_on_message (fst (http_client_send env m s)) = ct_on_message s"
  "ct_sse_data (fst (http_client_send env m s)) = ct_sse_data s"
  "ct_escaped (fst (http_client_send env m s)) = ct_escaped s"
  by (simp_all add: http_client_send_def http_client_error_def Let_def split: option.split sum.split prod.split enqueue_outcome.split)

lemma listening_send: "listening env f d s \<Longrightarrow> listening env f d (fst (http_client_send env m s))"
  by (simp add: listening_def http_client_send_keeps)

lemma http_client_send_tame: "tame_env env \<Longrightarrow> snd (http_client_send env m s) = None"
  by (auto simp: http_client_send_def tame_dump Let_def split: option.split sum.split prod.split enqueue_outcome.split)

lemma call_handler_listening:
  assumes "listening env f d s"
  shows "\<exists>s' x. call_handler env j s h = ((s', snd (f j h)), x) \<and> listening env f d s'
    \<and> (case x of None \<Rightarrow> True | Some e \<Rightarrow> is_std_exception e)"
proof -
  obtain es x h' where fj: "f j h = ((es, x), h')" by (metis surj_pair)
  obtain s' y where r: "run_sink (http_client_send env) (http_client_send env) es s = (s', y)" by fastforce
  have env: "tame_env env" "le_handler env = Some f" "ct_on_message s" using assms by (simp_all add: listening_def)
  have "listening env f d (fst (run_sink (http_client_send env) (http_client_send env) es s))"
    by (rule run_sink_keeps [where P = "listening env f d"]) (simp_all add: listening_send assms)
  moreover have "y = None"
    using run_sink_none [of "http_client_send env" "http_client_send env" es s] http_client_send_tame [OF env(1)] r by simp
  moreover have "case x of None \<Rightarrow> True | Some e \<Rightarrow> is_std_exception e"
    using env(1,2) fj unfolding tame_env_def by (metis fst_conv snd_conv)
  ultimately show ?thesis using env fj r by (simp add: call_handler_def)
qed

lemma frame_text_listening:
  assumes "listening env f d s"
  shows "\<exists>s'. frame_text env t s h = ((s', deliver_text env f t h), None) \<and> listening env f d s'"
proof (cases "le_parse env t")
  case (Inr j)
  obtain s' x where c: "call_handler env j s h = ((s', snd (f j h)), x)" "listening env f d s'"
    "case x of None \<Rightarrow> True | Some e \<Rightarrow> is_std_exception e"
    using call_handler_listening [OF assms] by blast
  then show ?thesis using Inr by (cases x) (simp_all add: frame_text_def deliver_text_def)
qed (use assms in \<open>simp add: frame_text_def deliver_text_def\<close>)

lemma frame_line_listening:
  "listening env f d s \<Longrightarrow> \<exists>s'. frame_line env l s h = ((s', deliver_line env f l h), None) \<and> listening env f d s'"
  by (simp add: frame_line_def deliver_line_def Let_def frame_text_listening)

lemma frame_lines_listening:
  "listening env f d s \<Longrightarrow> \<exists>s'. frame_lines env ls s h = ((s', fold (deliver_line env f) ls h), None) \<and> listening env f d s'"
proof (induction ls arbitrary: s h)
  case (Cons l ls)
  obtain s' where "frame_line env l s h = ((s', deliver_line env f l h), None)" "listening env f d s'"
    using frame_line_listening [OF Cons.prems] by blast
  with Cons.IH show ?case by simp
qed simp

lemma sse_line_listening:
  assumes "listening env f d s"
  shows "\<exists>s'. sse_line env l s h = ((s', snd (stream_line env f l (d, h))), None) \<and> listening env f (fst (stream_line env f l (d, h))) s'"
proof -
  have s: "ct_on_message s" "ct_sse_data s = d" using assms by (simp_all add: listening_def)
  obtain s' where "frame_lines env (chunk_lines d) s h = ((s', fold (deliver_line env f) (chunk_lines d) h), None)" "listening env f d s'"
    using frame_lines_listening [OF assms] by blast
  then have frame: "handle_sse_frame env d s h = ((s', fold (deliver_line env f) (chunk_lines d) h), None)" "listening env f d s'"
    if "d \<noteq> []" using that s by (simp_all add: handle_sse_frame_def)
  show ?thesis
    using assms s frame by (auto simp: sse_line_def stream_line_def Let_def) (auto simp: listening_def)
qed

lemma sse_lines_listening:
  "listening env f d s \<Longrightarrow> fold (stream_line env f) ls (d, h) = (d', h') \<Longrightarrow>
   \<exists>s'. sse_lines env ls s h = ((s', h'), None) \<and> listening env f d' s'"
proof (induction ls arbitrary: s d h)
  case (Cons l ls)
  obtain d1 h1 where dh: "stream_line env f l (d, h) = (d1, h1)" by fastforce
  obtain s1 where "sse_line env l s h = ((s1, h1), None)" "listening env f d1 s1"
    using sse_line_listening [OF Cons.prems(1), of l h] dh by auto
  moreover have "\<exists>s'. sse_lines env ls s1 h1 = ((s', h'), None) \<and> listening env f d' s'"
    using Cons.IH [OF calculation(2)] Cons.prems(2) dh by simp
  ultimately show ?case by simp
qed simp

lemma on_sse_read_listening:
  assumes "listening env f d s" "fold (stream_line env f) (chunk_lines data) (d, h) = (d', h')"
  shows "\<exists>s'. on_sse_read env data (s, h) = (s', h') \<and> listening env f d' s'"
proof -
  have "listening env f d (s\<lparr>ct_sse_reading := False\<rparr>)" using assms(1) by (simp add: listening_def)
  from sse_lines_listening [OF this assms(2)] obtain s' where
    "sse_lines env (chunk_lines data) (s\<lparr>ct_sse_reading := False\<rparr>) h = ((s', h'), None)" "listening env f d' s'" by blast
  then show ?thesis by (simp add: on_sse_read_def listening_def)
qed

text \<open>The reads of a stream do what its lines mean.\<close>

lemma on_sse_reads:
  assumes "listening env f d s" "fold (stream_line env f) (concat (map chunk_lines chunks)) (d, h) = (d', h')"
  shows "\<exists>s'. fold (on_sse_read env) chunks (s, h) = (s', h') \<and> listening env f d' s'"
  using assms
proof (induction chunks arbitrary: s d h)
  case (Cons c cs)
  obtain d1 h1 where dh: "fold (stream_line env f) (chunk_lines c) (d, h) = (d1, h1)" by fastforce
  obtain s1 where "on_sse_read env c (s, h) = (s1, h1)" "listening env f d1 s1"
    using on_sse_read_listening [OF Cons.prems(1) dh] by blast
  with Cons.IH [of d1 s1 h1] Cons.prems(2) dh show ?case by simp
qed simp


text \<open>A text that survives the framing: on one line, not empty, and beginning neither with a blank nor with what
  could be a field name. JSON objects and arrays are written like this.\<close>

definition sse_safe :: "string \<Rightarrow> bool" where
  "sse_safe t \<longleftrightarrow> t \<noteq> [] \<and> hd t \<in> {CHR ''{'', CHR ''[''} \<and> last t \<noteq> cr \<and> lf \<notin> set t"

lemma strip_cr_id: "t = [] \<or> last t \<noteq> cr \<Longrightarrow> strip_cr t = t"
  by (cases t rule: rev_cases) (simp_all add: strip_cr_def strip_back_def)

lemma strip_cr_Nil [simp]: "strip_cr [] = []"
  by (simp add: strip_cr_id)

lemma chunk_lines_one: "t \<noteq> [] \<Longrightarrow> lf \<notin> set t \<Longrightarrow> chunk_lines t = [t]"
  by (simp add: chunk_lines_def split_lines_rest)

lemma data_line:
  assumes "t \<noteq> []" "hd t \<noteq> CHR '' ''" "last t \<noteq> cr"
  shows "stream_line env f (''data: '' @ t) ([], h) = (t, h)"
proof -
  have "strip_cr (''data: '' @ t) = ''data: '' @ t" using assms(1,3) by (intro strip_cr_id) simp
  moreover have "strip_spaces t = t" using assms(1,2) by (cases t) (simp_all add: strip_spaces_def)
  ultimately show ?thesis by (simp add: stream_line_def Let_def strip_spaces_def)
qed

lemma blank_line: "d \<noteq> [] \<Longrightarrow> stream_line env f [] (d, h) = ([], fold (deliver_line env f) (chunk_lines d) h)"
  by (simp add: stream_line_def)

lemma deliver_plain:
  assumes "t \<noteq> []" "lf \<notin> set t" "last t \<noteq> cr" "\<not> has_prefix ''data:'' t"
  shows "fold (deliver_line env f) (chunk_lines t) h = deliver_text env f t h"
  using assms by (simp add: chunk_lines_one deliver_line_def Let_def strip_cr_id)

lemma sse_safe_facts:
  assumes "sse_safe t"
  shows "t \<noteq> []" "hd t \<noteq> CHR '' ''" "last t \<noteq> cr" "lf \<notin> set t" "\<not> has_prefix ''data:'' t"
  using assms by (cases t; auto simp: sse_safe_def)+

lemma event_lines: "sse_safe t \<Longrightarrow> fold (stream_line env f) [''data: '' @ t, []] ([], h) = ([], deliver_text env f t h)"
  using sse_safe_facts [of t] by (simp add: data_line blank_line deliver_plain del: append_Cons)

definition event_line_list :: "string list \<Rightarrow> string list" where
  "event_line_list ts = concat (map (\<lambda>t. [''data: '' @ t, []]) ts)"

lemma stream_of_events: "concat (map sse_frame ts) = join_lines (event_line_list ts)"
  by (induction ts) (simp_all add: event_line_list_def sse_frame_def)

lemma events_delivered:
  "\<forall>t \<in> set ts. sse_safe t \<Longrightarrow> fold (stream_line env f) (event_line_list ts) ([], h) = ([], fold (deliver_text env f) ts h)"
proof (induction ts arbitrary: h)
  case (Cons t ts)
  then show ?case using event_lines [of t env f h] by (simp add: event_line_list_def del: append_Cons)
qed (simp add: event_line_list_def)

text \<open>Reads that end at the end of a line.\<close>

definition whole_lines :: "string \<Rightarrow> bool" where
  "whole_lines c \<longleftrightarrow> c = [] \<or> last c = lf"

lemma whole_lines_join:
  assumes "whole_lines c"
  shows "c = join_lines (chunk_lines c)" "\<forall>l \<in> set (chunk_lines c). lf \<notin> set l"
proof -
  obtain ls r where s: "split_lines c = (ls, r)" by fastforce
  have d: "c = join_lines ls @ r" "lf \<notin> set r" "\<forall>l \<in> set ls. lf \<notin> set l" using split_linesD [OF s] by auto
  have "r = []" using assms d(1,2) by (cases r rule: rev_cases) (auto simp: whole_lines_def)
  with d s show "c = join_lines (chunk_lines c)" "\<forall>l \<in> set (chunk_lines c). lf \<notin> set l" by (simp_all add: chunk_lines_def)
qed

lemma whole_lines_concat:
  assumes "\<forall>c \<in> set chunks. whole_lines c"
  shows "concat (map chunk_lines chunks) = fst (split_lines (concat chunks))"
proof -
  let ?ls = "concat (map chunk_lines chunks)"
  have "concat chunks = join_lines ?ls" using assms
  proof (induction chunks)
    case (Cons c cs)
    then show ?case using whole_lines_join(1) [of c] by simp
  qed simp
  moreover have "\<forall>l \<in> set ?ls. lf \<notin> set l" using assms whole_lines_join(2) by auto
  ultimately show ?thesis using split_lines_join [of "[]" ?ls] by simp
qed

lemma event_lines_plain: "\<forall>t \<in> set ts. sse_safe t \<Longrightarrow> \<forall>l \<in> set (event_line_list ts). lf \<notin> set l"
  by (auto simp: event_line_list_def sse_safe_def lf_def)

text \<open>C18: Pushed messages arrive. The events the server writes for some messages, read by the client in reads that
  end at the ends of lines, make its message handler run once for each message, in order. (Messages are
  written on one line and read back; the handler lets only standard exceptions out.)\<close>

theorem events_reach_the_handler:
  assumes "tame_env env" "le_handler env = Some f" "ct_on_message s" "ct_sse_data s = []" "ct_escaped s = None"
    and "\<forall>t \<in> set ts. sse_safe t" "map (le_parse env) ts = map Inr ms"
    and "concat chunks = concat (map sse_frame ts)" "\<forall>c \<in> set chunks. whole_lines c"
  shows "snd (fold (on_sse_read env) chunks (s, h)) = fold (\<lambda>m h. snd (f m h)) ms h"
proof -
  have "concat (map chunk_lines chunks) = fst (split_lines (join_lines (event_line_list ts)))"
    using whole_lines_concat [OF assms(9)] assms(8) by (simp add: stream_of_events)
  also have "\<dots> = event_line_list ts"
    using split_lines_join [of "[]" "event_line_list ts"] event_lines_plain [OF assms(6)] by simp
  finally have lines: "fold (stream_line env f) (concat (map chunk_lines chunks)) ([], h) = ([], fold (deliver_text env f) ts h)"
    using events_delivered [OF assms(6)] by simp
  have "listening env f [] s" using assms(1-5) by (simp add: listening_def)
  from on_sse_reads [OF this lines] have "snd (fold (on_sse_read env) chunks (s, h)) = fold (deliver_text env f) ts h" by auto
  moreover have "fold (deliver_text env f) ts h = fold (\<lambda>m h. snd (f m h)) ms h" for h
    using assms(7)
  proof (induction ts arbitrary: ms h)
    case (Cons t ts)
    then obtain m ms' where "ms = m # ms'" "le_parse env t = Inr m" "map (le_parse env) ts = map Inr ms'" by auto
    with Cons.IH show ?case by (simp add: deliver_text_def)
  qed simp
  ultimately show ?thesis by simp
qed

definition ex_http_client :: http_client where
  "ex_http_client = (HttpClientTransport ''localhost'' 80 ''/mcp'')\<lparr>ct_on_message := True\<rparr>"

theorem events_reach_the_handler_witness:
  "snd (fold (on_sse_read ex_line_env) [''data: {}'' @ [lf], [lf] @ ''data: []'' @ [lf, lf]] (ex_http_client, [])) = [''{}'', ''[]'']"
proof -
  let ?f = "\<lambda>j h. (([] :: emission list, None :: exn option), h @ [case j of JStr t \<Rightarrow> t | _ \<Rightarrow> []])"
  have env: "le_handler ex_line_env = Some ?f" "map (le_parse ex_line_env) [''{}'', ''[]''] = map Inr [JStr ''{}'', JStr ''[]'']"
    by (simp_all add: ex_line_env_def)
  have s: "ct_on_message ex_http_client" "ct_sse_data ex_http_client = []" "ct_escaped ex_http_client = None"
    by (simp_all add: ex_http_client_def HttpClientTransport_def)
  have safe: "\<forall>t \<in> set [''{}'', ''[]'']. sse_safe t" by (simp add: sse_safe_def cr_def lf_def)
  have chunks: "concat [''data: {}'' @ [lf], [lf] @ ''data: []'' @ [lf, lf]] = concat (map sse_frame [''{}'', ''[]''])"
    "\<forall>c \<in> set [''data: {}'' @ [lf], [lf] @ ''data: []'' @ [lf, lf]]. whole_lines c"
    by (simp_all add: sse_frame_def whole_lines_def)
  show ?thesis
    using events_reach_the_handler [OF ex_line_env_tame env(1) s safe env(2) chunks, of "[]"] by simp
qed

text \<open>An event cut by a read is lost. When a read ends inside the data of an event, the client takes what it has
  for the whole line, and the rest for a line without a field. The message is dropped without a
  trace, although it would be handled had it come in one read.\<close>

theorem cut_event_is_lost:
  assumes "tame_env env" "le_handler env = Some f" "ct_on_message s" "ct_sse_data s = []" "ct_escaped s = None"
    and "sse_safe (a @ b)" "le_parse env (a @ b) = Inr m" "le_parse env a = Inl err"
    and "a \<noteq> []" "last a \<noteq> cr" "b \<noteq> []" "\<not> has_prefix ''event:'' b" "\<not> has_prefix ''data:'' b"
  shows "snd (fold (on_sse_read env) [sse_frame (a @ b)] (s, h)) = snd (f m h)
    \<and> snd (fold (on_sse_read env) [''data: '' @ a, b @ [lf, lf]] (s, h)) = h"
proof
  have l: "listening env f [] s" using assms(1-5) by (simp add: listening_def)
  note ab = sse_safe_facts [OF assms(6)]
  have a: "hd a \<noteq> CHR '' ''" "lf \<notin> set a" "lf \<notin> set b" "last b \<noteq> cr" "\<not> has_prefix ''data:'' a"
    using ab assms(9,11) by (auto simp: has_prefix_iff)
  have "chunk_lines (sse_frame (a @ b)) = [''data: '' @ a @ b, []]"
    using split_lines_join [of "[]" "[''data: '' @ a @ b, []]"] a(2,3)
    by (simp add: chunk_lines_def sse_frame_def) (simp add: lf_def)
  then have "fold (stream_line env f) (concat (map chunk_lines [sse_frame (a @ b)])) ([], h) = ([], deliver_text env f (a @ b) h)"
    using event_lines [OF assms(6), of env f h] by simp
  from on_sse_reads [OF l this] show "snd (fold (on_sse_read env) [sse_frame (a @ b)] (s, h)) = snd (f m h)"
    using assms(7) by (auto simp: deliver_text_def)
  have "chunk_lines (''data: '' @ a) = [''data: '' @ a]" using a(2) by (intro chunk_lines_one) (simp_all add: lf_def)
  moreover have "chunk_lines (b @ [lf, lf]) = [b, []]"
    using split_lines_join [of "[]" "[b, []]"] a(3) by (simp add: chunk_lines_def)
  moreover have "stream_line env f b (a, h) = (a, h)"
    using assms(11-13) a(4) by (simp add: stream_line_def Let_def strip_cr_id)
  moreover have "fold (deliver_line env f) (chunk_lines a) h = h"
    using deliver_plain [of a env f h] assms(8-10) a(2,5) by (simp add: deliver_text_def)
  ultimately have "fold (stream_line env f) (concat (map chunk_lines [''data: '' @ a, b @ [lf, lf]])) ([], h) = ([], h)"
    using data_line [of a env f h] assms(9,10) a(1) by (simp add: blank_line del: append_Cons)
  from on_sse_reads [OF l this] show "snd (fold (on_sse_read env) [''data: '' @ a, b @ [lf, lf]] (s, h)) = h" by auto
qed

theorem cut_event_is_lost_witness:
  "snd (fold (on_sse_read (ex_line_env\<lparr>le_parse := (\<lambda>t. if t = ''{}'' then Inr (JStr t) else Inl [])\<rparr>))
     [''data: '' @ ''{'', ''}'' @ [lf, lf]] (ex_http_client, [])) = []"
proof -
  let ?env = "ex_line_env\<lparr>le_parse := (\<lambda>t. if t = ''{}'' then Inr (JStr t) else Inl [])\<rparr>"
  let ?f = "\<lambda>j h. (([] :: emission list, None :: exn option), h @ [case j of JStr t \<Rightarrow> t | _ \<Rightarrow> []])"
  have env: "tame_env ?env" "le_handler ?env = Some ?f" using ex_line_env_tame by (simp_all add: tame_env_def ex_line_env_def)
  have s: "ct_on_message ex_http_client" "ct_sse_data ex_http_client = []" "ct_escaped ex_http_client = None"
    by (simp_all add: ex_http_client_def HttpClientTransport_def)
  have "sse_safe (''{'' @ ''}'')" "le_parse ?env (''{'' @ ''}'') = Inr (JStr ''{}'')" "le_parse ?env ''{'' = Inl []"
    by (simp_all add: sse_safe_def cr_def lf_def)
  from cut_event_is_lost [OF env s this, of "[]"] show ?thesis by (simp add: cr_def)
qed


section \<open>Requests and the session\<close>

text \<open>The lines of a posted request's head.\<close>

definition post_lines :: "string \<Rightarrow> http_client \<Rightarrow> string list" where
  "post_lines body s =
     [''POST '' @ ct_endpoint s @ '' HTTP/1.1'', ''Host: '' @ host_port s, ''Content-Type: application/json'',
      ''Content-Length: '' @ nat_to_dec (length body), ''Accept: application/json, text/event-stream'']
     @ (if ct_session s \<noteq> [] then [''Mcp-Session-Id: '' @ ct_session s] else [])
     @ map (\<lambda>(k, v). k @ '': '' @ v) (ct_extra s) @ [''Connection: keep-alive'']"

text \<open>The texts that go into a request hold no carriage return.\<close>

definition plain_request :: "http_client \<Rightarrow> bool" where
  "plain_request s \<longleftrightarrow> cr \<notin> set (ct_endpoint s) \<and> cr \<notin> set (ct_host s) \<and> cr \<notin> set (ct_session s)
     \<and> (\<forall>(k, v) \<in> set (ct_extra s). cr \<notin> set k \<and> cr \<notin> set v)"

lemma extra_lines_concat: "extra_lines s = concat (map (\<lambda>l. l @ crlf) (map (\<lambda>(k, v). k @ '': '' @ v) (ct_extra s)))"
proof -
  have "concat (map (\<lambda>(k, v). k @ '': '' @ v @ crlf) kvs) = concat (map (\<lambda>l. l @ crlf) (map (\<lambda>(k, v). k @ '': '' @ v) kvs))" for kvs
    by (induction kvs) auto
  then show ?thesis by (simp add: extra_lines_def)
qed

lemma build_post_request_lines: "build_post_request body s = concat (map (\<lambda>l. l @ crlf) (post_lines body s)) @ crlf @ body"
  by (simp add: build_post_request_def post_lines_def extra_lines_concat)

lemma post_lines_plain: "plain_request s \<Longrightarrow> \<forall>l \<in> set (post_lines body s). cr \<notin> set l \<and> l \<noteq> []"
  using nat_to_dec_no_cr by (auto simp: post_lines_def plain_request_def host_port_def cr_def)

text \<open>Posted messages are read back. A server that reads lines up to the first empty one finds exactly the
  lines the client meant, with the session id when there is one, and after them exactly the
  message, of the announced length. (Nothing in the configuration holds a carriage return.)\<close>

theorem post_request_roundtrip:
  assumes "plain_request s"
  shows "read_lines [] (build_post_request body s) = Some (post_lines body s, body)
    \<and> ''Content-Length: '' @ nat_to_dec (length body) \<in> set (post_lines body s)
    \<and> (ct_session s \<noteq> [] \<longrightarrow> ''Mcp-Session-Id: '' @ ct_session s \<in> set (post_lines body s))"
  using read_lines_head [OF post_lines_plain [OF assms]] by (simp add: build_post_request_lines post_lines_def)

theorem post_request_roundtrip_witness:
  "read_lines [] (build_post_request ''{}'' (ex_http_client\<lparr>ct_session := ''abc''\<rparr>))
     = Some (post_lines ''{}'' (ex_http_client\<lparr>ct_session := ''abc''\<rparr>), ''{}'')"
  using post_request_roundtrip [of "ex_http_client\<lparr>ct_session := ''abc''\<rparr>" "''{}''"]
  by (simp add: plain_request_def ex_http_client_def HttpClientTransport_def cr_def)

lemma value_events_client:
  "client_events (map RValue vs @ es) s = client_events es (s\<lparr>ct_value := ct_value s @ concat vs\<rparr>)"
proof (induction vs arbitrary: s)
  case (Cons v vs)
  then show ?case by (simp add: client_header_value_def)
qed simp




section \<open>Reading responses\<close>

lemma to_lower_idem [simp]: "to_lower (to_lower s) = to_lower s"
proof -
  have "to_lower_char (to_lower_char c) = to_lower_char c" for c
  proof (cases "65 \<le> (of_char c :: nat) \<and> (of_char c :: nat) \<le> 90")
    case True
    then have "of_char (char_of (of_char c + 32 :: nat)) = (of_char c + 32 :: nat)" by simp
    with True show ?thesis by (simp add: to_lower_char_def Let_def)
  qed (auto simp: to_lower_char_def Let_def)
  then show ?thesis by (simp add: to_lower_def)
qed

text \<open>A well-formed response so far: the headers are a map, in the order of its keys, under names in lower case that are not
  empty, and the body is within its limit.\<close>

definition response_wf :: "http_client \<Rightarrow> bool" where
  "response_wf s \<longleftrightarrow> osorted (ct_headers s) \<and> (\<forall>k \<in> set (map fst (ct_headers s)). k \<noteq> [] \<and> to_lower k = k)
     \<and> length (ct_body s) \<le> client_max_body"

lemma response_wf_fields [simp]:
  "response_wf (s\<lparr>ct_field := f\<rparr>) = response_wf s" "response_wf (s\<lparr>ct_value := v\<rparr>) = response_wf s"
  "response_wf (s\<lparr>ct_session := i\<rparr>) = response_wf s" "response_wf (s\<lparr>ct_status := st\<rparr>) = response_wf s"
  "response_wf (s\<lparr>ct_complete := b\<rparr>) = response_wf s" "response_wf (s\<lparr>ct_reading := b\<rparr>) = response_wf s"
  "response_wf (s\<lparr>ct_escaped := x\<rparr>) = response_wf s"
  by (simp_all add: response_wf_def)

lemma response_wf_header:
  "response_wf s \<Longrightarrow> k \<noteq> [] \<Longrightarrow> to_lower k = k \<Longrightarrow> response_wf (s\<lparr>ct_headers := oset k v (ct_headers s)\<rparr>)"
  unfolding response_wf_def by (simp add: osorted_oset keys_oset del: set_map)

lemma response_wf_flush: "response_wf s \<Longrightarrow> response_wf (client_flush_header s)"
proof -
  assume s: "response_wf s"
  have "response_wf (s\<lparr>ct_headers := oset (to_lower (ct_field s)) (ct_value s) (ct_headers s)\<rparr>)" if "ct_field s \<noteq> []"
    using that by (intro response_wf_header [OF s]) (simp_all, simp add: to_lower_def)
  with s show ?thesis by (auto simp: client_flush_header_def Let_def)
qed

lemma response_wf_event: "client_event e s = Some s' \<Longrightarrow> response_wf s \<Longrightarrow> response_wf s'"
  by (cases e) (auto simp: client_header_field_def client_header_value_def client_headers_complete_def client_body_def
      client_message_complete_def Let_def response_wf_flush split: if_splits, auto simp: response_wf_def)

lemma response_wf_events: "response_wf s \<Longrightarrow> response_wf (fst (client_events es s))"
proof (induction es arbitrary: s)
  case (Cons e es)
  then show ?case by (cases "client_event e s") (auto simp: response_wf_event)
qed simp

text \<open>What sending and noting keep, handling a response keeps.\<close>

lemma call_handler_keeps:
  assumes send: "\<And>m s. P s \<Longrightarrow> P (fst (http_client_send env m s))" and s: "P s"
  shows "P (fst (fst (call_handler env j s h)))"
proof -
  have "P (fst (run_sink (http_client_send env) (http_client_send env) es s))" for es
    by (rule run_sink_keeps [where P = P]) (simp_all only: send s)
  then show ?thesis using s by (auto simp: call_handler_def split: option.split prod.split if_splits) (metis fst_conv)+
qed

lemma frame_lines_keeps:
  assumes send: "\<And>m s. P s \<Longrightarrow> P (fst (http_client_send env m s))" and "P s"
  shows "P (fst (fst (frame_lines env ls s h)))"
  using assms(2)
proof (induction ls arbitrary: s h)
  case (Cons l ls)
  have payload: "P (fst (fst (frame_text env t s h)))" for t
  proof (cases "le_parse env t")
    case (Inr j)
    then show ?thesis
      using call_handler_keeps [of P env s j h, OF send Cons.prems] by (cases "call_handler env j s h") (auto simp: frame_text_def split: option.split)
  qed (use Cons.prems in \<open>simp add: frame_text_def\<close>)
  have line: "P (fst (fst (frame_line env l s h)))" using payload Cons.prems by (simp add: frame_line_def Let_def)
  obtain s' h' x where r: "frame_line env l s h = ((s', h'), x)" by (metis prod.collapse)
  with line have "P s'" by simp
  with Cons.IH show ?case by (cases x) (simp_all add: r)
qed simp

lemma handle_response_keeps:
  assumes send: "\<And>m s. P s \<Longrightarrow> P (fst (http_client_send env m s))"
    and noting: "\<And>m s. P s \<Longrightarrow> P (http_client_error m s)" "\<And>m s. P s \<Longrightarrow> P (http_client_log m s)" "\<And>s. P s \<Longrightarrow> P (maybe_open_sse s)"
    and s: "P s"
  shows "P (fst (fst (handle_response env s h)))"
proof -
  have call: "P (fst (fst (call_handler env j s h)))" for j by (rule call_handler_keeps [of P]) (simp_all only: send s)
  have frame: "P (fst (fst (handle_sse_frame env d s h)))" for d
    using frame_lines_keeps [of P env s "chunk_lines d" h, OF send s] s by (simp add: handle_sse_frame_def)
  have 1: "P (fst (fst (case X of ((s', h'), None) \<Rightarrow> ((g s', h'), None) | ((s', h'), Some e) \<Rightarrow> ((s', h'), Some e))))"
    if "P (fst (fst X))" "\<And>s. P s \<Longrightarrow> P (g s)" for X :: "(http_client \<times> 'a) \<times> exn option" and g
    using that by (cases X; cases "snd X") (auto split: option.split)
  have 2: "P (fst (fst (case X of ((s', h'), None) \<Rightarrow> ((maybe_open_sse s', h'), None)
      | ((s', h'), Some e) \<Rightarrow> if is_std_exception e then ((body_failed (w e) s', h'), None) else ((s', h'), Some e))))"
    if "P (fst (fst X))" for X :: "(http_client \<times> 'a) \<times> exn option" and w
    using that noting by (cases X; cases "snd X") (auto simp: body_failed_def)
  show ?thesis
    unfolding handle_response_def using 1 [OF frame noting(3)] 2 [OF call] s
    by (cases "le_parse env (ct_body s)") (auto simp: body_failed_def noting intro!: 1 [OF call])
qed

lemma response_wf_keeps:
  "response_wf (fst (http_client_send env m s)) = response_wf s" "response_wf (http_client_error n s) = response_wf s"
  "response_wf (http_client_log n s) = response_wf s" "response_wf (maybe_open_sse s) = response_wf s"
  "response_wf (http_start_read s) = response_wf s" "response_wf (reset_response s)"
  by (simp_all add: http_client_send_def http_client_error_def http_client_log_def maybe_open_sse_def start_sse_get_def
      http_start_read_def reset_response_def Let_def response_wf_def split: option.split sum.split prod.split enqueue_outcome.split)

lemma read_responses_end:
  assumes eats: "\<And>p d es n. lh_run lh p d = (es, StopPaused n) \<Longrightarrow> 0 < n" and "response_wf s" "length data < fuel"
  shows "\<exists>p' s' h' x. read_responses fuel lh env data p s h = Some (p', (s', h'), x) \<and> response_wf s'"
  using assms(2,3)
proof (induction fuel arbitrary: data p s h)
  case (Suc fuel)
  show ?case
  proof (cases "data = []")
    case True
    with Suc.prems(1) show ?thesis by simp
  next
    case False
    obtain es stop where run: "lh_run lh p data = (es, stop)" by fastforce
    obtain s1 ok where ev: "client_events es s = (s1, ok)" by fastforce
    have wf: "response_wf s1" using response_wf_events [OF Suc.prems(1), of es] ev by simp
    show ?thesis
    proof (cases "ok \<and> (\<exists>n. stop = StopPaused n)")
      case True
      then obtain n where n: "stop = StopPaused n" ok by blast
      obtain s2 h2 x where r: "(if ct_complete s1 then handle_response env s1 h else ((s1, h), None)) = ((s2, h2), x)"
        by (metis prod.collapse)
      have "response_wf (fst (fst (handle_response env s1 h)))"
        by (rule handle_response_keeps [where P = response_wf]) (simp_all add: response_wf_keeps wf)
      with r wf have s2: "response_wf s2" by (cases "ct_complete s1") auto
      have "0 < n" using eats run n(1) by blast
      then have "length (drop n data) < fuel" using Suc.prems(2) False by (cases data) auto
      then show ?thesis
        using Suc.IH [of "reset_response s2" "drop n data" "lh_init lh" h2] False run ev n r s2
        by (cases x) (simp_all add: response_wf_keeps)
    next
      case no: False
      with wf False run ev show ?thesis by (cases ok; cases stop) (auto simp: response_wf_keeps)
    qed
  qed
qed simp

text \<open>C37: Reading keeps the response well formed, and ends. When the parser consumes at least a byte before it reports
  the end of a response, as it does, a completed read handles the responses in it and returns; whatever the
  server sends, the headers stay a map under lower-case names that are not empty, and the body never
  exceeds 16 MiB.\<close>

theorem http_reads_are_bounded:
  assumes "\<And>p d es n. lh_run lh p d = (es, StopPaused n) \<Longrightarrow> 0 < n" "response_wf s"
  shows "\<exists>p' s' h'. http_on_read lh env data (p, s, h) = Some (p', s', h') \<and> response_wf s'
    \<and> length (ct_body s') \<le> 16 * 1024 * 1024"
proof -
  obtain p' s' h' x where "read_responses (Suc (length data)) lh env data p (s\<lparr>ct_reading := False\<rparr>) h = Some (p', (s', h'), x)"
    "response_wf s'"
    using read_responses_end [of lh "s\<lparr>ct_reading := False\<rparr>" data "Suc (length data)" env p h] assms by auto
  moreover from this(2) have "length (ct_body s') \<le> 16 * 1024 * 1024" by (simp add: response_wf_def client_max_body_def)
  ultimately show ?thesis
    by (cases x) (simp_all add: http_on_read_def response_wf_keeps http_start_read_def del: read_responses.simps)
qed

theorem http_reads_are_bounded_witness:
  "\<exists>p' s' h'. http_on_read \<lparr>lh_init = (), lh_run = (\<lambda>p d. ([RHeaders 202, RComplete], StopPaused 1)), lh_refused = (\<lambda>p d. ())\<rparr>
     ex_line_env ''xy'' ((), ex_http_client, []) = Some (p', s', h')"
  using http_reads_are_bounded
    [of "\<lparr>lh_init = (), lh_run = (\<lambda>p d. ([RHeaders 202, RComplete], StopPaused 1)), lh_refused = (\<lambda>p d. ())\<rparr>" ex_http_client
      ex_line_env "''xy''" "()" "[]"]
  by (simp add: ex_http_client_def HttpClientTransport_def response_wf_def) blast

text \<open>The completion of writing the GET request uses the socket without looking whether it is still there: a
  \<open>disconnect\<close> between the two leaves it a null pointer.\<close>

lemma late_write_completion_is_undefined: "ct_undefined (sse_request_written True (http_client_disconnect s))"
  by (simp add: sse_request_written_def http_client_disconnect_def Let_def close_sse_def http_clear_handlers_def)

end
