(* ===== verification/Stdio.thy ===== *)
theory Stdio
  imports Transport Line_Framing Write_Queue "HOL-Library.Sublist"
begin

text \<open>
  The standard I/O transport of the server (\<open>stdio_transport.hpp\<close>, \<open>stdio_transport.cpp\<close>): lines are read
  from standard input on the event loop; what is sent goes through a queue to a thread of its own that
  writes it to standard output. The variant of the code for Unix is modelled, and the start and the console
  loop of the variant for Windows. The error and the disconnect handler are set, as the server does before it starts
  a transport.
\<close>

section \<open>State and operations\<close>

record stdio_transport =
  st_running :: bool
  st_io :: bool
  st_buf :: string
  st_reading :: bool
  st_queue :: "string list"
  st_bytes :: "64 word"
  st_stopping :: bool
  st_writer :: bool
  st_inflight :: "string option"
  st_output :: "string list"
  st_errors :: "string list"
  st_disconnects :: nat
  st_log :: "string list"
  st_escaped :: "exn option"

definition StdioTransport :: stdio_transport where
  "StdioTransport = \<lparr>st_running = False, st_io = False, st_buf = [], st_reading = False, st_queue = [], st_bytes = 0,
     st_stopping = False, st_writer = False, st_inflight = None, st_output = [], st_errors = [], st_disconnects = 0,
     st_log = [], st_escaped = None\<rparr>"

definition stdio_max_line :: nat where "stdio_max_line = 4 * 1024 * 1024"

definition max_queued_write_bytes :: "64 word" where "max_queued_write_bytes = 32 * 1024 * 1024"

definition stdio_error :: "string \<Rightarrow> stdio_transport \<Rightarrow> stdio_transport" where
  "stdio_error e s = s\<lparr>st_errors := st_errors s @ [e]\<rparr>"

definition stdio_log :: "string \<Rightarrow> stdio_transport \<Rightarrow> stdio_transport" where
  "stdio_log m s = s\<lparr>st_log := st_log s @ [m]\<rparr>"

definition stdio_do_read :: "stdio_transport \<Rightarrow> stdio_transport" where
  "stdio_do_read s = s\<lparr>st_reading := True\<rparr>"

text \<open>\<open>start\<close>, on a transport that has no writer thread.\<close>

definition stdio_start :: "stdio_transport \<Rightarrow> stdio_transport" where
  "stdio_start s =
     (let s1 = s\<lparr>st_running := True, st_stopping := False, st_writer := True\<rparr> in
      if \<not> st_io s1 then (stdio_error ''StdioTransport: no io_context set'' s1)\<lparr>st_running := False\<rparr>
      else stdio_do_read s1)"

text \<open>The variant for Windows reads a pipe like the other one, and starts a thread with \<open>win32_read_loop\<close> for a console or
  when the handle cannot be assigned; the second component tells whether it does.\<close>

definition stdio_start_win32 :: "bool \<Rightarrow> bool \<Rightarrow> stdio_transport \<Rightarrow> stdio_transport \<times> bool" where
  "stdio_start_win32 is_pipe assigned s =
     (let s1 = s\<lparr>st_running := True, st_stopping := False, st_writer := True\<rparr> in
      if is_pipe \<and> st_io s1 then
        (if assigned then (stdio_do_read s1, False) else (stdio_error ''StdioTransport: stdin assign failed'' s1, True))
      else (s1, True))"

text \<open>The part of \<open>send_message\<close> under the lock.\<close>

definition stdio_enqueue :: "string \<Rightarrow> stdio_transport \<Rightarrow> stdio_transport" where
  "stdio_enqueue data s =
     (if st_stopping s then s
      else
        let q = (if st_bytes s + data_size data > max_queued_write_bytes \<and> st_queue s \<noteq> [] then tl (st_queue s) else st_queue s)
        in s\<lparr>st_bytes := st_bytes s + data_size data, st_queue := q @ [data]\<rparr>)"

definition stdio_send_message :: "'h line_env \<Rightarrow> json \<Rightarrow> stdio_transport \<Rightarrow> stdio_transport \<times> exn option" where
  "stdio_send_message env m s =
     (case le_dump env m of Inl e \<Rightarrow> (s, Some e) | Inr t \<Rightarrow> (stdio_enqueue (t @ [lf]) s, None))"

text \<open>One round of \<open>write_loop\<close> in its two halves: under the lock the next line is taken, then it is
  written. Without a line the thread waits, or ends when it is told to stop.\<close>

definition writer_take :: "stdio_transport \<Rightarrow> stdio_transport" where
  "writer_take s =
     (case st_queue s of
        [] \<Rightarrow> if st_stopping s then s\<lparr>st_writer := False\<rparr> else s
      | d # q \<Rightarrow> s\<lparr>st_queue := q, st_bytes := st_bytes s - data_size d, st_inflight := Some d\<rparr>)"

definition writer_write :: "stdio_transport \<Rightarrow> stdio_transport" where
  "writer_write s =
     (case st_inflight s of None \<Rightarrow> s | Some d \<Rightarrow> s\<lparr>st_output := st_output s @ [d], st_inflight := None\<rparr>)"

text \<open>What is left of \<open>write_loop\<close> when the transport stops: \<open>stop\<close> joins the thread.\<close>

function write_loop :: "stdio_transport \<Rightarrow> stdio_transport" where
  "write_loop s = (if st_queue s = [] then writer_take (writer_write s) else write_loop (writer_take (writer_write s)))"
  by auto
termination
  by (relation "measure (\<lambda>s. length (st_queue s))")
    (auto simp: writer_take_def writer_write_def neq_Nil_conv split: option.split)

declare write_loop.simps [simp del]

definition stdio_stop :: "stdio_transport \<Rightarrow> stdio_transport" where
  "stdio_stop s =
     (let s1 = s\<lparr>st_running := False\<rparr> in
      if st_writer s1 then write_loop (s1\<lparr>st_stopping := True\<rparr>) else s1)"

definition stdio_parse_failed :: "'h line_env \<Rightarrow> string \<Rightarrow> stdio_transport \<Rightarrow> stdio_transport \<times> exn option" where
  "stdio_parse_failed env err s =
     (case stdio_send_message env (make_error_response_null_id PARSE_ERROR ''Parse error'' None)
         (stdio_log (''JSON parse error: '' @ err) s) of
        (s', None) \<Rightarrow> (stdio_error ''JSON parse error'' s', None)
      | (s', Some e) \<Rightarrow> (s', Some e))"

definition stdio_caught :: "'h line_env \<Rightarrow> exn \<Rightarrow> stdio_transport \<Rightarrow> stdio_transport" where
  "stdio_caught env e s =
     stdio_error ''Error processing message'' (stdio_log (''Error processing message: '' @ exn_what (le_what env) e) s)"

definition stdio_handle_line :: "'h line_env \<Rightarrow> string \<Rightarrow> stdio_transport \<Rightarrow> 'h \<Rightarrow> (stdio_transport \<times> 'h) \<times> exn option" where
  "stdio_handle_line env =
     handle_line_with env (stdio_parse_failed env) (stdio_send_message env) (stdio_send_message env) (stdio_caught env)"

text \<open>A read that fails, and a read that completes with a line.\<close>

definition stdio_read_failed :: "stdio_transport \<Rightarrow> stdio_transport" where
  "stdio_read_failed s = s\<lparr>st_reading := False, st_running := False, st_disconnects := st_disconnects s + 1\<rparr>"

definition stdio_on_read :: "'h line_env \<Rightarrow> nat \<Rightarrow> stdio_transport \<times> 'h \<Rightarrow> stdio_transport \<times> 'h" where
  "stdio_on_read env n sh =
     (case sh of (s, h) \<Rightarrow>
      let line = take n (st_buf s); s1 = s\<lparr>st_reading := False, st_buf := drop n (st_buf s)\<rparr> in
      if length line > stdio_max_line then
        ((stdio_error ''Message too large, dropping connection'' s1)\<lparr>st_running := False, st_disconnects := st_disconnects s + 1\<rparr>, h)
      else
        let line' = strip_eol line in
        case (if line' \<noteq> [] then stdio_handle_line env line' s1 h else ((s1, h), None)) of
          ((s2, h2), None) \<Rightarrow> (if st_running s2 then stdio_do_read s2 else s2, h2)
        | ((s2, h2), Some e) \<Rightarrow> (s2\<lparr>st_escaped := Some e\<rparr>, h2))"

text \<open>\<open>win32_read_loop\<close>, the fallback for a console: the lines it posts to the event loop, for the lines
  \<open>std::getline\<close> gives it until the end of the input.\<close>

definition win32_read_loop :: "string list \<Rightarrow> stdio_transport \<Rightarrow> string list \<times> stdio_transport" where
  "win32_read_loop lines s =
     (if st_io s then filter (\<lambda>l. l \<noteq> [] \<and> length l \<le> stdio_max_line) lines else [],
      (fold (\<lambda>l t. if length l > stdio_max_line then stdio_error ''Message too large, discarded'' t else t) lines s)
        \<lparr>st_running := False, st_disconnects := st_disconnects s + (if st_io s then 1 else 0)\<rparr>)"


section \<open>Reading\<close>

text \<open>Handling a line leaves the buffer and the state of the reader alone.\<close>

lemma stdio_send_frame:
  "stdio_send_message env m (s\<lparr>st_buf := b\<rparr>) = map_prod (st_buf_update (\<lambda>_. b)) id (stdio_send_message env m s)"
  "stdio_send_message env m (s\<lparr>st_reading := r\<rparr>) = map_prod (st_reading_update (\<lambda>_. r)) id (stdio_send_message env m s)"
  by (simp_all add: stdio_send_message_def stdio_enqueue_def Let_def split: sum.split)

lemma stdio_failed_frame:
  "stdio_parse_failed env e (s\<lparr>st_buf := b\<rparr>) = map_prod (st_buf_update (\<lambda>_. b)) id (stdio_parse_failed env e s)"
  "stdio_parse_failed env e (s\<lparr>st_reading := r\<rparr>) = map_prod (st_reading_update (\<lambda>_. r)) id (stdio_parse_failed env e s)"
  by (simp_all add: stdio_parse_failed_def stdio_send_message_def stdio_enqueue_def stdio_log_def stdio_error_def Let_def
      split: sum.split)

lemma stdio_handle_frame:
  "stdio_handle_line env l (s\<lparr>st_buf := b\<rparr>) h = map_prod (map_prod (st_buf_update (\<lambda>_. b)) id) id (stdio_handle_line env l s h)"
  "stdio_handle_line env l (s\<lparr>st_reading := r\<rparr>) h = map_prod (map_prod (st_reading_update (\<lambda>_. r)) id) id (stdio_handle_line env l s h)"
  unfolding stdio_handle_line_def
  by (rule handle_line_frame; simp add: stdio_send_frame stdio_failed_frame stdio_caught_def stdio_log_def stdio_error_def)+

definition stdio_live :: "stdio_transport \<Rightarrow> bool" where
  "stdio_live s \<longleftrightarrow> st_reading s \<and> st_running s \<and> st_escaped s = None"

lemma stdio_handle_live: "stdio_live s \<Longrightarrow> stdio_live (fst (fst (stdio_handle_line env l s h)))"
  unfolding stdio_handle_line_def
  by (rule handle_line_keeps)
    (simp_all add: stdio_live_def stdio_parse_failed_def stdio_caught_def stdio_send_message_def stdio_enqueue_def stdio_log_def
      stdio_error_def Let_def split: sum.split)

lemma stdio_handle_tame: "tame_env env \<Longrightarrow> snd (stdio_handle_line env l s h) = None"
  unfolding stdio_handle_line_def
  by (intro handle_line_tame) (auto simp: tame_dump stdio_parse_failed_def stdio_send_message_def split: sum.split)

definition stdio_ready :: "'h line_env \<Rightarrow> stdio_transport \<times> 'h \<Rightarrow> bool" where
  "stdio_ready env sh \<longleftrightarrow> tame_env env \<and> stdio_live (fst sh)"

definition stdio_act :: "'h line_env \<Rightarrow> string \<Rightarrow> stdio_transport \<times> 'h \<Rightarrow> stdio_transport \<times> 'h" where
  "stdio_act env l sh = (if l = [] then sh else fst (stdio_handle_line env l (fst sh) (snd sh)))"

definition stdio_set_buf :: "string \<Rightarrow> stdio_transport \<times> 'h \<Rightarrow> stdio_transport \<times> 'h" where
  "stdio_set_buf b = map_prod (st_buf_update (\<lambda>_. b)) id"

definition stdio_fits :: "string \<Rightarrow> bool" where
  "stdio_fits l \<longleftrightarrow> length l < stdio_max_line"

lemma stdio_act_ready: "stdio_ready env sh \<Longrightarrow> stdio_ready env (stdio_act env l sh)"
  by (simp add: stdio_ready_def stdio_act_def stdio_handle_live)

lemma stdio_reads_line:
  assumes "stdio_ready env (s, h)" "stdio_fits l" "st_buf s = l @ lf # rest"
  shows "stdio_on_read env (Suc (length l)) (s, h) = stdio_act env (strip_eol l) (stdio_set_buf rest (s, h))"
proof -
  let ?s = "s\<lparr>st_buf := rest\<rparr>"
  have env: "tame_env env" and live: "stdio_live ?s" using assms(1) by (simp_all add: stdio_ready_def stdio_live_def)
  have r: "s\<lparr>st_reading := False, st_buf := rest\<rparr> = ?s\<lparr>st_reading := False\<rparr>" by simp
  obtain s' h' where handled: "stdio_handle_line env (strip_eol l) ?s h = ((s', h'), None)"
    using stdio_handle_tame [OF env] by (metis prod.collapse)
  then have "stdio_live s'" using stdio_handle_live [OF live, of env "strip_eol l" h] by simp
  then show ?thesis
    using assms(2,3) handled live
    by (simp add: stdio_on_read_def Let_def r stdio_handle_frame stdio_fits_def stdio_act_def stdio_set_buf_def
        stdio_do_read_def stdio_live_def)
qed

interpretation stdio: line_reader "\<lambda>sh. st_buf (fst sh)" stdio_set_buf "stdio_ready env" "stdio_on_read env" "stdio_act env" stdio_fits "\<lambda>_. True"
  for env
proof
  show "stdio_act env l (stdio_set_buf b sh) = stdio_set_buf b (stdio_act env l sh)" for l b and sh :: "stdio_transport \<times> 'a"
    by (cases sh) (simp add: stdio_act_def stdio_set_buf_def stdio_handle_frame)
  show "stdio_on_read env (Suc (length l)) sh = stdio_act env (strip_eol l) (stdio_set_buf rest sh)"
    if "stdio_ready env sh" "stdio_fits l" "st_buf (fst sh) = l @ lf # rest" for sh l rest
    using that by (cases sh) (simp add: stdio_reads_line)
qed (simp_all add: stdio_act_ready, auto simp: stdio_set_buf_def stdio_ready_def stdio_live_def stdio_fits_def)


text \<open>Lines are handled in order, however they arrive. A stream of lines no longer than the limit,
  cut into pieces in any way, makes the transport handle each line that is not empty once and in order,
  without its line end, and nothing else; nothing is left in the buffer and the transport keeps reading.
  (The message handler lets only standard exceptions out and messages can be written as text.)\<close>

theorem stdio_handles_lines_in_order:
  assumes "tame_env env" "st_reading s" "st_running s" "st_escaped s = None" "st_buf s = []"
    and "concat chunks = join_lines ls" "\<forall>l \<in> set ls. lf \<notin> set l \<and> length l < 4 * 1024 * 1024"
  shows "fold (arrive (\<lambda>sh. st_buf (fst sh)) stdio_set_buf (stdio_ready env) (stdio_on_read env)) chunks (s, h)
      = fold (\<lambda>l (s, h). fst (stdio_handle_line env l s h)) (filter (\<lambda>l. l \<noteq> []) (map strip_eol ls)) (s, h)
    \<and> stdio_ready env (fold (arrive (\<lambda>sh. st_buf (fst sh)) stdio_set_buf (stdio_ready env) (stdio_on_read env)) chunks (s, h))"
proof -
  have ready: "stdio_ready env (s, h)" using assms(1-4) by (simp add: stdio_ready_def stdio_live_def)
  have fits: "\<forall>l \<in> set ls. stdio_fits l \<and> lf \<notin> set l" using assms(7) by (simp add: stdio_fits_def stdio_max_line_def)
  have run: "fold (arrive (\<lambda>sh. st_buf (fst sh)) stdio_set_buf (stdio_ready env) (stdio_on_read env)) chunks (s, h)
      = stdio.acts env ls (s, h)"
    using ready assms(5,6) fits by (intro stdio.arrive_stream) (simp_all add: stdio_fits_def stdio_max_line_def)
  have "stdio.acts env ls sh = fold (\<lambda>l (s, h). fst (stdio_handle_line env l s h)) (filter (\<lambda>l. l \<noteq> []) (map strip_eol ls)) sh" for sh
    by (induction ls arbitrary: sh) (simp_all add: stdio_act_def case_prod_beta)
  with run stdio.acts_reading [OF ready fits] show ?thesis by simp
qed

theorem stdio_handles_lines_in_order_witness:
  "snd (fold (arrive (\<lambda>sh. st_buf (fst sh)) stdio_set_buf (stdio_ready ex_line_env) (stdio_on_read ex_line_env))
     [''a'', [lf, lf] @ ''b'', ''c'' @ [cr, lf]] (StdioTransport\<lparr>st_reading := True, st_running := True\<rparr>, [])) = [''a'', ''bc'']"
proof -
  let ?s = "StdioTransport\<lparr>st_reading := True, st_running := True\<rparr>"
  note env = ex_line_env_tame
  have s: "st_reading ?s" "st_running ?s" "st_escaped ?s = None" "st_buf ?s = []"
    by (simp_all add: StdioTransport_def)
  have chars: "lf \<notin> set ''a''" "lf \<notin> set (''bc'' @ [cr])" by (simp_all add: lf_def cr_def)
  have "strip_eol ''a'' = ''a''" "strip_eol [] = []" "strip_eol (''bc'' @ [cr]) = ''bc''"
    by (simp_all add: strip_eol_def strip_back_def lf_def cr_def)
  with stdio_handles_lines_in_order [OF env s, of "[''a'', [lf, lf] @ ''b'', ''c'' @ [cr, lf]]" "[''a'', [], ''bc'' @ [cr]]" "[]"] chars
  show ?thesis
    by (simp add: stdio_handle_line_def handle_line_with_def ex_line_env_def)
qed


section \<open>Writing\<close>

text \<open>The threads that send and the thread that writes; beside the state the lines that were accepted.\<close>

inductive stdio_step :: "stdio_transport \<times> string list \<Rightarrow> stdio_transport \<times> string list \<Rightarrow> bool" where
  send: "stdio_step (s, sent) (stdio_enqueue d s, if st_stopping s then sent else sent @ [d])"
| take_line: "st_inflight s = None \<Longrightarrow> stdio_step (s, sent) (writer_take s, sent)"
| write_line: "stdio_step (s, sent) (writer_write s, sent)"
| stopping: "stdio_step (s, sent) (s\<lparr>st_stopping := True\<rparr>, sent)"
| other: "st_queue t = st_queue s \<Longrightarrow> st_bytes t = st_bytes s \<Longrightarrow> st_inflight t = st_inflight s \<Longrightarrow> st_output t = st_output s \<Longrightarrow>
    stdio_step (s, sent) (t, sent)"

definition pending_lines :: "stdio_transport \<Rightarrow> string list" where
  "pending_lines s = (case st_inflight s of None \<Rightarrow> [] | Some d \<Rightarrow> [d]) @ st_queue s"

definition bytes_of :: "string list \<Rightarrow> nat" where
  "bytes_of ds = sum_list (map length ds)"

definition stdio_inv :: "stdio_transport \<times> string list \<Rightarrow> bool" where
  "stdio_inv ss \<longleftrightarrow> (case ss of (s, sent) \<Rightarrow> subseq (st_output s @ pending_lines s) sent
     \<and> (bytes_of sent \<le> 32 * 1024 * 1024 \<longrightarrow>
          st_output s @ pending_lines s = sent \<and> st_bytes s = word_of_nat (bytes_of (st_queue s))))"

lemma bytes_of_simps [simp]: "bytes_of [] = 0" "bytes_of (d # ds) = length d + bytes_of ds" "bytes_of (ds @ es) = bytes_of ds + bytes_of es"
  by (simp_all add: bytes_of_def)

lemma not_overflowing:
  assumes "n \<le> 32 * 1024 * 1024"
  shows "\<not> (word_of_nat n :: 64 word) > max_queued_write_bytes"
proof -
  have "unat (word_of_nat n :: 64 word) = n" using assms by (simp add: unat_of_nat)
  moreover have "unat max_queued_write_bytes = 32 * 1024 * 1024" by (simp add: max_queued_write_bytes_def)
  ultimately show ?thesis using assms by (simp add: word_less_nat_alt)
qed

lemma stdio_inv_send:
  assumes "stdio_inv (s, sent)" "\<not> st_stopping s"
  shows "stdio_inv (stdio_enqueue d s, sent @ [d])"
proof -
  let ?l = "st_output s @ (case st_inflight s of None \<Rightarrow> [] | Some d \<Rightarrow> [d])"
  have sub: "subseq (?l @ st_queue s) sent" using assms(1) by (simp add: stdio_inv_def pending_lines_def)
  have "subseq (tl (st_queue s)) (st_queue s)" by (cases "st_queue s") (simp_all add: list_emb_Cons)
  then have "subseq (?l @ tl (st_queue s)) (?l @ st_queue s)" by (simp only: subseq_append')
  then have "subseq (?l @ tl (st_queue s)) sent" using sub by (rule subseq_order.trans)
  with sub have "subseq (st_output (stdio_enqueue d s) @ pending_lines (stdio_enqueue d s)) (sent @ [d])"
    using assms(2) by (auto simp: stdio_enqueue_def Let_def pending_lines_def subseq_append simp flip: append_assoc)
  moreover have "st_output (stdio_enqueue d s) @ pending_lines (stdio_enqueue d s) = sent @ [d]
      \<and> st_bytes (stdio_enqueue d s) = word_of_nat (bytes_of (st_queue (stdio_enqueue d s)))"
    if "bytes_of (sent @ [d]) \<le> 32 * 1024 * 1024"
  proof -
    have s: "?l @ st_queue s = sent" "st_bytes s = word_of_nat (bytes_of (st_queue s))"
      using assms(1) that by (simp_all add: stdio_inv_def pending_lines_def)
    then have "bytes_of (st_queue s) \<le> bytes_of sent" by (metis le_add2 bytes_of_simps(3))
    with that have "\<not> (word_of_nat (bytes_of (st_queue s) + length d) :: 64 word) > max_queued_write_bytes"
      by (intro not_overflowing) simp
    then show ?thesis
      using s assms(2) by (simp add: stdio_enqueue_def Let_def data_size_def pending_lines_def)
  qed
  ultimately show ?thesis by (simp add: stdio_inv_def)
qed

lemma stdio_inv_step: "stdio_step x y \<Longrightarrow> stdio_inv x \<Longrightarrow> stdio_inv y"
proof (induction rule: stdio_step.induct)
  case (send s sent d)
  show ?case
  proof (cases "st_stopping s")
    case True
    with send show ?thesis by (simp add: stdio_enqueue_def)
  next
    case False
    with send show ?thesis by (simp add: stdio_inv_send)
  qed
next
  case (take_line s sent)
  then show ?case
    by (cases "st_queue s") (auto simp: stdio_inv_def pending_lines_def writer_take_def data_size_def)
next
  case (write_line s sent)
  then show ?case by (cases "st_inflight s") (auto simp: stdio_inv_def pending_lines_def writer_write_def)
qed (simp_all add: stdio_inv_def pending_lines_def)

interpretation stdio_writer: invariant_system "\<lambda>x. x = (StdioTransport, [])" stdio_step stdio_inv
  by unfold_locales (simp add: stdio_inv_def pending_lines_def StdioTransport_def, rule stdio_inv_step)

text \<open>C20: What reaches standard output is in order. In every reachable state what was written, followed by
  what is still to be written, is a subsequence of the accepted lines: lines are never reordered,
  repeated or mixed. As long as no more than 32 MiB have been accepted altogether, it is exactly the
  accepted lines: nothing is lost.\<close>

theorem stdio_output_in_order:
  assumes "stdio_step\<^sup>*\<^sup>* (StdioTransport, []) (s, sent)"
  shows "subseq (st_output s @ pending_lines s) sent
    \<and> (sum_list (map length sent) \<le> 32 * 1024 * 1024 \<longrightarrow> st_output s @ pending_lines s = sent)"
  using stdio_writer.reachable_inv [OF refl assms] by (simp add: stdio_inv_def bytes_of_def)

theorem stdio_output_in_order_witness:
  "st_output (writer_write (writer_take (stdio_enqueue ''b'' (stdio_enqueue ''a'' StdioTransport)))) = [''a'']"
proof -
  let ?s = "writer_write (writer_take (stdio_enqueue ''b'' (stdio_enqueue ''a'' StdioTransport)))"
  have a: "stdio_step (StdioTransport, []) (stdio_enqueue ''a'' StdioTransport, [''a''])"
    using stdio_step.send [of StdioTransport "[]" "''a''"] by (simp add: StdioTransport_def)
  have b: "stdio_step (stdio_enqueue ''a'' StdioTransport, [''a'']) (stdio_enqueue ''b'' (stdio_enqueue ''a'' StdioTransport), [''a'', ''b''])"
    using stdio_step.send [of "stdio_enqueue ''a'' StdioTransport" "[''a'']" "''b''"] by (simp add: StdioTransport_def stdio_enqueue_def Let_def)
  have queue: "st_queue (stdio_enqueue ''b'' (stdio_enqueue ''a'' StdioTransport)) = [''a'', ''b'']"
    "st_inflight (stdio_enqueue ''b'' (stdio_enqueue ''a'' StdioTransport)) = None"
    "st_output (stdio_enqueue ''b'' (stdio_enqueue ''a'' StdioTransport)) = []"
    by (simp_all add: StdioTransport_def stdio_enqueue_def Let_def data_size_def max_queued_write_bytes_def)
  have "stdio_step\<^sup>*\<^sup>* (StdioTransport, []) (?s, [''a'', ''b''])"
    by (rule rtranclp.rtrancl_into_rtrancl [OF rtranclp.rtrancl_into_rtrancl [OF rtranclp.rtrancl_into_rtrancl [OF r_into_rtranclp]]])
      (rule a b stdio_step.take_line stdio_step.write_line queue(2))+
  then have "st_output ?s @ pending_lines ?s = [''a'', ''b'']"
    by (rule stdio_output_in_order [THEN conjunct2, THEN mp]) simp
  moreover have "pending_lines ?s = [''b'']"
    by (simp add: pending_lines_def writer_write_def writer_take_def queue)
  ultimately show ?thesis by simp
qed

lemma write_loop_drains:
  "st_stopping s \<Longrightarrow> st_queue (write_loop s) = [] \<and> st_inflight (write_loop s) = None \<and> \<not> st_writer (write_loop s)
     \<and> st_output (write_loop s) = st_output s @ pending_lines s"
proof (induction s rule: write_loop.induct)
  case (1 s)
  show ?case
  proof (cases "st_queue s")
    case Nil
    then show ?thesis
      using 1 by (subst (1 2 3 4) write_loop.simps)
        (auto simp: writer_take_def writer_write_def pending_lines_def split: option.split)
  next
    case (Cons d q)
    have stop: "st_stopping (writer_take (writer_write s))" using "1.prems"
      by (simp add: writer_take_def writer_write_def split: option.split list.split)
    have "st_output (writer_take (writer_write s)) @ pending_lines (writer_take (writer_write s)) = st_output s @ pending_lines s"
      using Cons by (auto simp: writer_take_def writer_write_def pending_lines_def split: option.split)
    with 1(1) [OF _ stop] Cons show ?thesis by (subst (1 2 3 4) write_loop.simps) simp
  qed
qed

text \<open>Stopping drains the queue. \<open>stop\<close> ends the writer thread, and only after it has written every
  line that was queued or on its way.\<close>

theorem stdio_stop_drains:
  assumes "st_writer s"
  shows "st_output (stdio_stop s) = st_output s @ pending_lines s \<and> st_queue (stdio_stop s) = []
    \<and> st_inflight (stdio_stop s) = None \<and> \<not> st_writer (stdio_stop s)"
  using assms write_loop_drains [of "s\<lparr>st_running := False, st_stopping := True\<rparr>"]
  by (simp add: stdio_stop_def pending_lines_def)

theorem stdio_stop_drains_witness:
  "st_output (stdio_stop (stdio_enqueue ''a'' (StdioTransport\<lparr>st_writer := True\<rparr>))) = [''a'']"
proof -
  let ?s = "stdio_enqueue ''a'' (StdioTransport\<lparr>st_writer := True\<rparr>)"
  have "st_writer ?s" "st_output ?s = []" "pending_lines ?s = [''a'']"
    by (simp_all add: stdio_enqueue_def Let_def StdioTransport_def pending_lines_def)
  with stdio_stop_drains [of ?s] show ?thesis by simp
qed


section \<open>Dropped lines\<close>

text \<open>A queue that counts more bytes than the bound although it is empty: every line that is sent drops
  the one before it.\<close>

lemma enqueue_over:
  assumes "\<not> st_stopping s" "st_bytes s > max_queued_write_bytes" "unat (st_bytes s) + length d < 2 ^ 64"
  shows "st_queue (stdio_enqueue d s) = (if st_queue s = [] then [] else tl (st_queue s)) @ [d]"
    and "st_bytes (stdio_enqueue d s) > max_queued_write_bytes" "\<not> st_stopping (stdio_enqueue d s)"
    and "unat (st_bytes (stdio_enqueue d s)) = unat (st_bytes s) + length d"
proof -
  have u: "unat (st_bytes s + data_size d) = unat (st_bytes s) + length d"
    using assms(3) by (subst unat_add_lem [THEN iffD1]) (simp_all add: data_size_def unat_of_nat)
  then have over: "st_bytes s + data_size d > max_queued_write_bytes"
    using assms(2) by (simp add: word_less_nat_alt)
  show "st_queue (stdio_enqueue d s) = (if st_queue s = [] then [] else tl (st_queue s)) @ [d]"
    "st_bytes (stdio_enqueue d s) > max_queued_write_bytes" "\<not> st_stopping (stdio_enqueue d s)"
    "unat (st_bytes (stdio_enqueue d s)) = unat (st_bytes s) + length d"
    using over u assms(1) by (simp_all add: stdio_enqueue_def Let_def)
qed

lemma enqueue_over_many:
  assumes "\<not> st_stopping s" "st_bytes s > max_queued_write_bytes" "unat (st_bytes s) + bytes_of ds < 2 ^ 64"
    and "length (st_queue s) \<le> 1" "ds \<noteq> []"
  shows "st_queue (fold stdio_enqueue ds s) = [last ds]"
  using assms
proof (induction ds arbitrary: s)
  case (Cons d ds)
  have fits: "unat (st_bytes s) + length d < 2 ^ 64" using Cons.prems(3) by simp
  note d = enqueue_over [OF Cons.prems(1,2) fits]
  have "tl (st_queue s) = []" using Cons.prems(4) by (cases "st_queue s") simp_all
  then have q: "st_queue (stdio_enqueue d s) = [d]" using d(1) by simp
  show ?case
  proof (cases "ds = []")
    case True
    then show ?thesis using q by simp
  next
    case False
    then have "st_queue (fold stdio_enqueue ds (stdio_enqueue d s)) = [last ds]"
      using Cons.prems(3) d q by (intro Cons.IH) simp_all
    then show ?thesis using False by simp
  qed
qed simp

definition big_line :: string where
  "big_line = replicate (20 * 1024 * 1024) (CHR ''x'')"

lemma big_line_size: "data_size big_line = 20 * 1024 * 1024"
  by (simp add: data_size_def big_line_def)

text \<open>Two large lines of which the second pushes out the first; then the writer catches up.\<close>

lemma leak_round:
  assumes "st_queue s = []" "st_inflight s = None" "\<not> st_stopping s" "st_bytes s \<in> {0, 20 * 1024 * 1024}"
  shows "\<exists>t sent'. stdio_step\<^sup>*\<^sup>* (s, sent) (t, sent') \<and> st_queue t = [] \<and> st_inflight t = None \<and> \<not> st_stopping t
    \<and> st_bytes t = st_bytes s + 20 * 1024 * 1024"
proof -
  let ?s1 = "stdio_enqueue big_line s"
  let ?s2 = "stdio_enqueue big_line ?s1"
  let ?t = "writer_write (writer_take ?s2)"
  have 1: "st_queue ?s1 = [big_line]" "st_inflight ?s1 = None" "\<not> st_stopping ?s1" "st_bytes ?s1 = st_bytes s + 20 * 1024 * 1024"
    using assms by (simp_all add: stdio_enqueue_def Let_def big_line_size)
  have "st_bytes ?s1 + data_size big_line > max_queued_write_bytes"
    using assms(4) by (auto simp: 1(4) big_line_size max_queued_write_bytes_def)
  then have 2: "st_queue ?s2 = [big_line]" "st_inflight ?s2 = None" "\<not> st_stopping ?s2"
      "st_bytes ?s2 = st_bytes s + 20 * 1024 * 1024 + data_size big_line"
    using 1 by (simp_all add: stdio_enqueue_def [of big_line ?s1] Let_def)
  have "stdio_step (s, sent) (?s1, sent @ [big_line])" using stdio_step.send [of s sent big_line] assms(3) by simp
  moreover have "stdio_step (?s1, sent @ [big_line]) (?s2, sent @ [big_line, big_line])"
    using stdio_step.send [of ?s1 "sent @ [big_line]" big_line] 1(3) by simp
  moreover have "stdio_step (?s2, sent @ [big_line, big_line]) (writer_take ?s2, sent @ [big_line, big_line])"
    by (rule stdio_step.take_line) (rule 2(2))
  moreover have "stdio_step (writer_take ?s2, sent @ [big_line, big_line]) (?t, sent @ [big_line, big_line])"
    by (rule stdio_step.write_line)
  ultimately have "stdio_step\<^sup>*\<^sup>* (s, sent) (?t, sent @ [big_line, big_line])"
    by (meson rtranclp.rtrancl_into_rtrancl rtranclp.rtrancl_refl)
  moreover have "st_queue ?t = [] \<and> st_inflight ?t = None \<and> \<not> st_stopping ?t \<and> st_bytes ?t = st_bytes s + 20 * 1024 * 1024"
    using 2 by (simp add: writer_write_def writer_take_def)
  ultimately show ?thesis by blast
qed

text \<open>Dropped lines stay counted. The branch that drops the oldest line does not take its size off the
  byte count, so the count never comes down again: a reachable state has an empty queue that counts 40 MiB
  against the bound of 32 MiB, and from then on, however small the lines, every line that is sent while
  another one waits replaces it.\<close>

theorem stdio_dropped_bytes_stay_counted:
  "\<exists>s sent. stdio_step\<^sup>*\<^sup>* (StdioTransport, []) (s, sent) \<and> st_queue s = [] \<and> st_inflight s = None \<and> \<not> st_stopping s
    \<and> (\<forall>ds. ds \<noteq> [] \<longrightarrow> sum_list (map length ds) < 2 ^ 63 \<longrightarrow> st_queue (fold stdio_enqueue ds s) = [last ds])"
proof -
  obtain s1 sent1 where 1: "stdio_step\<^sup>*\<^sup>* (StdioTransport, []) (s1, sent1)" "st_queue s1 = []" "st_inflight s1 = None"
      "\<not> st_stopping s1" "st_bytes s1 = 20 * 1024 * 1024"
    using leak_round [of StdioTransport "[]"] by (auto simp: StdioTransport_def)
  obtain s2 sent2 where 2: "stdio_step\<^sup>*\<^sup>* (s1, sent1) (s2, sent2)" "st_queue s2 = []" "st_inflight s2 = None"
      "\<not> st_stopping s2" "st_bytes s2 = 40 * 1024 * 1024"
    using leak_round [of s1 sent1] 1 by auto
  have "st_bytes s2 > max_queued_write_bytes" "unat (st_bytes s2) = 40 * 1024 * 1024"
    by (simp_all add: 2(5) max_queued_write_bytes_def)
  then have "st_queue (fold stdio_enqueue ds s2) = [last ds]" if "ds \<noteq> []" "sum_list (map length ds) < 2 ^ 63" for ds
    using that 2 by (intro enqueue_over_many) (simp_all add: bytes_of_def)
  with 2 rtranclp_trans [OF 1(1) 2(1)] show ?thesis by blast
qed

theorem stdio_dropped_bytes_stay_counted_witness:
  "\<exists>s sent. stdio_step\<^sup>*\<^sup>* (StdioTransport, []) (s, sent) \<and> st_queue s = []
    \<and> st_queue (fold stdio_enqueue [''a'', ''b'', ''c''] s) = [''c'']"
proof -
  obtain s sent where run: "stdio_step\<^sup>*\<^sup>* (StdioTransport, []) (s, sent)" "st_queue s = []"
      and last: "\<forall>ds. ds \<noteq> [] \<longrightarrow> sum_list (map length ds) < 2 ^ 63 \<longrightarrow> st_queue (fold stdio_enqueue ds s) = [last ds]"
    using stdio_dropped_bytes_stay_counted by blast
  have "st_queue (fold stdio_enqueue [''a'', ''b'', ''c''] s) = [''c'']"
    using last [rule_format, of "[''a'', ''b'', ''c'']"] by simp
  with run show ?thesis by blast
qed

end
