(* ===== verification/Process.thy ===== *)
theory Process
  imports Ord_Map Protocol
begin

text \<open>
  Child processes (\<open>process.hpp\<close>, \<open>process.cpp\<close>). Of the variant for Windows: the quoting of the command
  line and the environment block. Of the variant for Unix: \<open>spawn\<close> as seen by the parent, waiting for the
  child, and ending it. What the operating system answers is a parameter: the file descriptors of
  \<open>pipe\<close>, the result of \<open>fork\<close>, the clock, and the answers of \<open>waitpid\<close>, one per call.
\<close>

section \<open>The command line on Windows\<close>

definition dquote :: char where "dquote = CHR 0x22"
definition backslash :: char where "backslash = CHR 0x5C"
definition nul :: char where "nul = CHR 0x00"

definition needs_quotes :: "char \<Rightarrow> bool" where
  "needs_quotes c \<longleftrightarrow> c = CHR '' '' \<or> c = CHR 0x09 \<or> c = CHR 0x0A \<or> c = CHR 0x0B \<or> c = dquote"

text \<open>The loop over the characters, with the number of backslashes read last.\<close>

fun quote_loop :: "nat \<Rightarrow> string \<Rightarrow> string" where
  "quote_loop n [] = replicate (n * 2) backslash @ [dquote]"
| "quote_loop n (c # cs) =
     (if c = backslash then quote_loop (Suc n) cs
      else if c = dquote then replicate (n * 2 + 1) backslash @ dquote # quote_loop 0 cs
      else replicate n backslash @ c # quote_loop 0 cs)"

definition quote_windows_arg :: "string \<Rightarrow> string" where
  "quote_windows_arg arg = (if arg \<noteq> [] \<and> \<not> list_ex needs_quotes arg then arg else dquote # quote_loop 0 arg)"

definition command_line :: "string \<Rightarrow> string list \<Rightarrow> string" where
  "command_line executable args = quote_windows_arg executable @ concat (map (\<lambda>a. '' '' @ quote_windows_arg a) args)"


section \<open>The environment block\<close>

text \<open>The strings of a block: each ends with a NUL, an empty one ends the block.\<close>

fun block_entries :: "string \<Rightarrow> string \<Rightarrow> string list" where
  "block_entries acc [] = []"
| "block_entries acc (c # cs) =
     (if c = nul then (if acc = [] then [] else acc # block_entries [] cs) else block_entries (acc @ [c]) cs)"

definition add_entry :: "string \<Rightarrow> (string \<times> string) list \<Rightarrow> (string \<times> string) list" where
  "add_entry e env =
     (case find_char (CHR ''='') e of None \<Rightarrow> env
      | Some n \<Rightarrow> if n > 0 then oset (take n e) (drop (n + 1) e) env else env)"

text \<open>The variables of the parent, or none when the block could not be had.\<close>

definition parent_environment :: "string option \<Rightarrow> (string \<times> string) list" where
  "parent_environment parent = (case parent of None \<Rightarrow> [] | Some p \<Rightarrow> fold add_entry (block_entries [] p) [])"

definition env_entry :: "string \<times> string \<Rightarrow> string" where
  "env_entry kv = fst kv @ ''='' @ snd kv"

definition build_environment :: "string option \<Rightarrow> (string \<times> string) list \<Rightarrow> string" where
  "build_environment parent overrides =
     (if overrides = [] then []
      else
        let env = fold (\<lambda>(k, v). oset k v) overrides (parent_environment parent)
        in concat (map (\<lambda>kv. env_entry kv @ [nul]) env) @ [nul])"


section \<open>The process on Unix\<close>

text \<open>An answer of \<open>waitpid\<close> with \<open>WNOHANG\<close>: the child's status, 0, or -1 with the status left alone.\<close>

datatype wait_answer = Reaped "int option" | StillRunning | WaitFailed

datatype sent_signal = SIGTERM | SIGKILL

text \<open>\<open>pr_open\<close> are the descriptors of pipe ends the parent has open, \<open>pr_signals\<close> what was sent to which
  process. \<open>Reaped (Some c)\<close> is a child that exited with code \<open>c\<close>, \<open>Reaped None\<close> one that a signal ended.\<close>

record process =
  pr_pid :: int
  pr_stdin :: int
  pr_stdout :: int
  pr_exit :: int
  pr_open :: "int list"
  pr_signals :: "(int \<times> sent_signal) list"
  pr_undefined :: bool

definition Process :: process where
  "Process = \<lparr>pr_pid = -1, pr_stdin = -1, pr_stdout = -1, pr_exit = -1, pr_open = [], pr_signals = [], pr_undefined = False\<rparr>"

text \<open>\<open>spawn\<close> in the parent; a pipe is its read end and its write end.\<close>

definition spawn :: "(int \<times> int) option \<Rightarrow> (int \<times> int) option \<Rightarrow> int \<Rightarrow> process \<Rightarrow> process \<times> exn option" where
  "spawn p1 p2 pid p =
     (case p1 of None \<Rightarrow> (p, Some (StdEx ''Process: pipe() failed''))
      | Some (r1, w1) \<Rightarrow>
          (case p2 of None \<Rightarrow> (p\<lparr>pr_open := pr_open p @ [r1, w1]\<rparr>, Some (StdEx ''Process: pipe() failed''))
           | Some (r2, w2) \<Rightarrow>
               if pid < 0 then (p\<lparr>pr_open := pr_open p @ [r1, w1, r2, w2]\<rparr>, Some (StdEx ''Process: fork() failed''))
               else (p\<lparr>pr_open := pr_open p @ [w1, r2], pr_pid := pid, pr_stdin := w1, pr_stdout := r2\<rparr>, None)))"

text \<open>The child between \<open>fork\<close> and \<open>execvp\<close>: the code it ends with when \<open>chdir\<close> fails or \<open>execvp\<close> returns, or
  the argument vector and the environment it runs with.\<close>

definition child_setup ::
    "(string \<Rightarrow> bool) \<Rightarrow> (string list \<Rightarrow> bool) \<Rightarrow> string \<Rightarrow> string list \<Rightarrow> (string \<times> string) list \<Rightarrow> string \<Rightarrow>
     (string \<rightharpoonup> string) \<Rightarrow> int + string list \<times> (string \<rightharpoonup> string)" where
  "child_setup chdir execvp executable args env working_dir environ =
     (if working_dir \<noteq> [] \<and> \<not> chdir working_dir then Inl 127
      else
        let environ' = fold (\<lambda>(k, v) m. m(k \<mapsto> v)) env environ; argv = executable # args
        in if execvp argv then Inr (argv, environ') else Inl 127)"

definition close_fd :: "int \<Rightarrow> process \<Rightarrow> process" where
  "close_fd fd p = p\<lparr>pr_open := remove1 fd (pr_open p)\<rparr>"

definition close_stdin :: "process \<Rightarrow> process" where
  "close_stdin p = (if pr_stdin p \<ge> 0 then (close_fd (pr_stdin p) p)\<lparr>pr_stdin := -1\<rparr> else p)"

text \<open>\<open>wait_for_exit\<close> from round \<open>i\<close>: \<open>clock i\<close> is the time at which the round begins, \<open>wait i\<close> its answer. When
  there is no child (-1), \<open>waitpid\<close> waits for any child of the process and its answer is not taken for the
  child's; its failure is, and a status is read that was never written. Without fuel the loop has not ended.\<close>

fun wait_for_exit :: "nat \<Rightarrow> (nat \<Rightarrow> int) \<Rightarrow> (nat \<Rightarrow> wait_answer) \<Rightarrow> int \<Rightarrow> nat \<Rightarrow> process \<Rightarrow> (bool \<times> process) option" where
  "wait_for_exit 0 clock wait deadline i p = None"
| "wait_for_exit (Suc fuel) clock wait deadline i p =
     (if clock i < deadline then
        (case wait i of
           Reaped status \<Rightarrow>
             if pr_pid p = -1 then wait_for_exit fuel clock wait deadline (Suc i) p
             else Some (True, p\<lparr>pr_exit := (case status of Some c \<Rightarrow> c | None \<Rightarrow> -1), pr_pid := -1\<rparr>)
         | WaitFailed \<Rightarrow>
             if pr_pid p = -1 then Some (True, p\<lparr>pr_undefined := True\<rparr>)
             else wait_for_exit fuel clock wait deadline (Suc i) p
         | StillRunning \<Rightarrow> wait_for_exit fuel clock wait deadline (Suc i) p)
      else Some (False, p))"

text \<open>The loop of \<open>terminate\<close>: the number of the poll that reaped the child, if one did.\<close>

definition grace_polls :: "(nat \<Rightarrow> wait_answer) \<Rightarrow> nat option" where
  "grace_polls wait = List.find (\<lambda>i. case wait i of Reaped _ \<Rightarrow> True | _ \<Rightarrow> False) [0..<50]"

definition terminate :: "(nat \<Rightarrow> wait_answer) \<Rightarrow> process \<Rightarrow> process" where
  "terminate wait p =
     (let p1 = (if pr_stdin p \<ge> 0 then (close_fd (pr_stdin p) p)\<lparr>pr_stdin := -1\<rparr> else p);
          p2 = (if pr_stdout p1 \<ge> 0 then (close_fd (pr_stdout p1) p1)\<lparr>pr_stdout := -1\<rparr> else p1)
      in if pr_pid p2 > 0 then
           let p3 = p2\<lparr>pr_signals := pr_signals p2 @ [(pr_pid p2, SIGTERM)]\<rparr> in
           case grace_polls wait of
             Some i \<Rightarrow> p3\<lparr>pr_pid := -1\<rparr>
           | None \<Rightarrow> p3\<lparr>pr_signals := pr_signals p3 @ [(pr_pid p3, SIGKILL)], pr_pid := -1\<rparr>
         else p2)"

end
