(* ===== verification/Process_Props.thy ===== *)
theory Process_Props
  imports Process
begin

text \<open>
  What the functions of \<open>process.cpp\<close> achieve: command lines are read back as they were meant, the
  environment block holds the parent's variables and the overrides, waiting is bounded, and ending a
  child leaves no descriptor and no process behind.
\<close>

section \<open>Command lines\<close>

text \<open>The documented rules by which a program for Windows reads its command line. The program name ends at the
  next quote when it begins with one, else at white space; backslashes have no special meaning in it.
  In the arguments, backslashes are literal unless they precede a quote: \<open>2n\<close> backslashes and a quote are
  \<open>n\<close> backslashes and a quote that opens or closes, \<open>2n + 1\<close> backslashes and a quote are \<open>n\<close> backslashes and a
  literal quote. White space outside quotes separates arguments.\<close>

definition blank :: "char \<Rightarrow> bool" where
  "blank c \<longleftrightarrow> c = CHR '' '' \<or> c = CHR 0x09"

definition read_program :: "string \<Rightarrow> string \<times> string" where
  "read_program s =
     (if s \<noteq> [] \<and> hd s = dquote then (takeWhile (\<lambda>c. c \<noteq> dquote) (tl s), tl (dropWhile (\<lambda>c. c \<noteq> dquote) (tl s)))
      else (takeWhile (\<lambda>c. \<not> blank c) s, dropWhile (\<lambda>c. \<not> blank c) s))"

text \<open>\<open>read_args inside started n acc s\<close>: the argument so far is \<open>acc\<close>, followed by \<open>n\<close> backslashes.\<close>

fun read_args :: "bool \<Rightarrow> bool \<Rightarrow> nat \<Rightarrow> string \<Rightarrow> string \<Rightarrow> string list" where
  "read_args inside started n acc [] = (if started then [acc @ replicate n backslash] else [])"
| "read_args inside started n acc (c # cs) =
     (if c = backslash then read_args inside True (Suc n) acc cs
      else if c = dquote then
        (if even n then read_args (\<not> inside) True 0 (acc @ replicate (n div 2) backslash) cs
         else read_args inside True 0 (acc @ replicate (n div 2) backslash @ [dquote]) cs)
      else if blank c \<and> \<not> inside then
        (if started then (acc @ replicate n backslash) # read_args False False 0 [] cs else read_args False False 0 [] cs)
      else read_args inside True 0 (acc @ replicate n backslash @ [c]) cs)"

definition read_command_line :: "string \<Rightarrow> string \<times> string list" where
  "read_command_line s = (case read_program s of (p, rest) \<Rightarrow> (p, read_args False False 0 [] rest))"

lemma backslash_facts [simp]: "backslash \<noteq> dquote" "dquote \<noteq> backslash" "\<not> blank backslash" "\<not> blank dquote" "blank (CHR '' '')"
  "\<not> needs_quotes backslash" "needs_quotes dquote"
  by (simp_all add: backslash_def dquote_def blank_def needs_quotes_def)

lemma read_backslashes:
  "0 < k \<or> started \<Longrightarrow> read_args inside started n acc (replicate k backslash @ s) = read_args inside True (n + k) acc s"
  by (induction k arbitrary: n started) (auto simp: not_less_eq_eq)

lemma read_quoted:
  "read_args True True 0 acc (quote_loop n arg @ s) = read_args False True 0 (acc @ replicate n backslash @ arg) s"
proof (induction n arg arbitrary: acc rule: quote_loop.induct)
  case (1 n)
  then show ?case by (simp add: read_backslashes)
next
  case (2 n c cs)
  consider "c = backslash" | "c = dquote" | "c \<noteq> backslash" "c \<noteq> dquote" by blast
  then show ?case
  proof cases
    case 1
    with 2(1) show ?thesis by (simp add: replicate_app_Cons_same)
  next
    case 2
    with "2.IH"(2) show ?thesis by (simp add: read_backslashes)
  next
    case 3
    with 2(3) show ?thesis by (simp add: read_backslashes)
  qed
qed

lemma read_plain:
  "\<not> list_ex needs_quotes arg \<Longrightarrow> started \<or> arg \<noteq> [] \<Longrightarrow>
   \<exists>acc' n'. acc' @ replicate n' backslash = acc @ replicate n backslash @ arg
     \<and> (\<forall>s. read_args False started n acc (arg @ s) = read_args False True n' acc' s)"
proof (induction arg arbitrary: acc n started)
  case Nil
  then show ?case by auto
next
  case (Cons c cs)
  show ?case
  proof (cases "c = backslash")
    case True
    with Cons.IH [of True acc "Suc n"] Cons.prems show ?thesis
      by (simp add: replicate_app_Cons_same)
  next
    case False
    with Cons.prems have c: "c \<noteq> backslash" "c \<noteq> dquote" "\<not> blank c" by (auto simp: needs_quotes_def blank_def)
    with Cons.IH [of True "acc @ replicate n backslash @ [c]" 0] Cons.prems show ?thesis by simp
  qed
qed

lemma read_arg:
  "\<exists>acc n. acc @ replicate n backslash = arg
     \<and> (\<forall>s. read_args False False 0 [] (quote_windows_arg arg @ s) = read_args False True n acc s)"
proof (cases "arg \<noteq> [] \<and> \<not> list_ex needs_quotes arg")
  case True
  then show ?thesis using read_plain [of arg False "[]" 0] by (auto simp: quote_windows_arg_def)
next
  case False
  then show ?thesis
    by (intro exI [of _ arg] exI [of _ 0]) (simp only: quote_windows_arg_def if_False append_Cons read_args.simps, simp add: read_quoted)
qed

lemma read_arguments: "read_args False False 0 [] (concat (map (\<lambda>a. '' '' @ quote_windows_arg a) args)) = args"
proof (induction args)
  case (Cons a args)
  obtain acc n where a: "acc @ replicate n backslash = a"
    "\<And>s. read_args False False 0 [] (quote_windows_arg a @ s) = read_args False True n acc s"
    using read_arg [of a] by blast
  have blank: "CHR '' '' \<noteq> backslash" "CHR '' '' \<noteq> dquote" by (simp_all add: backslash_def dquote_def)
  show ?case
  proof (cases args)
    case Nil
    then show ?thesis using a(2) [of "[]"] a(1) blank by simp
  next
    case (Cons b bs)
    then show ?thesis using Cons.IH a blank by simp
  qed
qed simp

lemma quote_loop_plain:
  "dquote \<notin> set e \<Longrightarrow> e \<noteq> [] \<Longrightarrow> last e \<noteq> backslash \<Longrightarrow> quote_loop n e = replicate n backslash @ e @ [dquote]"
proof (induction e arbitrary: n)
  case (Cons c e)
  show ?case
  proof (cases "e = []")
    case True
    with Cons.prems show ?thesis by auto
  next
    case False
    with Cons show ?thesis by (auto simp: replicate_app_Cons_same)
  qed
qed simp

lemma read_program_quoted:
  assumes "dquote \<notin> set exe" "exe = [] \<or> last exe \<noteq> backslash" "rest = [] \<or> blank (hd rest)"
  shows "read_program (quote_windows_arg exe @ rest) = (exe, rest)"
proof (cases "exe \<noteq> [] \<and> \<not> list_ex needs_quotes exe")
  case True
  then have "\<forall>c \<in> set exe. \<not> blank c" "hd exe \<noteq> dquote"
    using assms(1) by (auto simp: list_ex_iff needs_quotes_def blank_def)
  with True assms(3) show ?thesis
    by (cases rest) (simp_all add: read_program_def quote_windows_arg_def)
next
  case False
  have "quote_loop 0 exe = exe @ [dquote]"
    using assms(1,2) quote_loop_plain [of exe 0] by (cases "exe = []") auto
  moreover have "quote_windows_arg exe = dquote # quote_loop 0 exe"
    using False by (simp only: quote_windows_arg_def if_False)
  ultimately have "quote_windows_arg exe @ rest = dquote # exe @ dquote # rest" by simp
  moreover have "\<forall>c \<in> set exe. c \<noteq> dquote" using assms(1) by auto
  ultimately show ?thesis by (simp add: read_program_def takeWhile_tail dropWhile_append2)
qed

text \<open>C21: Arguments reach the child as they are. By the documented rules a program for Windows reads its command
  line as exactly the executable and the arguments it was started with, whatever blanks, quotes and
  backslashes the arguments hold, empty ones included. (The name of the executable holds no quote and
  does not end in a backslash.)\<close>

theorem command_line_roundtrip:
  assumes "dquote \<notin> set executable" "executable = [] \<or> last executable \<noteq> backslash"
  shows "read_command_line (command_line executable args) = (executable, args)"
proof -
  have "concat (map (\<lambda>a. '' '' @ quote_windows_arg a) args) = [] \<or> blank (hd (concat (map (\<lambda>a. '' '' @ quote_windows_arg a) args)))"
    by (cases args) (simp_all add: blank_def)
  from read_program_quoted [OF assms this] show ?thesis
    by (simp add: read_command_line_def command_line_def read_arguments del: append_Cons)
qed

theorem command_line_roundtrip_witness:
  "read_command_line (command_line ''C:/My Tools/server.exe'' [[], ''a b'', [backslash, dquote], ''c'' @ [backslash]])
     = (''C:/My Tools/server.exe'', [[], ''a b'', [backslash, dquote], ''c'' @ [backslash]])"
  by (rule command_line_roundtrip) (simp_all add: dquote_def backslash_def)


section \<open>The environment\<close>

definition env_name :: "string \<Rightarrow> bool" where
  "env_name k \<longleftrightarrow> k \<noteq> [] \<and> CHR ''='' \<notin> set k \<and> nul \<notin> set k"

definition good_env :: "(string \<times> string) list \<Rightarrow> bool" where
  "good_env m \<longleftrightarrow> osorted m \<and> (\<forall>(k, v) \<in> set m. env_name k \<and> nul \<notin> set v)"

lemma block_entries_run:
  "nul \<notin> set e \<Longrightarrow> acc @ e \<noteq> [] \<Longrightarrow> block_entries acc (e @ nul # s) = (acc @ e) # block_entries [] s"
  by (induction e arbitrary: acc) auto

lemma block_entries_nul: "e \<in> set (block_entries acc s) \<Longrightarrow> nul \<notin> set acc \<Longrightarrow> nul \<notin> set e"
  by (induction acc s rule: block_entries.induct) (auto split: if_splits)

lemma block_entries_block:
  "\<forall>(k, v) \<in> set m. env_name k \<and> nul \<notin> set v \<Longrightarrow>
   block_entries [] (concat (map (\<lambda>kv. env_entry kv @ [nul]) m) @ [nul]) = map env_entry m"
proof (induction m)
  case (Cons kv m)
  then have "nul \<notin> set (env_entry kv)" by (auto simp: env_entry_def env_name_def nul_def)
  then have "block_entries [] (env_entry kv @ nul # s) = env_entry kv # block_entries [] s" for s
    using block_entries_run [of "env_entry kv" "[]" s] by (simp add: env_entry_def)
  with Cons show ?case by simp
qed simp

lemma find_char_first: "c \<notin> set l \<Longrightarrow> find_char c (l @ c # s) = Some (length l)"
  by (induction l) auto

lemma add_env_entry: "env_name k \<Longrightarrow> add_entry (env_entry (k, v)) m = oset k v m"
  using find_char_first [of "CHR ''=''" k v] by (simp add: add_entry_def env_entry_def env_name_def)

lemma fold_add_entries:
  "\<forall>(k, v) \<in> set m. env_name k \<Longrightarrow> fold add_entry (map env_entry m) m0 = fold (\<lambda>(k, v). oset k v) m m0"
  by (induction m arbitrary: m0) (auto simp: add_env_entry)

lemma map_of_rev_osorted: "osorted m \<Longrightarrow> map_of (rev m) = map_of m"
  by (subst map_of_inject_set) (simp_all add: osorted_distinct rev_map [symmetric])

lemma good_env_oset: "good_env m \<Longrightarrow> env_name k \<Longrightarrow> nul \<notin> set v \<Longrightarrow> good_env (oset k v m)"
proof -
  assume m: "good_env m" "env_name k" "nul \<notin> set v"
  have "set (oset k v m) \<subseteq> insert (k, v) (set m)" by (induction m) (auto split: if_splits)
  with m show ?thesis by (auto simp: good_env_def osorted_oset)
qed

lemma good_env_fold:
  "good_env m \<Longrightarrow> \<forall>(k, v) \<in> set kvs. env_name k \<and> nul \<notin> set v \<Longrightarrow> good_env (fold (\<lambda>(k, v). oset k v) kvs m)"
  by (induction kvs arbitrary: m) (auto simp: good_env_oset)

lemma good_env_add: "good_env m \<Longrightarrow> nul \<notin> set e \<Longrightarrow> good_env (add_entry e m)"
proof (cases "find_char (CHR ''='') e")
  case (Some n)
  assume "good_env m" "nul \<notin> set e"
  moreover have "nul \<notin> set (take n e)" "nul \<notin> set (drop (n + 1) e)"
    using \<open>nul \<notin> set e\<close> by (meson in_set_takeD in_set_dropD)+
  moreover have "env_name (take n e)" if "n > 0"
    using that Some find_char_SomeD [OF Some] find_char_take_notin [OF Some] calculation(3)
    by (cases e) (auto simp: env_name_def)
  ultimately show ?thesis by (simp add: add_entry_def Some good_env_oset)
qed (simp add: add_entry_def)

lemma good_parent: "good_env (parent_environment parent)"
proof (cases parent)
  case (Some p)
  have "good_env (fold add_entry es m)" if "good_env m" "\<forall>e \<in> set es. nul \<notin> set e" for es m
    using that by (induction es arbitrary: m) (simp_all add: good_env_add)
  moreover have "\<forall>e \<in> set (block_entries [] p). nul \<notin> set e" using block_entries_nul [of _ "[]" p] by simp
  moreover have "good_env []" by (simp add: good_env_def)
  ultimately show ?thesis unfolding parent_environment_def Some option.case by blast
qed (simp add: parent_environment_def good_env_def)

lemma good_env_rebuild: "good_env m \<Longrightarrow> fold add_entry (map env_entry m) [] = m"
proof -
  assume m: "good_env m"
  then have "\<forall>(k, v) \<in> set m. env_name k" by (auto simp: good_env_def)
  then have "fold add_entry (map env_entry m) [] = omap_of_list m" by (simp only: fold_add_entries omap_of_list_def)
  also have "\<dots> = m"
    using m osorted_omap_of_list [of m] by (intro osorted_ext) (auto simp: good_env_def fun_eq_iff map_of_rev_osorted)
  finally show ?thesis .
qed

text \<open>The environment block is complete. Read the way the code reads the parent's block, the block that is built
  gives each override, and beside them exactly the variables of the parent that are not overridden. (Names
  of overrides are not empty and hold neither \<open>=\<close> nor NUL, their values hold no NUL.)\<close>

theorem environment_roundtrip:
  assumes "good_env overrides" "overrides \<noteq> []"
  shows "map_of (parent_environment (Some (build_environment parent overrides))) k
    = (case map_of overrides k of Some v \<Rightarrow> Some v | None \<Rightarrow> map_of (parent_environment parent) k)"
proof -
  let ?m = "fold (\<lambda>(k, v). oset k v) overrides (parent_environment parent)"
  have good: "good_env ?m" using assms(1) by (intro good_env_fold good_parent) (auto simp: good_env_def)
  then have "block_entries [] (build_environment parent overrides) = map env_entry ?m"
    using assms(2) by (simp add: build_environment_def Let_def block_entries_block good_env_def)
  with good have "parent_environment (Some (build_environment parent overrides)) = ?m"
    by (simp add: parent_environment_def good_env_rebuild)
  moreover have "map_of (rev overrides) = map_of overrides" using assms(1) by (simp add: good_env_def map_of_rev_osorted)
  ultimately show ?thesis by (simp only: map_of_fold_oset)
qed

theorem environment_roundtrip_witness:
  "map_of (parent_environment (Some (build_environment None [(''MODE'', ''test'')]))) ''MODE'' = Some ''test''"
  using environment_roundtrip [of "[(''MODE'', ''test'')]" None "''MODE''"]
  by (simp add: good_env_def osorted_Cons env_name_def nul_def)


section \<open>Waiting and ending\<close>

text \<open>Every round takes at least the 20 milliseconds it sleeps.\<close>

definition ticking :: "(nat \<Rightarrow> int) \<Rightarrow> bool" where
  "ticking clock \<longleftrightarrow> (\<forall>i. clock (Suc i) \<ge> clock i + 20)"

lemma wait_ends:
  assumes "ticking clock" "deadline < clock i + 20 * int fuel"
  shows "\<exists>b q. wait_for_exit (Suc fuel) clock wait deadline i p = Some (b, q) \<and> (\<not> b \<longrightarrow> q = p) \<and> (b \<longrightarrow> pr_pid q = -1)"
  using assms(2)
proof (induction fuel arbitrary: i)
  case (Suc fuel)
  have "clock (Suc i) \<ge> clock i + 20" using assms(1) by (simp add: ticking_def)
  then have "deadline < clock (Suc i) + 20 * int fuel" using Suc.prems by simp
  note IH = Suc.IH [OF this]
  show ?case
  proof (cases "clock i < deadline")
    case True
    then show ?thesis using IH by (cases "wait i") (auto simp del: wait_for_exit.simps(2) simp: wait_for_exit.simps(2) [of "Suc fuel"])
  qed auto
qed auto

lemma wait_reaps:
  assumes "\<And>k. i \<le> k \<Longrightarrow> k \<le> j \<Longrightarrow> clock k < deadline" "\<And>k. i \<le> k \<Longrightarrow> k < j \<Longrightarrow> wait k = StillRunning"
    and "wait j = Reaped status" "i \<le> j" "j - i < fuel" "pr_pid p \<noteq> -1"
  shows "wait_for_exit fuel clock wait deadline i p
    = Some (True, p\<lparr>pr_exit := (case status of Some c \<Rightarrow> c | None \<Rightarrow> -1), pr_pid := -1\<rparr>)"
  using assms
proof (induction fuel arbitrary: i)
  case (Suc fuel)
  show ?case
  proof (cases "i = j")
    case True
    with Suc.prems show ?thesis by simp
  next
    case False
    then have "wait i = StillRunning" "clock i < deadline" using Suc.prems(1,2,4) by simp_all
    with Suc.IH [of "Suc i"] Suc.prems False show ?thesis by simp
  qed
qed simp

text \<open>Waiting for the child is bounded. A call with a timeout of \<open>t\<close> milliseconds returns after at most \<open>t div 20 + 2\<close>
  rounds. A child that ends while the call waits is reaped, with its exit code, or -1 when a signal ended
  it; a call that gives up leaves the process as it was.\<close>

theorem wait_for_exit_is_bounded:
  assumes "ticking clock" "0 \<le> t" "0 < pr_pid p"
  shows "\<exists>b q. wait_for_exit (nat t div 20 + 2) clock wait (clock 0 + t) 0 p = Some (b, q) \<and> (\<not> b \<longrightarrow> q = p)
    \<and> (\<forall>j status. (\<forall>k \<le> j. clock k < clock 0 + t) \<and> (\<forall>k < j. wait k = StillRunning) \<and> wait j = Reaped status \<longrightarrow>
         b \<and> q = p\<lparr>pr_exit := (case status of Some c \<Rightarrow> c | None \<Rightarrow> -1), pr_pid := -1\<rparr>)"
proof -
  have clock: "clock 0 + 20 * int j \<le> clock j" for j
    using assms(1) by (induction j) (auto simp: ticking_def intro: order_trans [rotated])
  obtain n where n: "t = int n" using assms(2) by (rule nonneg_int_cases)
  have "n < 20 * Suc (n div 20)" using dividend_less_times_div [of 20 n] by simp
  then have fuel: "clock 0 + t < clock 0 + 20 * int (Suc (nat t div 20))" unfolding n nat_int by linarith
  obtain b q where r: "wait_for_exit (nat t div 20 + 2) clock wait (clock 0 + t) 0 p = Some (b, q)" "\<not> b \<longrightarrow> q = p"
    using wait_ends [OF assms(1) fuel, of wait p] by auto
  have "b \<and> q = p\<lparr>pr_exit := (case status of Some c \<Rightarrow> c | None \<Rightarrow> -1), pr_pid := -1\<rparr>"
    if j: "\<forall>k \<le> j. clock k < clock 0 + t" "\<forall>k < j. wait k = StillRunning" "wait j = Reaped status" for j status
  proof -
    have "20 * int j < t" using clock [of j] spec [OF j(1), of j] by simp
    then have "20 * j < n" by (simp add: n)
    then have "j < nat t div 20 + 2" by (simp add: n)
    then have "wait_for_exit (nat t div 20 + 2) clock wait (clock 0 + t) 0 p
        = Some (True, p\<lparr>pr_exit := (case status of Some c \<Rightarrow> c | None \<Rightarrow> -1), pr_pid := -1\<rparr>)"
      using j assms(3) by (intro wait_reaps [where j = j]) simp_all
    with r(1) show ?thesis by simp
  qed
  with r show ?thesis by blast
qed

theorem wait_for_exit_is_bounded_witness:
  "\<exists>b q. wait_for_exit 102 (\<lambda>i. 25 * int i) (\<lambda>i. if i < 3 then StillRunning else Reaped (Some 7)) 2000 0 (Process\<lparr>pr_pid := 4711\<rparr>)
     = Some (b, q) \<and> b \<and> pr_exit q = 7"
proof -
  have "ticking (\<lambda>i. 25 * int i)" by (simp add: ticking_def)
  from wait_for_exit_is_bounded [OF this, of 2000 "Process\<lparr>pr_pid := 4711\<rparr>" "\<lambda>i. if i < 3 then StillRunning else Reaped (Some 7)"]
  obtain b q where r: "wait_for_exit 102 (\<lambda>i. 25 * int i) (\<lambda>i. if i < 3 then StillRunning else Reaped (Some 7)) 2000 0
      (Process\<lparr>pr_pid := 4711\<rparr>) = Some (b, q)"
    and reaped: "\<And>j status. (\<forall>k \<le> j. 25 * int k < 2000) \<and> (\<forall>k < j. (if k < 3 then StillRunning else Reaped (Some 7)) = StillRunning)
      \<and> (if j < 3 then StillRunning else Reaped (Some 7)) = Reaped status \<longrightarrow>
        b \<and> q = (Process\<lparr>pr_pid := 4711\<rparr>)\<lparr>pr_exit := (case status of Some c \<Rightarrow> c | None \<Rightarrow> -1), pr_pid := -1\<rparr>"
    by auto
  from reaped [of 3 "Some 7"] have "b \<and> pr_exit q = 7" by auto
  with r show ?thesis by blast
qed

lemma grace_polls_None: "grace_polls wait = None \<longleftrightarrow> (\<forall>i < 50. \<forall>st. wait i \<noteq> Reaped st)"
  by (auto simp: grace_polls_def find_None_iff split: wait_answer.split)

text \<open>Ending the child leaves nothing behind. After \<open>terminate\<close> both descriptors are closed and there is no child
  any more; a child gets SIGTERM, and SIGKILL exactly when none of the fifty polls that follow reaped
  it; and a second call does nothing.\<close>

theorem terminate_ends_child:
  "let q = terminate wait p in
     pr_stdin q < 0 \<and> pr_stdout q < 0 \<and> \<not> pr_pid q > 0
     \<and> pr_signals q = pr_signals p @ (if pr_pid p > 0 then (pr_pid p, SIGTERM)
         # (if \<exists>i < 50. \<exists>st. wait i = Reaped st then [] else [(pr_pid p, SIGKILL)]) else [])
     \<and> terminate wait' q = q"
proof (cases "grace_polls wait")
  case None
  then have "(\<exists>i < 50. \<exists>st. wait i = Reaped st) = False" by (simp add: grace_polls_None)
  with None show ?thesis by (simp only: terminate_def Let_def if_False) (simp add: close_fd_def)
next
  case (Some n)
  then have "\<exists>i < 50. \<exists>st. wait i = Reaped st" using grace_polls_None [of wait] by auto
  with Some show ?thesis by (simp add: terminate_def Let_def close_fd_def)
qed

text \<open>Descriptors: a process that was spawned and is ended has closed what it opened; when \<open>fork\<close> or the second
  \<open>pipe\<close> fails nobody closes the descriptors any more.\<close>

lemma spawn_terminate_closes:
  assumes "w1 \<ge> 0" "r2 \<ge> 0" "pid \<ge> 0"
  shows "pr_open (terminate wait (fst (spawn (Some (r1, w1)) (Some (r2, w2)) pid Process))) = []"
  using assms by (simp add: spawn_def Process_def terminate_def Let_def close_fd_def split: option.split)

lemma failed_spawn_leaks:
  "pid < 0 \<Longrightarrow> pr_open (terminate wait (fst (spawn (Some (r1, w1)) (Some (r2, w2)) pid Process))) = [r1, w1, r2, w2]"
  "pr_open (terminate wait (fst (spawn (Some (r1, w1)) None pid Process))) = [r1, w1]"
  by (simp_all add: spawn_def Process_def terminate_def Let_def)

end
