(* ===== verification/Stdio_Client.thy ===== *)
theory Stdio_Client
  imports Line_Client Process_Props
begin

text \<open>
  The standard I/O transport of the client (\<open>stdio_client_transport.hpp\<close>, \<open>stdio_client_transport.cpp\<close>), in the
  variant for Unix: it spawns the server as a child process and talks to it through duplicates of
  the pipe descriptors that the \<open>Process\<close> keeps.
\<close>

section \<open>State and operations\<close>

record stdio_client =
  sc_line :: line_client
  sc_process :: process
  sc_exit :: int

definition StdioClientTransport :: stdio_client where
  "StdioClientTransport = \<lparr>sc_line = new_line_client, sc_process = Process, sc_exit = -1\<rparr>"

definition stdio_client_do_read :: "line_client \<Rightarrow> line_client" where
  "stdio_client_do_read = client_do_read ''stdio inbound line exceeds size cap, dropping connection''"

text \<open>\<open>connect\<close>; the pipes and the result of \<open>fork\<close> are those \<open>spawn\<close> gets.\<close>

definition stdio_client_connect ::
    "(int \<times> int) option \<Rightarrow> (int \<times> int) option \<Rightarrow> int \<Rightarrow> stdio_client \<Rightarrow> stdio_client \<times> exn option" where
  "stdio_client_connect p1 p2 pid s =
     (let l = sc_line s in
      if lc_connected l then (s, None)
      else if \<not> lc_io l then
        (s\<lparr>sc_line := client_error ''StdioClientTransport: no io_context'' (l\<lparr>lc_connected := False\<rparr>)\<rparr>, None)
      else case spawn p1 p2 pid (sc_process s) of
        (p, Some e) \<Rightarrow> (s\<lparr>sc_process := p, sc_line := l\<lparr>lc_connected := False, lc_stopping := False\<rparr>\<rparr>, Some e)
      | (p, None) \<Rightarrow>
          (s\<lparr>sc_process := p, sc_line := stdio_client_do_read (l\<lparr>lc_connected := True, lc_stopping := False, lc_stream := Some True,
             lc_queue := Some (make_write_queue 0 DropNewest)\<rparr>)\<rparr>, None))"

text \<open>The error callback of the write queue.\<close>

definition stdio_client_write_failed :: "line_client \<Rightarrow> line_client" where
  "stdio_client_write_failed s = client_read_failed (client_error ''stdio write error'' s)"

text \<open>The child sees the end of its input when no descriptor of the write end is open: neither the one the
  \<open>Process\<close> keeps nor its duplicate.\<close>

definition stdin_at_eof :: "stdio_client \<Rightarrow> bool" where
  "stdin_at_eof s \<longleftrightarrow> lc_stream (sc_line s) \<noteq> Some True \<and> pr_stdin (sc_process s) \<notin> set (pr_open (sc_process s))"

text \<open>\<open>disconnect\<close>. \<open>wait eof i\<close> is what \<open>waitpid\<close> answers in round \<open>i\<close> of \<open>wait_for_exit\<close>, which may depend on whether
  the child has seen the end of its input; \<open>grace\<close> are the answers in \<open>terminate\<close>. The result is \<open>None\<close> only if
  \<open>wait_for_exit\<close> has not ended after 102 rounds (\<open>stdio_client_disconnect_ends\<close>).\<close>

definition stdio_client_disconnect ::
    "(nat \<Rightarrow> int) \<Rightarrow> (bool \<Rightarrow> nat \<Rightarrow> wait_answer) \<Rightarrow> (nat \<Rightarrow> wait_answer) \<Rightarrow> stdio_client \<Rightarrow> stdio_client option" where
  "stdio_client_disconnect clock wait grace s =
     (let l = sc_line s; was_connected = lc_connected l;
          s1 = s\<lparr>sc_line := close_streams (l\<lparr>lc_stopping := True, lc_connected := False\<rparr>)\<rparr>;
          waited =
            (if \<not> was_connected then Some s1
             else case wait_for_exit 102 clock (wait (stdin_at_eof s1)) (clock 0 + 2000) 0 (sc_process s1) of
               None \<Rightarrow> None
             | Some (False, p) \<Rightarrow> Some (s1\<lparr>sc_process := terminate grace p, sc_exit := -1\<rparr>)
             | Some (True, p) \<Rightarrow> Some (s1\<lparr>sc_process := p, sc_exit := pr_exit p\<rparr>))
      in map_option (\<lambda>s2.
           if was_connected \<or> has_handler (sc_line s2) then
             s2\<lparr>sc_line := (if lc_io (sc_line s2) \<and> has_handler (sc_line s2) then client_post ClearHandlers (sc_line s2)
                else clear_handlers (sc_line s2))\<rparr>
           else s2) waited)"

definition stdio_client_send :: "'h line_env \<Rightarrow> json \<Rightarrow> line_client \<Rightarrow> line_client \<times> exn option" where
  "stdio_client_send = client_send ''stdio message too large''"

definition stdio_client_caught :: "string \<Rightarrow> line_client \<Rightarrow> line_client" where
  "stdio_client_caught err s = client_error ''stdio parse error'' (client_log (''stdio parse error: '' @ err) s)"

definition stdio_client_handle_line :: "'h line_env \<Rightarrow> string \<Rightarrow> line_client \<Rightarrow> 'h \<Rightarrow> (line_client \<times> 'h) \<times> exn option" where
  "stdio_client_handle_line env line s h =
     (if length line > client_max_line then ((client_error ''stdio line too large, discarded'' s, h), None)
      else client_handle_line (stdio_client_send env) stdio_client_caught env line s h)"

definition stdio_client_on_read :: "'h line_env \<Rightarrow> nat \<Rightarrow> line_client \<times> 'h \<Rightarrow> line_client \<times> 'h" where
  "stdio_client_on_read env =
     client_on_read ''stdio inbound line exceeds size cap, dropping connection'' (stdio_client_handle_line env)"


section \<open>The contract of a reader\<close>

lemma stdio_client_handle_frame:
  assumes "\<And>m s. client_error m (g s) = g (client_error m s)" "\<And>m s. client_log m (g s) = g (client_log m s)"
    and "\<And>m s. stdio_client_send env m (g s) = map_prod g id (stdio_client_send env m s)"
    and "\<And>s. lc_on_message (g s) = lc_on_message s"
  shows "stdio_client_handle_line env l (g s) h = map_prod (map_prod g id) id (stdio_client_handle_line env l s h)"
proof -
  have "client_handle_line (stdio_client_send env) stdio_client_caught env l (g s) h
      = map_prod (map_prod g id) id (client_handle_line (stdio_client_send env) stdio_client_caught env l s h)"
    by (rule client_handle_frame [where g = g]) (simp_all add: stdio_client_caught_def assms)
  then show ?thesis by (simp add: stdio_client_handle_line_def assms(1))
qed

interpretation stdio_client: client_reader "''stdio inbound line exceeds size cap, dropping connection''"
    "stdio_client_handle_line env" "tame_env env"
  for env
proof
  show "stdio_client_handle_line env l (s\<lparr>lc_buf := b\<rparr>) h
      = map_prod (map_prod (lc_buf_update (\<lambda>_. b)) id) id (stdio_client_handle_line env l s h)" for l s b h
    by (rule stdio_client_handle_frame [where g = "lc_buf_update (\<lambda>_. b)"]) (simp_all add: stdio_client_send_def client_send_frame)
  show "stdio_client_handle_line env l (s\<lparr>lc_reading := r\<rparr>) h
      = map_prod (map_prod (lc_reading_update (\<lambda>_. r)) id) id (stdio_client_handle_line env l s h)" for l s r h
    by (rule stdio_client_handle_frame [where g = "lc_reading_update (\<lambda>_. r)"]) (simp_all add: stdio_client_send_def client_send_frame)
  show "client_live (fst (fst (stdio_client_handle_line env l s h)))" if "client_live s" for s l h
  proof -
    have "client_live (fst (fst (client_handle_line (stdio_client_send env) stdio_client_caught env l s h)))"
      using that by (intro client_handle_keeps [where P = client_live])
        (simp_all add: stdio_client_caught_def stdio_client_send_def client_send_live)
    then show ?thesis using that by (simp add: stdio_client_handle_line_def)
  qed
  show "snd (stdio_client_handle_line env l s h) = None" if "tame_env env" for l s h
    using that client_handle_tame [of env "stdio_client_send env" stdio_client_caught l s h]
    by (simp add: stdio_client_handle_line_def stdio_client_send_def client_send_no_throw)
qed


section \<open>The child\<close>

lemma wait_two_seconds:
  assumes "ticking clock"
  shows "\<exists>b q. wait_for_exit 102 clock wait (clock 0 + 2000) 0 p = Some (b, q)"
proof -
  have "(102 :: nat) = Suc 101" by simp
  then show ?thesis using wait_ends [OF assms, of "clock 0 + 2000" 0 101 wait p] by (simp only:) auto
qed

lemma stdio_client_disconnect_ends:
  assumes "ticking clock"
  shows "\<exists>t. stdio_client_disconnect clock wait grace s = Some t"
proof -
  define s1 where "s1 = s\<lparr>sc_line := close_streams ((sc_line s)\<lparr>lc_stopping := True, lc_connected := False\<rparr>)\<rparr>"
  obtain b q where "wait_for_exit 102 clock (wait (stdin_at_eof s1)) (clock 0 + 2000) 0 (sc_process s1) = Some (b, q)"
    using wait_two_seconds [OF assms] by blast
  then show ?thesis by (cases b) (simp_all add: stdio_client_disconnect_def Let_def s1_def [symmetric])
qed

text \<open>A child that runs on is given up.\<close>

lemma wait_gives_up:
  assumes "ticking clock" "\<And>i. wait i = StillRunning"
  shows "wait_for_exit 102 clock wait (clock 0 + 2000) 0 p = Some (False, p)"
proof -
  have "wait_for_exit n clock wait d i p = None \<or> wait_for_exit n clock wait d i p = Some (False, p)" for n d i
    by (induction n arbitrary: i) (simp_all add: assms(2))
  then show ?thesis using wait_two_seconds [OF assms(1)] by (metis option.distinct(1))
qed

text \<open>Disconnecting does not close the child's input. On Unix \<open>disconnect\<close> closes duplicates; the descriptor
  that \<open>Process\<close> keeps stays open. A child that ends with code 0 as soon as its input ends, and only
  then, never sees that end: it is waited for in vain, gets SIGTERM, and its exit code is reported as -1.\<close>

theorem disconnect_keeps_stdin_open:
  assumes "ticking clock" "wait True 0 = Reaped (Some 0)" "\<And>i. wait False i = StillRunning"
    and "w1 \<ge> 0" "0 < pid" "s = fst (stdio_client_connect (Some (r1, w1)) (Some (r2, w2)) pid
      (StdioClientTransport\<lparr>sc_line := new_line_client\<lparr>lc_io := True, lc_on_message := True\<rparr>\<rparr>))"
  shows "\<exists>t. stdio_client_disconnect clock wait grace s = Some t \<and> lc_connected (sc_line s)
    \<and> sc_exit t = -1 \<and> (pid, SIGTERM) \<in> set (pr_signals (sc_process t))"
proof -
  let ?p = "Process\<lparr>pr_open := [w1, r2], pr_pid := pid, pr_stdin := w1, pr_stdout := r2\<rparr>"
  have s: "sc_process s = ?p" "lc_connected (sc_line s)"
    using assms(5) by (simp_all add: assms(6) stdio_client_connect_def StdioClientTransport_def new_line_client_def Let_def spawn_def
        Process_def stdio_client_do_read_def client_do_read_def client_max_line_def)
  define s1 where "s1 = s\<lparr>sc_line := close_streams ((sc_line s)\<lparr>lc_stopping := True, lc_connected := False\<rparr>)\<rparr>"
  have "\<not> stdin_at_eof s1" by (simp add: stdin_at_eof_def s1_def s)
  with wait_gives_up [OF assms(1), of "wait False" ?p] assms(3)
  have "wait_for_exit 102 clock (wait (stdin_at_eof s1)) (clock 0 + 2000) 0 (sc_process s1) = Some (False, ?p)"
    by (simp add: s1_def s)
  moreover have "(pid, SIGTERM) \<in> set (pr_signals (terminate grace ?p))"
    using assms(5) by (simp add: terminate_def Let_def close_fd_def split: option.split)
  ultimately show ?thesis
    by (simp add: stdio_client_disconnect_def Let_def s1_def [symmetric] s(2))
qed

theorem disconnect_keeps_stdin_open_witness:
  "\<exists>t. stdio_client_disconnect (\<lambda>i. 20 * int i) (\<lambda>eof i. if eof then Reaped (Some 0) else StillRunning) (\<lambda>i. Reaped None)
     (fst (stdio_client_connect (Some (5, 6)) (Some (7, 8)) 4711
        (StdioClientTransport\<lparr>sc_line := new_line_client\<lparr>lc_io := True, lc_on_message := True\<rparr>\<rparr>))) = Some t \<and> sc_exit t = -1"
proof -
  let ?wait = "\<lambda>eof (i :: nat). if eof then Reaped (Some 0) else StillRunning"
  have clock: "ticking (\<lambda>i. 20 * int i)" by (simp add: ticking_def)
  have "?wait True 0 = Reaped (Some 0)" "\<And>i. ?wait False i = StillRunning" by simp_all
  from disconnect_keeps_stdin_open [OF clock this, of 6 4711] show ?thesis by fastforce
qed

text \<open>When the child ends by itself, the failing read clears \<open>connected_\<close>: \<open>disconnect\<close> then does not wait for
  it, its exit code stays -1 and nobody reaps it.\<close>

lemma ended_child_is_not_reaped:
  assumes "\<not> lc_connected (sc_line s)" "stdio_client_disconnect clock wait grace s = Some t"
  shows "sc_exit t = sc_exit s \<and> sc_process t = sc_process s"
  using assms by (auto simp: stdio_client_disconnect_def Let_def split: if_splits)

end
