(* ===== verification/Pipe.thy ===== *)
theory Pipe
  imports Transport Line_Framing Write_Queue
begin

text \<open>
  The local pipe transport of the server (\<open>local_pipe_transport.hpp\<close>, \<open>local_pipe_transport.cpp\<close>):
  connections over a Unix socket, each with its buffer and its write queue, and the list of active
  connections. Connections live in a store and are named by their addresses. The variant of the code for
  Unix is modelled. The error handler is set, as the server does before it starts a transport.
\<close>

section \<open>State\<close>

datatype pipe_mode = SingleClient | MultiClient

record pipe_config =
  lp_name :: string
  lp_mode :: pipe_mode
  lp_max_line :: nat
  lp_queue_max :: "64 word"
  lp_queue_policy :: queue_overflow_policy

definition LocalPipeConfig :: pipe_config where
  "LocalPipeConfig = \<lparr>lp_name = ''cppmcp'', lp_mode = SingleClient, lp_max_line = 4 * 1024 * 1024, lp_queue_max = 0,
     lp_queue_policy = DropNewest\<rparr>"

record pipe_connection =
  pc_buf :: string
  pc_reading :: bool
  pc_open :: bool
  pc_queue :: write_queue
  pc_active :: bool
  pc_id :: int
  pc_max_line :: nat

record pipe_transport =
  lp_config :: pipe_config
  lp_io :: bool
  lp_running :: bool
  lp_accepting :: bool
  lp_next_id :: int
  lp_conns :: "pipe_connection list"
  lp_active :: "nat list"
  lp_written :: "(nat \<times> string) list"
  lp_errors :: "string list"
  lp_log :: "string list"
  lp_undefined :: bool
  lp_escaped :: "exn option"

definition LocalPipeTransport :: "pipe_config \<Rightarrow> pipe_transport" where
  "LocalPipeTransport cfg = \<lparr>lp_config = cfg, lp_io = False, lp_running = False, lp_accepting = False, lp_next_id = 0,
     lp_conns = [], lp_active = [], lp_written = [], lp_errors = [], lp_log = [], lp_undefined = False, lp_escaped = None\<rparr>"

definition pipe_error :: "string \<Rightarrow> pipe_transport \<Rightarrow> pipe_transport" where
  "pipe_error e s = s\<lparr>lp_errors := lp_errors s @ [e]\<rparr>"

definition pipe_log :: "string \<Rightarrow> pipe_transport \<Rightarrow> pipe_transport" where
  "pipe_log m s = s\<lparr>lp_log := lp_log s @ [m]\<rparr>"

definition upd_pipe :: "nat \<Rightarrow> (pipe_connection \<Rightarrow> pipe_connection) \<Rightarrow> pipe_transport \<Rightarrow> pipe_transport" where
  "upd_pipe a f s = s\<lparr>lp_conns := (lp_conns s)[a := f (lp_conns s ! a)]\<rparr>"


section \<open>A connection\<close>

definition unregister_connection :: "nat \<Rightarrow> pipe_transport \<Rightarrow> pipe_transport" where
  "unregister_connection a s =
     (upd_pipe a (\<lambda>c. c\<lparr>pc_active := False\<rparr>) s)\<lparr>lp_active := removeAll a (lp_active s)\<rparr>"

definition pipe_on_error :: "nat \<Rightarrow> pipe_transport \<Rightarrow> pipe_transport" where
  "pipe_on_error a s =
     (if pc_active (lp_conns s ! a) then unregister_connection a (upd_pipe a (\<lambda>c. c\<lparr>pc_active := False\<rparr>) s) else s)"

text \<open>\<open>enqueue_write\<close> adds the newline. When the queue closes, the connection fails; \<open>locked\<close> tells that the
  caller holds the lock that \<open>unregister_connection\<close> takes.\<close>

definition pipe_enqueue :: "bool \<Rightarrow> nat \<Rightarrow> string \<Rightarrow> pipe_transport \<Rightarrow> pipe_transport" where
  "pipe_enqueue locked a data s =
     (case enqueue (data @ [lf]) (pc_queue (lp_conns s ! a)) of
        (Refused, q) \<Rightarrow> s
      | (Stored arm, q) \<Rightarrow> (upd_pipe a (\<lambda>c. c\<lparr>pc_queue := q\<rparr>) s)\<lparr>lp_written := lp_written s @ [(a, data @ [lf])]\<rparr>
      | (OverflowClose, q) \<Rightarrow>
          let s1 = upd_pipe a (\<lambda>c. c\<lparr>pc_queue := q\<rparr>) s in
          if locked \<and> pc_active (lp_conns s ! a) then s1\<lparr>lp_undefined := True\<rparr> else pipe_on_error a s1)"

definition pipe_respond :: "'h line_env \<Rightarrow> nat \<Rightarrow> json \<Rightarrow> pipe_transport \<Rightarrow> pipe_transport \<times> exn option" where
  "pipe_respond env a m s = (case le_dump env m of Inl e \<Rightarrow> (s, Some e) | Inr t \<Rightarrow> (pipe_enqueue False a t s, None))"

text \<open>\<open>LocalPipeTransport::send_message\<close>: to every active connection.\<close>

definition pipe_send_message :: "'h line_env \<Rightarrow> json \<Rightarrow> pipe_transport \<Rightarrow> pipe_transport \<times> exn option" where
  "pipe_send_message env m s =
     (case le_dump env m of Inl e \<Rightarrow> (s, Some e)
      | Inr t \<Rightarrow> (fold (\<lambda>a s. if pc_active (lp_conns s ! a) then pipe_enqueue True a t s else s) (lp_active s) s, None))"

definition pipe_parse_failed :: "'h line_env \<Rightarrow> nat \<Rightarrow> string \<Rightarrow> pipe_transport \<Rightarrow> pipe_transport \<times> exn option" where
  "pipe_parse_failed env a err s =
     (case pipe_respond env a (make_error_response_null_id PARSE_ERROR ''Parse error'' None)
         (pipe_log (''JSON parse error: '' @ err) s) of
        (s', None) \<Rightarrow> (pipe_error ''JSON parse error'' s', None)
      | (s', Some e) \<Rightarrow> (s', Some e))"

definition pipe_caught :: "'h line_env \<Rightarrow> exn \<Rightarrow> pipe_transport \<Rightarrow> pipe_transport" where
  "pipe_caught env e s =
     pipe_error ''Error processing message'' (pipe_log (''Error processing message: '' @ exn_what (le_what env) e) s)"

definition pipe_handle_line ::
    "'h line_env \<Rightarrow> nat \<Rightarrow> string \<Rightarrow> pipe_transport \<Rightarrow> 'h \<Rightarrow> (pipe_transport \<times> 'h) \<times> exn option" where
  "pipe_handle_line env a =
     handle_line_with env (pipe_parse_failed env a) (pipe_respond env a) (pipe_send_message env) (pipe_caught env)"

definition pipe_start_read :: "nat \<Rightarrow> pipe_transport \<Rightarrow> pipe_transport" where
  "pipe_start_read a = upd_pipe a (\<lambda>c. c\<lparr>pc_reading := True\<rparr>)"

text \<open>\<open>handle_read_completion\<close>: with an error, and with a line.\<close>

definition pipe_read_failed :: "nat \<Rightarrow> pipe_transport \<Rightarrow> pipe_transport" where
  "pipe_read_failed a s =
     pipe_on_error a (pipe_log (''[cppmcp] Client #'' @ int_to_dec (pc_id (lp_conns s ! a)) @ '' disconnected'')
       (upd_pipe a (\<lambda>c. c\<lparr>pc_reading := False\<rparr>) s))"

definition handle_read_completion ::
    "'h line_env \<Rightarrow> nat \<Rightarrow> nat \<Rightarrow> pipe_transport \<times> 'h \<Rightarrow> pipe_transport \<times> 'h" where
  "handle_read_completion env a n sh =
     (case sh of (s, h) \<Rightarrow>
      let c = lp_conns s ! a; line = take n (pc_buf c);
          s1 = upd_pipe a (\<lambda>c. c\<lparr>pc_buf := drop n (pc_buf c), pc_reading := False\<rparr>) s in
      if length line > pc_max_line c then
        (case pipe_respond env a (make_error_response_null_id PARSE_ERROR ''Message too large'' None) s1 of
           (s2, None) \<Rightarrow> (pipe_on_error a s2, h)
         | (s2, Some e) \<Rightarrow> (s2\<lparr>lp_escaped := Some e\<rparr>, h))
      else
        let line' = strip_eol line in
        case (if line' \<noteq> [] then pipe_handle_line env a line' s1 h else ((s1, h), None)) of
          ((s2, h2), None) \<Rightarrow> (if pc_active (lp_conns s2 ! a) then pipe_start_read a s2 else s2, h2)
        | ((s2, h2), Some e) \<Rightarrow> (s2\<lparr>lp_escaped := Some e\<rparr>, h2))"


section \<open>The transport\<close>

definition resolve_pipe_path :: "pipe_config \<Rightarrow> string" where
  "resolve_pipe_path cfg = ''/tmp/'' @ lp_name cfg @ ''.sock''"

text \<open>\<open>start\<close>; \<open>failed\<close> is the message of the first of \<open>open\<close>, \<open>bind\<close>, \<open>listen\<close> that fails.\<close>

definition pipe_start :: "string option \<Rightarrow> pipe_transport \<Rightarrow> pipe_transport" where
  "pipe_start failed s =
     (if \<not> lp_io s then pipe_error ''LocalPipeTransport: no io_context set'' s
      else case failed of
        Some e \<Rightarrow> (pipe_error e s)\<lparr>lp_running := False\<rparr>
      | None \<Rightarrow>
          pipe_log (''[cppmcp] Local pipe server starting on '' @ resolve_pipe_path (lp_config s)
            @ '' (mode: '' @ (if lp_mode (lp_config s) = SingleClient then ''SingleClient'' else ''MultiClient'') @ '', asio async)'')
            (s\<lparr>lp_running := True, lp_accepting := True\<rparr>))"

text \<open>The completion of \<open>async_accept\<close>; \<open>ok\<close> tells that it gave a socket.\<close>

definition pipe_accepted :: "bool \<Rightarrow> pipe_transport \<Rightarrow> pipe_transport" where
  "pipe_accepted ok s =
     (let s0 = s\<lparr>lp_accepting := False\<rparr> in
      if \<not> ok then s0\<lparr>lp_accepting := lp_running s\<rparr>
      else if \<not> lp_running s then s0
      else
        let a = length (lp_conns s); cfg = lp_config s;
            c = \<lparr>pc_buf = [], pc_reading = False, pc_open = True, pc_queue = make_write_queue (lp_queue_max cfg) (lp_queue_policy cfg),
                 pc_active = True, pc_id = lp_next_id s, pc_max_line = lp_max_line cfg\<rparr>;
            s1 = s0\<lparr>lp_next_id := lp_next_id s + 1, lp_conns := lp_conns s @ [c], lp_active := lp_active s @ [a]\<rparr>;
            s2 = pipe_log (''[cppmcp] Client #'' @ int_to_dec (lp_next_id s) @ '' connected'') (pipe_start_read a s1)
        in if lp_mode cfg = SingleClient then s2 else s2\<lparr>lp_accepting := lp_running s2\<rparr>)"

definition pipe_stop :: "pipe_transport \<Rightarrow> pipe_transport" where
  "pipe_stop s =
     (if \<not> lp_running s then s
      else
        (fold (\<lambda>a. upd_pipe a (\<lambda>c. c\<lparr>pc_active := False, pc_queue := wq_shutdown (pc_queue c), pc_open := False\<rparr>)) (lp_active s) s)
          \<lparr>lp_running := False, lp_active := [], lp_accepting := False\<rparr>)"

end
