(* ===== verification/Pipe_Props.thy ===== *)
theory Pipe_Props
  imports Pipe
begin

text \<open>
  The properties of the local pipe transport: its reader keeps the contract of a line reader; the list of
  active connections is right in every reachable state; the responses to a connection stay on it; and an
  overflow during a broadcast takes a lock twice.
\<close>

section \<open>Reading\<close>

text \<open>The fields of a connection that only its reader uses.\<close>

definition reader_only :: "(pipe_connection \<Rightarrow> pipe_connection) \<Rightarrow> bool" where
  "reader_only f \<longleftrightarrow> (\<forall>c q x. pc_queue (f c) = pc_queue c \<and> pc_active (f c) = pc_active c \<and> pc_max_line (f c) = pc_max_line c
     \<and> f (c\<lparr>pc_queue := q\<rparr>) = (f c)\<lparr>pc_queue := q\<rparr> \<and> f (c\<lparr>pc_active := x\<rparr>) = (f c)\<lparr>pc_active := x\<rparr>)"

lemma reader_only_fields [simp]:
  "reader_only (pc_buf_update g)" "reader_only (pc_reading_update r)"
  "reader_only (\<lambda>c. c\<lparr>pc_buf := drop n (pc_buf c), pc_reading := False\<rparr>)"
  by (simp_all add: reader_only_def)

lemma upd_pipe_commute:
  "(\<And>c. f (g c) = g (f c)) \<Longrightarrow> upd_pipe a f (upd_pipe b g s) = upd_pipe b g (upd_pipe a f s)"
  by (cases "a = b"; cases "a < length (lp_conns s)"; cases "b < length (lp_conns s)")
    (simp_all add: upd_pipe_def list_update_swap list_update_beyond)

lemma upd_pipe_fields [simp]:
  "upd_pipe a f (s\<lparr>lp_written := w\<rparr>) = (upd_pipe a f s)\<lparr>lp_written := w\<rparr>"
  "upd_pipe a f (s\<lparr>lp_undefined := u\<rparr>) = (upd_pipe a f s)\<lparr>lp_undefined := u\<rparr>"
  "upd_pipe a f (s\<lparr>lp_active := ks\<rparr>) = (upd_pipe a f s)\<lparr>lp_active := ks\<rparr>"
  "lp_written (upd_pipe a f s) = lp_written s" "lp_active (upd_pipe a f s) = lp_active s"
  "lp_escaped (upd_pipe a f s) = lp_escaped s" "length (lp_conns (upd_pipe a f s)) = length (lp_conns s)"
  "lp_log (upd_pipe a f s) = lp_log s" "lp_errors (upd_pipe a f s) = lp_errors s"
  by (simp_all add: upd_pipe_def)

lemma conn_keeps:
  "reader_only f \<Longrightarrow> pc_queue (lp_conns (upd_pipe a f s) ! b) = pc_queue (lp_conns s ! b)"
  "reader_only f \<Longrightarrow> pc_active (lp_conns (upd_pipe a f s) ! b) = pc_active (lp_conns s ! b)"
  by (cases "a < length (lp_conns s)"; cases "a = b"; simp add: upd_pipe_def reader_only_def list_update_beyond)+

lemma pipe_on_error_frame:
  assumes "reader_only f"
  shows "pipe_on_error b (upd_pipe a f s) = upd_pipe a f (pipe_on_error b s)"
proof -
  have "f (c\<lparr>pc_active := x\<rparr>) = (f c)\<lparr>pc_active := x\<rparr>" for c x using assms by (simp add: reader_only_def)
  then have "upd_pipe b (\<lambda>c. c\<lparr>pc_active := False\<rparr>) (upd_pipe a f s) = upd_pipe a f (upd_pipe b (\<lambda>c. c\<lparr>pc_active := False\<rparr>) s)" for s
    by (intro upd_pipe_commute) simp
  then show ?thesis
    by (simp add: pipe_on_error_def unregister_connection_def conn_keeps [OF assms])
qed

lemma pipe_enqueue_frame:
  assumes "reader_only f"
  shows "pipe_enqueue l b d (upd_pipe a f s) = upd_pipe a f (pipe_enqueue l b d s)"
proof -
  have "f (c\<lparr>pc_queue := x\<rparr>) = (f c)\<lparr>pc_queue := x\<rparr>" for c x using assms by (simp add: reader_only_def)
  then have "upd_pipe b (\<lambda>c. c\<lparr>pc_queue := q\<rparr>) (upd_pipe a f s) = upd_pipe a f (upd_pipe b (\<lambda>c. c\<lparr>pc_queue := q\<rparr>) s)" for q s
    by (intro upd_pipe_commute) simp
  then show ?thesis
    by (simp add: pipe_enqueue_def Let_def conn_keeps [OF assms] pipe_on_error_frame [OF assms]
        split: prod.split enqueue_outcome.split)
qed

lemma pipe_respond_frame:
  "reader_only f \<Longrightarrow> pipe_respond env b m (upd_pipe a f s) = map_prod (upd_pipe a f) id (pipe_respond env b m s)"
  by (simp add: pipe_respond_def pipe_enqueue_frame split: sum.split)

lemma pipe_send_frame:
  assumes "reader_only f"
  shows "pipe_send_message env m (upd_pipe a f s) = map_prod (upd_pipe a f) id (pipe_send_message env m s)"
proof -
  let ?g = "\<lambda>t b s. if pc_active (lp_conns s ! b) then pipe_enqueue True b t s else s"
  have "fold (?g t) ks (upd_pipe a f s) = upd_pipe a f (fold (?g t) ks s)" for t ks s
    by (induction ks arbitrary: s) (simp_all add: conn_keeps [OF assms] pipe_enqueue_frame [OF assms])
  then show ?thesis by (simp add: pipe_send_message_def split: sum.split)
qed

lemma pipe_notes_frame:
  "pipe_error e (upd_pipe a f s) = upd_pipe a f (pipe_error e s)" "pipe_log e (upd_pipe a f s) = upd_pipe a f (pipe_log e s)"
  by (simp_all add: pipe_error_def pipe_log_def upd_pipe_def)

lemma pipe_handle_frame:
  "reader_only f \<Longrightarrow>
   pipe_handle_line env b l (upd_pipe a f s) h = map_prod (map_prod (upd_pipe a f) id) id (pipe_handle_line env b l s h)"
  unfolding pipe_handle_line_def
  by (rule handle_line_frame)
    (simp_all add: pipe_respond_frame pipe_send_frame pipe_caught_def pipe_parse_failed_def pipe_notes_frame case_prod_beta
      split: option.split)

text \<open>A connection that reads, with a queue that drops what does not fit.\<close>

definition pipe_live :: "nat \<Rightarrow> nat \<Rightarrow> pipe_transport \<Rightarrow> bool" where
  "pipe_live a mx s \<longleftrightarrow> a < length (lp_conns s) \<and> lp_escaped s = None
     \<and> pc_reading (lp_conns s ! a) \<and> pc_active (lp_conns s ! a) \<and> wq_policy (pc_queue (lp_conns s ! a)) = DropNewest
     \<and> pc_max_line (lp_conns s ! a) = mx"

lemma pipe_live_fields [simp]:
  "pipe_live a mx (s\<lparr>lp_written := w\<rparr>) = pipe_live a mx s" "pipe_live a mx (s\<lparr>lp_undefined := u\<rparr>) = pipe_live a mx s"
  "pipe_live a mx (s\<lparr>lp_active := ks\<rparr>) = pipe_live a mx s"
  "pipe_live a mx (pipe_error e s) = pipe_live a mx s" "pipe_live a mx (pipe_log e s) = pipe_live a mx s"
  by (simp_all add: pipe_live_def pipe_error_def pipe_log_def)

lemma pipe_live_other: "b \<noteq> a \<Longrightarrow> pipe_live a mx (upd_pipe b f s) = pipe_live a mx s"
  by (simp add: pipe_live_def upd_pipe_def)

lemma pipe_live_on_error: "b \<noteq> a \<Longrightarrow> pipe_live a mx s \<Longrightarrow> pipe_live a mx (pipe_on_error b s)"
  by (simp add: pipe_on_error_def unregister_connection_def pipe_live_other)

lemma pipe_live_enqueue:
  assumes "pipe_live a mx s"
  shows "pipe_live a mx (pipe_enqueue l b d s)"
proof (cases "b = a")
  case True
  then show ?thesis
    using assms by (auto simp: pipe_enqueue_def enqueue_def pipe_live_def Let_def upd_pipe_def)
next
  case False
  then show ?thesis
    using assms
    by (simp add: pipe_enqueue_def Let_def pipe_live_other pipe_live_on_error split: prod.split enqueue_outcome.split)
qed

lemma pipe_live_respond: "pipe_live a mx s \<Longrightarrow> pipe_live a mx (fst (pipe_respond env b m s))"
  by (simp add: pipe_respond_def pipe_live_enqueue split: sum.split)

lemma pipe_live_send: "pipe_live a mx s \<Longrightarrow> pipe_live a mx (fst (pipe_send_message env m s))"
proof -
  assume s: "pipe_live a mx s"
  have "pipe_live a mx (fold (\<lambda>b s. if pc_active (lp_conns s ! b) then pipe_enqueue True b t s else s) ks s)" for t ks
    using s by (induction ks arbitrary: s) (simp_all add: pipe_live_enqueue)
  then show ?thesis using s by (simp add: pipe_send_message_def split: sum.split)
qed

lemma pipe_handle_live: "pipe_live a mx s \<Longrightarrow> pipe_live a mx (fst (fst (pipe_handle_line env b l s h)))"
  unfolding pipe_handle_line_def
  by (rule handle_line_keeps)
    (auto simp: pipe_live_respond pipe_live_send pipe_caught_def pipe_parse_failed_def pipe_live_enqueue pipe_respond_def
      split: sum.split)

lemma pipe_handle_tame: "tame_env env \<Longrightarrow> snd (pipe_handle_line env a l s h) = None"
  unfolding pipe_handle_line_def
  by (intro handle_line_tame) (auto simp: tame_dump pipe_parse_failed_def pipe_respond_def split: sum.split)

definition pipe_ready :: "'h line_env \<Rightarrow> nat \<Rightarrow> nat \<Rightarrow> pipe_transport \<times> 'h \<Rightarrow> bool" where
  "pipe_ready env a mx sh \<longleftrightarrow> tame_env env \<and> pipe_live a mx (fst sh)"

definition pipe_act :: "'h line_env \<Rightarrow> nat \<Rightarrow> string \<Rightarrow> pipe_transport \<times> 'h \<Rightarrow> pipe_transport \<times> 'h" where
  "pipe_act env a l sh = (if l = [] then sh else fst (pipe_handle_line env a l (fst sh) (snd sh)))"

definition pipe_set_buf :: "nat \<Rightarrow> string \<Rightarrow> pipe_transport \<times> 'h \<Rightarrow> pipe_transport \<times> 'h" where
  "pipe_set_buf a b = map_prod (upd_pipe a (pc_buf_update (\<lambda>_. b))) id"

lemma pipe_live_buf: "pipe_live a mx (upd_pipe a (pc_buf_update g) s) = pipe_live a mx s"
  by (auto simp: pipe_live_def upd_pipe_def)

lemma pipe_act_ready: "pipe_ready env a mx sh \<Longrightarrow> pipe_ready env a mx (pipe_act env a l sh)"
  by (simp add: pipe_ready_def pipe_act_def pipe_handle_live)

lemma upd_pipe_compose: "upd_pipe a f (upd_pipe a g s) = upd_pipe a (\<lambda>c. f (g c)) s"
  by (cases "a < length (lp_conns s)") (simp_all add: upd_pipe_def list_update_beyond)

lemma upd_pipe_id: "(\<And>c. c = lp_conns s ! a \<Longrightarrow> f c = c) \<Longrightarrow> upd_pipe a f s = s"
  by (simp add: upd_pipe_def)

lemma pipe_reads_line:
  assumes "pipe_ready env a mx (s, h)" "length l < mx" "pc_buf (lp_conns s ! a) = l @ lf # rest"
  shows "handle_read_completion env a (Suc (length l)) (s, h) = pipe_act env a (strip_eol l) (pipe_set_buf a rest (s, h))"
proof -
  let ?s = "upd_pipe a (pc_buf_update (\<lambda>_. rest)) s"
  let ?off = "pc_reading_update (\<lambda>_. False)"
  have env: "tame_env env" and live: "pipe_live a mx s" and live': "pipe_live a mx ?s"
    using assms(1) by (simp_all add: pipe_ready_def pipe_live_buf)
  have mx: "pc_max_line (lp_conns s ! a) = mx" using live by (simp add: pipe_live_def Let_def)
  have r: "upd_pipe a (\<lambda>c. c\<lparr>pc_buf := drop (Suc (length l)) (pc_buf c), pc_reading := False\<rparr>) s = upd_pipe a ?off ?s"
    using assms(3) by (simp add: upd_pipe_compose) (simp add: upd_pipe_def)
  obtain s' h' where handled: "pipe_handle_line env a (strip_eol l) ?s h = ((s', h'), None)"
    using pipe_handle_tame [OF env] by (metis prod.collapse)
  have live'': "pipe_live a mx s'" using pipe_handle_live [OF live', of env a "strip_eol l" h] handled by simp
  have again: "(if pc_active (lp_conns (upd_pipe a ?off t) ! a) then pipe_start_read a (upd_pipe a ?off t) else upd_pipe a ?off t) = t"
    if "pipe_live a mx t" for t
    using that unfolding pipe_start_read_def upd_pipe_compose
    by (auto simp: upd_pipe_id conn_keeps pipe_live_def Let_def)
  show ?thesis
    using assms(2,3) mx
    by (simp add: handle_read_completion_def Let_def r pipe_handle_frame handled again [OF live''] again [OF live']
        pipe_act_def pipe_set_buf_def)
qed

interpretation pipe: line_reader "\<lambda>sh. pc_buf (lp_conns (fst sh) ! a)" "pipe_set_buf a" "pipe_ready env a mx"
    "handle_read_completion env a" "pipe_act env a" "\<lambda>l. length l < mx" "\<lambda>_. True"
  for env a mx
proof
  show "pipe_act env a l (pipe_set_buf a b sh) = pipe_set_buf a b (pipe_act env a l sh)" for l b and sh :: "pipe_transport \<times> 'a"
    by (cases sh) (simp add: pipe_act_def pipe_set_buf_def pipe_handle_frame)
  show "handle_read_completion env a (Suc (length l)) sh = pipe_act env a (strip_eol l) (pipe_set_buf a rest sh)"
    if "pipe_ready env a mx sh" "length l < mx" "pc_buf (lp_conns (fst sh) ! a) = l @ lf # rest" for sh l rest
    using that by (cases sh) (simp add: pipe_reads_line)
  show "pc_buf (lp_conns (fst (pipe_set_buf a b sh)) ! a) = b" if "pipe_ready env a mx sh" for b and sh :: "pipe_transport \<times> 'a"
    using that by (cases sh) (simp add: pipe_set_buf_def pipe_ready_def pipe_live_def upd_pipe_def)
  show "pipe_set_buf a b (pipe_set_buf a c sh) = pipe_set_buf a b sh" for b c and sh :: "pipe_transport \<times> 'a"
    by (cases sh) (simp add: pipe_set_buf_def upd_pipe_compose)
  show "pipe_set_buf a (pc_buf (lp_conns (fst sh) ! a)) sh = sh" for sh :: "pipe_transport \<times> 'a"
    by (cases sh) (simp add: pipe_set_buf_def upd_pipe_id)
qed (simp_all add: pipe_act_ready, simp add: pipe_set_buf_def pipe_ready_def pipe_live_buf)


section \<open>The active connections\<close>

text \<open>Everything that happens to the transport: it starts and stops, a socket is accepted, bytes arrive,
  a read completes or fails, a write fails or makes progress, a deferred response arrives, the server sends.\<close>

inductive pipe_step :: "'h line_env set \<Rightarrow> pipe_transport \<times> 'h \<Rightarrow> pipe_transport \<times> 'h \<Rightarrow> bool" for envs where
  start: "\<not> lp_running s \<Longrightarrow> pipe_step envs (s, h) (pipe_start failed s, h)"
| accept: "lp_accepting s \<Longrightarrow> pipe_step envs (s, h) (pipe_accepted ok s, h)"
| bytes: "pipe_step envs (s, h) (upd_pipe a (\<lambda>c. c\<lparr>pc_buf := pc_buf c @ chunk\<rparr>) s, h)"
| line: "env \<in> envs \<Longrightarrow> pc_reading (lp_conns s ! a) \<Longrightarrow> read_until (pc_buf (lp_conns s ! a)) = Some n \<Longrightarrow>
    pipe_step envs (s, h) (handle_read_completion env a n (s, h))"
| read_error: "pipe_step envs (s, h) (pipe_read_failed a s, h)"
| write_error: "pipe_step envs (s, h) (pipe_on_error a s, h)"
| written: "pipe_step envs (s, h) (upd_pipe a (\<lambda>c. c\<lparr>pc_queue := q\<rparr>) s, h)"
| deferred: "env \<in> envs \<Longrightarrow> pipe_step envs (s, h) (fst (pipe_respond env a r s), h)"
| send: "env \<in> envs \<Longrightarrow> pipe_step envs (s, h) (fst (pipe_send_message env m s), h)"
| stopped: "pipe_step envs (s, h) (pipe_stop s, h)"
| handler: "pipe_step envs (s, h) (s, h')"

definition live_set :: "bool list \<Rightarrow> nat set" where
  "live_set bs = {a. a < length bs \<and> bs ! a}"

definition pinv :: "pipe_config \<Rightarrow> pipe_transport \<Rightarrow> bool" where
  "pinv cfg s \<longleftrightarrow> lp_config s = cfg \<and> distinct (lp_active s)
     \<and> set (lp_active s) = live_set (map pc_active (lp_conns s))
     \<and> lp_next_id s = int (length (lp_conns s)) \<and> map pc_id (lp_conns s) = map int [0..<length (lp_conns s)]
     \<and> (\<not> lp_running s \<longrightarrow> lp_active s = [] \<and> \<not> lp_accepting s)
     \<and> (lp_mode cfg = SingleClient \<longrightarrow> length (lp_active s) + (if lp_accepting s then 1 else 0) \<le> 1)"

lemma live_set_off: "live_set (bs[a := False]) = live_set bs - {a}"
proof (rule set_eqI)
  show "x \<in> live_set (bs[a := False]) \<longleftrightarrow> x \<in> live_set bs - {a}" for x
    by (cases "x = a") (auto simp: live_set_def)
qed

lemma live_set_snoc: "live_set (bs @ [True]) = insert (length bs) (live_set bs)"
  by (auto simp: live_set_def nth_append less_Suc_eq)

lemma pinv_fields [simp]:
  "pinv cfg (s\<lparr>lp_written := w\<rparr>) = pinv cfg s" "pinv cfg (s\<lparr>lp_undefined := u\<rparr>) = pinv cfg s"
  "pinv cfg (s\<lparr>lp_escaped := x\<rparr>) = pinv cfg s"
  "pinv cfg (pipe_error e s) = pinv cfg s" "pinv cfg (pipe_log e s) = pinv cfg s"
  by (simp_all add: pinv_def pipe_error_def pipe_log_def)

lemma pinv_upd:
  assumes "pinv cfg s" "\<And>c. pc_active (f c) = pc_active c" "\<And>c. pc_id (f c) = pc_id c"
  shows "pinv cfg (upd_pipe a f s)"
proof -
  have "map pc_active (lp_conns (upd_pipe a f s)) = map pc_active (lp_conns s)" "map pc_id (lp_conns (upd_pipe a f s)) = map pc_id (lp_conns s)"
    by (simp_all add: upd_pipe_def map_update assms(2,3))
  then show ?thesis using assms(1) unfolding pinv_def by (auto simp: upd_pipe_def)
qed

lemma pinv_on_error:
  assumes "pinv cfg s"
  shows "pinv cfg (pipe_on_error a s)"
proof (cases "pc_active (lp_conns s ! a)")
  case True
  let ?off = "\<lambda>c. c\<lparr>pc_active := False\<rparr>"
  have "pipe_on_error a s = (upd_pipe a ?off s)\<lparr>lp_active := removeAll a (lp_active s)\<rparr>"
    using True by (simp add: pipe_on_error_def unregister_connection_def upd_pipe_compose)
  moreover have "map pc_active (lp_conns (upd_pipe a ?off s)) = (map pc_active (lp_conns s))[a := False]"
    "map pc_id (lp_conns (upd_pipe a ?off s)) = map pc_id (lp_conns s)"
    by (simp_all add: upd_pipe_def map_update)
  moreover have "length (removeAll a xs) \<le> n" if "length xs \<le> n" for xs n
    using that by (rule le_trans [OF length_removeAll_less_eq])
  ultimately show ?thesis
    using assms by (auto simp: pinv_def live_set_off distinct_removeAll upd_pipe_def)
qed (use assms in \<open>simp add: pipe_on_error_def\<close>)

lemma pinv_enqueue: "pinv cfg s \<Longrightarrow> pinv cfg (pipe_enqueue l a d s)"
  by (auto simp: pipe_enqueue_def Let_def intro!: pinv_on_error pinv_upd split: prod.split enqueue_outcome.split)

lemma pinv_respond: "pinv cfg s \<Longrightarrow> pinv cfg (fst (pipe_respond env a m s))"
  by (simp add: pipe_respond_def pinv_enqueue split: sum.split)

lemma pinv_send: "pinv cfg s \<Longrightarrow> pinv cfg (fst (pipe_send_message env m s))"
proof -
  assume s: "pinv cfg s"
  have "pinv cfg (fold (\<lambda>b s. if pc_active (lp_conns s ! b) then pipe_enqueue True b t s else s) ks s)" for t ks
    using s by (induction ks arbitrary: s) (simp_all add: pinv_enqueue)
  then show ?thesis using s by (simp add: pipe_send_message_def split: sum.split)
qed

lemma pinv_handle: "pinv cfg s \<Longrightarrow> pinv cfg (fst (fst (pipe_handle_line env b l s h)))"
  unfolding pipe_handle_line_def
  by (rule handle_line_keeps)
    (auto simp: pinv_respond pinv_send pipe_caught_def pipe_parse_failed_def pinv_enqueue pipe_respond_def split: sum.split)

lemma pinv_completion:
  assumes "pinv cfg s"
  shows "pinv cfg (fst (handle_read_completion env a n (s, h)))"
proof -
  let ?s = "upd_pipe a (\<lambda>c. c\<lparr>pc_buf := drop n (pc_buf c), pc_reading := False\<rparr>) s"
  have s: "pinv cfg ?s" using assms by (rule pinv_upd) simp_all
  have refused: "pinv cfg (fst (case pipe_respond env a r ?s of (s2, None) \<Rightarrow> (pipe_on_error a s2, h)
      | (s2, Some e) \<Rightarrow> (s2\<lparr>lp_escaped := Some e\<rparr>, h)))" for r
    using pinv_respond [OF s, of env a r] by (auto simp: pinv_on_error split: prod.split option.split)
  have "pinv cfg (fst (case x of ((s2, h2), None) \<Rightarrow> (if pc_active (lp_conns s2 ! a) then pipe_start_read a s2 else s2, h2)
      | ((s2, h2), Some e) \<Rightarrow> (s2\<lparr>lp_escaped := Some e\<rparr>, h2)))"
    if "pinv cfg (fst (fst x))" for x :: "(pipe_transport \<times> 'a) \<times> exn option"
    using that by (auto simp: pipe_start_read_def intro!: pinv_upd split: prod.split option.split)
  moreover have "pinv cfg (fst (fst (if l \<noteq> [] then pipe_handle_line env a l ?s h else ((?s, h), None))))" for l
    using pinv_handle [OF s, of env a l h] s by simp
  ultimately show ?thesis
    using refused by (simp add: handle_read_completion_def Let_def)
qed

lemma pinv_accepted:
  assumes "pinv cfg s" "lp_accepting s"
  shows "pinv cfg (pipe_accepted ok s)"
proof (cases "ok \<and> lp_running s")
  case True
  let ?t = "pipe_accepted ok s"
  obtain c where c: "lp_conns ?t = lp_conns s @ [c]" "pc_active c" "pc_id c = lp_next_id s"
    using True by (auto simp: pipe_accepted_def Let_def pipe_log_def pipe_start_read_def upd_pipe_def)
  have t: "lp_config ?t = lp_config s" "lp_active ?t = lp_active s @ [length (lp_conns s)]" "lp_next_id ?t = lp_next_id s + 1"
    "lp_running ?t" "lp_accepting ?t \<longleftrightarrow> lp_mode (lp_config s) \<noteq> SingleClient"
    using True by (simp_all add: pipe_accepted_def Let_def pipe_log_def pipe_start_read_def upd_pipe_def)
  have s: "lp_config s = cfg" "distinct (lp_active s)" "set (lp_active s) = live_set (map pc_active (lp_conns s))"
      "lp_next_id s = int (length (lp_conns s))" "map pc_id (lp_conns s) = map int [0..<length (lp_conns s)]"
      "lp_mode cfg = SingleClient \<Longrightarrow> lp_active s = []"
    using assms by (simp_all add: pinv_def)
  have "length (lp_conns s) \<notin> set (lp_active s)" by (simp add: s(3) live_set_def)
  then show ?thesis
    unfolding pinv_def using s live_set_snoc [of "map pc_active (lp_conns s)"] by (simp add: t c)
next
  case False
  then show ?thesis
    using assms by (auto simp: pinv_def pipe_accepted_def Let_def)
qed

lemma pinv_start: "pinv cfg s \<Longrightarrow> \<not> lp_running s \<Longrightarrow> pinv cfg (pipe_start failed s)"
  by (auto simp: pinv_def pipe_start_def pipe_log_def pipe_error_def split: option.split)

lemma stop_fold:
  "lp_config (fold (\<lambda>a. upd_pipe a f) ks s) = lp_config s \<and> length (lp_conns (fold (\<lambda>a. upd_pipe a f) ks s)) = length (lp_conns s)
   \<and> lp_next_id (fold (\<lambda>a. upd_pipe a f) ks s) = lp_next_id s"
  by (induction ks arbitrary: s) (simp_all add: upd_pipe_def)

lemma stop_fold_ids:
  "(\<And>c. pc_id (f c) = pc_id c) \<Longrightarrow> map pc_id (lp_conns (fold (\<lambda>a. upd_pipe a f) ks s)) = map pc_id (lp_conns s)"
  by (induction ks arbitrary: s) (simp_all add: upd_pipe_def map_update)

lemma stop_fold_active:
  "(\<And>c. \<not> pc_active (f c)) \<Longrightarrow>
   live_set (map pc_active (lp_conns (fold (\<lambda>a. upd_pipe a f) ks s))) = live_set (map pc_active (lp_conns s)) - set ks"
  by (induction ks arbitrary: s) (auto simp: upd_pipe_def map_update live_set_off)

lemma pinv_stop: "pinv cfg s \<Longrightarrow> pinv cfg (pipe_stop s)"
proof -
  assume s: "pinv cfg s"
  let ?f = "\<lambda>c. c\<lparr>pc_active := False, pc_queue := wq_shutdown (pc_queue c), pc_open := False\<rparr>"
  let ?t = "fold (\<lambda>a. upd_pipe a ?f) (lp_active s) s"
  have "live_set (map pc_active (lp_conns ?t)) = {}" "map pc_id (lp_conns ?t) = map pc_id (lp_conns s)"
    using s by (simp_all add: stop_fold_active stop_fold_ids pinv_def)
  then show ?thesis
    using s stop_fold [of ?f "lp_active s" s] by (auto simp: pinv_def pipe_stop_def)
qed

lemma pinv_step: "pipe_step envs x y \<Longrightarrow> pinv cfg (fst x) \<Longrightarrow> pinv cfg (fst y)"
proof (induction rule: pipe_step.induct)
  case (bytes s h a chunk)
  then show ?case by (simp add: pinv_upd)
next
  case (written s h a q)
  then show ?case by (simp add: pinv_upd)
next
  case (read_error s h a)
  have "pinv cfg (upd_pipe a (\<lambda>c. c\<lparr>pc_reading := False\<rparr>) s)" using read_error by (intro pinv_upd) simp_all
  then show ?case by (simp add: pipe_read_failed_def pinv_on_error)
qed (simp_all add: pinv_start pinv_accepted pinv_completion pinv_on_error pinv_respond pinv_send pinv_stop)

interpretation pipes: invariant_system "\<lambda>x. \<exists>b. fst x = (LocalPipeTransport cfg)\<lparr>lp_io := b\<rparr>" "pipe_step envs" "\<lambda>x. pinv cfg (fst x)"
  for cfg envs
proof
  show "pinv cfg (fst x)" if "\<exists>b. fst x = (LocalPipeTransport cfg)\<lparr>lp_io := b\<rparr>" for x :: "pipe_transport \<times> 'a"
    using that by (auto simp: pinv_def LocalPipeTransport_def live_set_def)
qed (rule pinv_step)




section \<open>Who gets what\<close>

text \<open>What has been written since \<open>s\<close> satisfies \<open>P\<close>, and no connection has become active.\<close>

definition pipe_wrote :: "(nat \<Rightarrow> string \<Rightarrow> bool) \<Rightarrow> pipe_transport \<Rightarrow> pipe_transport \<Rightarrow> bool" where
  "pipe_wrote P s t \<longleftrightarrow> set (lp_active t) \<subseteq> set (lp_active s)
     \<and> (\<exists>w. lp_written t = lp_written s @ w \<and> (\<forall>(b, d) \<in> set w. P b d))"

lemma pipe_wrote_refl [simp]: "pipe_wrote P s s"
  by (simp add: pipe_wrote_def)

lemma pipe_wrote_notes [simp]:
  "pipe_wrote P s (pipe_error e t) = pipe_wrote P s t" "pipe_wrote P s (pipe_log e t) = pipe_wrote P s t"
  "pipe_wrote P s (upd_pipe a f t) = pipe_wrote P s t" "pipe_wrote P s (t\<lparr>lp_undefined := u\<rparr>) = pipe_wrote P s t"
  by (simp_all add: pipe_wrote_def pipe_error_def pipe_log_def)

lemma pipe_wrote_on_error: "pipe_wrote P s t \<Longrightarrow> pipe_wrote P s (pipe_on_error a t)"
  by (auto simp: pipe_wrote_def pipe_on_error_def unregister_connection_def)

lemma pipe_wrote_enqueue:
  assumes "pipe_wrote P s t" "P a (d @ [lf])"
  shows "pipe_wrote P s (pipe_enqueue l a d t)"
proof -
  obtain w where w: "lp_written t = lp_written s @ w" "\<forall>(b, d) \<in> set w. P b d" "set (lp_active t) \<subseteq> set (lp_active s)"
    using assms(1) by (auto simp: pipe_wrote_def)
  have "pipe_wrote P s ((upd_pipe a f t)\<lparr>lp_written := lp_written t @ [(a, d @ [lf])]\<rparr>)" for f
    unfolding pipe_wrote_def using w assms(2) by (intro conjI exI [of _ "w @ [(a, d @ [lf])]"]) simp_all
  with assms(1) show ?thesis
    by (simp add: pipe_enqueue_def Let_def pipe_wrote_on_error split: prod.split enqueue_outcome.split)
qed

lemma pipe_wrote_send:
  assumes "pipe_wrote P s t" "\<And>u b. le_dump env m = Inr u \<Longrightarrow> b \<in> set (lp_active s) \<Longrightarrow> P b (u @ [lf])"
  shows "pipe_wrote P s (fst (pipe_send_message env m t))"
proof (cases "le_dump env m")
  case (Inr u)
  have "pipe_wrote P s (fold (\<lambda>b s. if pc_active (lp_conns s ! b) then pipe_enqueue True b u s else s) ks t)"
    if "set ks \<subseteq> set (lp_active s)" for ks
    using assms(1) that
  proof (induction ks arbitrary: t)
    case (Cons b ks)
    then show ?case using assms(2) [OF Inr] by (simp add: pipe_wrote_enqueue)
  qed simp
  moreover have "set (lp_active t) \<subseteq> set (lp_active s)" using assms(1) by (simp add: pipe_wrote_def)
  ultimately show ?thesis by (simp add: pipe_send_message_def Inr)
qed (use assms in \<open>simp add: pipe_send_message_def\<close>)

text \<open>Responses stay on their connection. When a connection's line is handled, everything written is a
  message of the handler followed by a newline: its responses go to that connection and to no other one, what
  it pushes goes to active connections.\<close>

theorem pipe_responses_stay_on_connection:
  assumes "le_parse env l = Inr j" "le_handler env = Some f" "f j h = ((es, x), h')"
  shows "\<exists>w. lp_written (fst (fst (pipe_handle_line env a l s h))) = lp_written s @ w
    \<and> (\<forall>(b, d) \<in> set w. \<exists>m t. le_dump env m = Inr t \<and> d = t @ [lf]
         \<and> (b = a \<and> Respond m \<in> set es
            \<or> b \<in> set (lp_active s) \<and> (PushAll m \<in> set es \<or> (\<exists>sid. PushSession sid m \<in> set es))))"
proof -
  let ?P = "\<lambda>b d. \<exists>m t. le_dump env m = Inr t \<and> d = t @ [lf]
    \<and> (b = a \<and> Respond m \<in> set es \<or> b \<in> set (lp_active s) \<and> (PushAll m \<in> set es \<or> (\<exists>sid. PushSession sid m \<in> set es)))"
  obtain s' y where r: "run_sink (pipe_respond env a) (pipe_send_message env) es s = (s', y)" by fastforce
  have "pipe_wrote ?P s (fst (run_sink (pipe_respond env a) (pipe_send_message env) es s))"
  proof (rule run_sink_keeps_in)
    show "pipe_wrote ?P s (fst (pipe_respond env a m t))" if "Respond m \<in> set es" "pipe_wrote ?P s t" for m t
      using that by (cases "le_dump env m") (auto simp: pipe_respond_def intro!: pipe_wrote_enqueue)
    show "pipe_wrote ?P s (fst (pipe_send_message env m t))"
      if "PushSession sid m \<in> set es \<or> PushAll m \<in> set es" "pipe_wrote ?P s t" for sid m t
      using that by (intro pipe_wrote_send) blast+
  qed simp
  then have "pipe_wrote ?P s s'" by (simp add: r)
  moreover have "lp_written (fst (fst (pipe_handle_line env a l s h))) = lp_written s'"
    using assms r by (cases "case y of None \<Rightarrow> x | Some e \<Rightarrow> Some e")
      (simp_all add: pipe_handle_line_def handle_line_with_def pipe_caught_def pipe_error_def pipe_log_def)
  ultimately show ?thesis by (simp add: pipe_wrote_def)
qed

definition ex_pipe_env :: "unit line_env" where
  "ex_pipe_env = \<lparr>le_parse = (\<lambda>t. Inr JNull), le_dump = (\<lambda>j. Inr ''{}''), le_what = (\<lambda>_. []),
     le_handler = Some (\<lambda>j h. (([Respond JNull], None), h))\<rparr>"

theorem pipe_responses_stay_on_connection_witness:
  "\<exists>w. lp_written (fst (fst (pipe_handle_line ex_pipe_env 1 ''x'' (LocalPipeTransport LocalPipeConfig) ()))) = w
    \<and> (\<forall>(b, d) \<in> set w. b = 1)"
proof -
  have "le_parse ex_pipe_env ''x'' = Inr JNull" "le_handler ex_pipe_env = Some (\<lambda>j h. (([Respond JNull], None), h))"
    by (simp_all add: ex_pipe_env_def)
  from pipe_responses_stay_on_connection [OF this refl, of 1 "LocalPipeTransport LocalPipeConfig"]
  obtain w where w: "lp_written (fst (fst (pipe_handle_line ex_pipe_env 1 ''x'' (LocalPipeTransport LocalPipeConfig) ())))
      = lp_written (LocalPipeTransport LocalPipeConfig) @ w"
    and b: "\<forall>(b, d) \<in> set w. b = 1 \<or> b \<in> set (lp_active (LocalPipeTransport LocalPipeConfig))"
    by blast
  have e: "lp_written (LocalPipeTransport LocalPipeConfig) = []" "lp_active (LocalPipeTransport LocalPipeConfig) = []"
    by (simp_all add: LocalPipeTransport_def)
  from b have "\<forall>(b, d) \<in> set w. b = 1" by (simp add: e)
  with w show ?thesis by (simp only: e append_Nil) blast
qed

text \<open>An overflow during a broadcast locks twice. \<open>send_message\<close> holds the lock on the connections while
  it enqueues; a queue that closes on overflow then calls \<open>unregister_connection\<close>, which takes the same lock in the
  same thread: undefined behaviour, already for the first message that is larger than the bound.\<close>

theorem pipe_broadcast_overflow_is_undefined:
  assumes "lp_queue_policy cfg = CloseOnError" "0 < lp_queue_max cfg" "le_dump env m = Inr t"
    and "lp_queue_max cfg < data_size (t @ [lf])"
  shows "lp_undefined (fst (pipe_send_message env m (pipe_accepted True (pipe_start None ((LocalPipeTransport cfg)\<lparr>lp_io := True\<rparr>)))))"
  using assms
  by (simp add: pipe_send_message_def pipe_accepted_def pipe_start_def LocalPipeTransport_def pipe_log_def pipe_start_read_def
      upd_pipe_def Let_def pipe_enqueue_def enqueue_def make_write_queue_def)

theorem pipe_broadcast_overflow_is_undefined_witness:
  "lp_undefined (fst (pipe_send_message ex_pipe_env JNull (pipe_accepted True (pipe_start None
     ((LocalPipeTransport (LocalPipeConfig\<lparr>lp_queue_policy := CloseOnError, lp_queue_max := 2\<rparr>))\<lparr>lp_io := True\<rparr>)))))"
  by (rule pipe_broadcast_overflow_is_undefined [where t = "''{}''"])
    (simp_all add: LocalPipeConfig_def ex_pipe_env_def data_size_def)

end
