(* ===== verification/Pipe_Client.thy ===== *)
theory Pipe_Client
  imports Line_Client
begin

text \<open>
  The local pipe transport of the client (\<open>local_pipe_client_transport.hpp\<close>,
  \<open>local_pipe_client_transport.cpp\<close>), in the variant for Unix.
\<close>

section \<open>Operations\<close>

definition resolve_path :: "string \<Rightarrow> string" where
  "resolve_path pipe_name = ''/tmp/'' @ pipe_name @ ''.sock''"

text \<open>An attempt to connect: a socket, \<open>ENOENT\<close> or \<open>ECONNREFUSED\<close> (the server is not ready yet), or another
  error; with the text of the error.\<close>

datatype connect_answer = Accepted | NotReady string | Broken string

datatype connect_result = ConnStopped | ConnOpen | ConnFailed string

text \<open>The loop of \<open>connect\<close>; \<open>stop i\<close> tells that \<open>stopping_\<close> is found set before attempt \<open>i\<close>. The result comes
  with the number of attempts.\<close>

fun connect_loop :: "nat \<Rightarrow> (nat \<Rightarrow> bool) \<Rightarrow> (nat \<Rightarrow> connect_answer) \<Rightarrow> nat \<Rightarrow> string \<Rightarrow> connect_result \<times> nat" where
  "connect_loop 0 stop answer i ec = (ConnFailed ec, i)"
| "connect_loop (Suc n) stop answer i ec =
     (if stop i then (ConnStopped, i)
      else case answer i of
        Accepted \<Rightarrow> (ConnOpen, Suc i)
      | NotReady e \<Rightarrow> connect_loop n stop answer (Suc i) e
      | Broken e \<Rightarrow> (ConnFailed e, Suc i))"

text \<open>The loop of the variant for Windows does not look at \<open>stopping_\<close>; it retries when all instances of the pipe are busy
  (error 231) and when the pipe does not exist yet (error 2). Its error is the number of the last one.\<close>

datatype win32_answer = PipeOpened | PipeBusy | PipeMissing | PipeError nat

fun win32_attempt :: "win32_answer \<Rightarrow> connect_answer" where
  "win32_attempt PipeOpened = Accepted"
| "win32_attempt PipeBusy = NotReady (nat_to_dec 231)"
| "win32_attempt PipeMissing = NotReady (nat_to_dec 2)"
| "win32_attempt (PipeError n) = Broken (nat_to_dec n)"

definition win32_connect :: "(nat \<Rightarrow> win32_answer) \<Rightarrow> connect_result" where
  "win32_connect answer = fst (connect_loop 100 (\<lambda>_. False) (\<lambda>i. win32_attempt (answer i)) 0 (nat_to_dec 0))"

definition pipe_client_do_read :: "line_client \<Rightarrow> line_client" where
  "pipe_client_do_read = client_do_read ''pipe inbound line exceeds size cap, dropping connection''"

definition pipe_client_connect ::
    "(nat \<Rightarrow> bool) \<Rightarrow> (nat \<Rightarrow> connect_answer) \<Rightarrow> line_client \<Rightarrow> line_client \<times> exn option" where
  "pipe_client_connect stop answer s =
     (if lc_connected s then (s, None)
      else if \<not> lc_io s then (s\<lparr>lc_connected := False\<rparr>, Some (StdEx ''LocalPipeClientTransport: no io_context''))
      else
        let s1 = s\<lparr>lc_connected := True, lc_stopping := False\<rparr> in
        case fst (connect_loop 100 stop answer 0 []) of
          ConnStopped \<Rightarrow> (s1\<lparr>lc_connected := False, lc_stopping := True, lc_stream := None\<rparr>, None)
        | ConnFailed e \<Rightarrow>
            (s1\<lparr>lc_connected := False, lc_stream := None\<rparr>, Some (StdEx (''LocalPipeClientTransport: connect failed: '' @ e)))
        | ConnOpen \<Rightarrow>
            (pipe_client_do_read (s1\<lparr>lc_stream := Some True, lc_queue := Some (make_write_queue 0 DropNewest)\<rparr>), None))"

definition pipe_client_write_failed :: "line_client \<Rightarrow> line_client" where
  "pipe_client_write_failed = client_error ''local pipe write error''"

definition pipe_client_disconnect :: "line_client \<Rightarrow> line_client" where
  "pipe_client_disconnect s =
     (let s1 = close_streams (s\<lparr>lc_stopping := True, lc_connected := False\<rparr>) in
      if lc_io s1 \<and> has_handler s1 then client_post ClearHandlers s1 else clear_handlers s1)"

definition pipe_client_send :: "'h line_env \<Rightarrow> json \<Rightarrow> line_client \<Rightarrow> line_client \<times> exn option" where
  "pipe_client_send = client_send ''pipe message too large''"

definition pipe_client_caught :: "string \<Rightarrow> line_client \<Rightarrow> line_client" where
  "pipe_client_caught err = client_error (''pipe parse error: '' @ err)"

definition pipe_client_handle_line :: "'h line_env \<Rightarrow> string \<Rightarrow> line_client \<Rightarrow> 'h \<Rightarrow> (line_client \<times> 'h) \<times> exn option" where
  "pipe_client_handle_line env = client_handle_line (pipe_client_send env) pipe_client_caught env"

definition pipe_client_on_read :: "'h line_env \<Rightarrow> nat \<Rightarrow> line_client \<times> 'h \<Rightarrow> line_client \<times> 'h" where
  "pipe_client_on_read env =
     client_on_read ''pipe inbound line exceeds size cap, dropping connection'' (pipe_client_handle_line env)"


section \<open>The contract of a reader\<close>

interpretation pipe_client: client_reader "''pipe inbound line exceeds size cap, dropping connection''" "pipe_client_handle_line env"
    "tame_env env"
  for env
proof
  show "pipe_client_handle_line env l (s\<lparr>lc_buf := b\<rparr>) h
      = map_prod (map_prod (lc_buf_update (\<lambda>_. b)) id) id (pipe_client_handle_line env l s h)" for l s b h
    unfolding pipe_client_handle_line_def
    by (rule client_handle_frame [where g = "lc_buf_update (\<lambda>_. b)"]) (simp_all add: pipe_client_caught_def pipe_client_send_def client_send_frame)
  show "pipe_client_handle_line env l (s\<lparr>lc_reading := r\<rparr>) h
      = map_prod (map_prod (lc_reading_update (\<lambda>_. r)) id) id (pipe_client_handle_line env l s h)" for l s r h
    unfolding pipe_client_handle_line_def
    by (rule client_handle_frame [where g = "lc_reading_update (\<lambda>_. r)"]) (simp_all add: pipe_client_caught_def pipe_client_send_def client_send_frame)
  show "client_live (fst (fst (pipe_client_handle_line env l s h)))" if "client_live s" for s l h
    unfolding pipe_client_handle_line_def using that
    by (intro client_handle_keeps [where P = client_live]) (simp_all add: pipe_client_caught_def pipe_client_send_def client_send_live)
  show "snd (pipe_client_handle_line env l s h) = None" if "tame_env env" for l s h
    unfolding pipe_client_handle_line_def using that
    by (intro client_handle_tame) (simp_all add: pipe_client_send_def client_send_no_throw)
qed


section \<open>Connecting\<close>

lemma connect_loop_open:
  assumes "i \<le> j" "j < i + n" "answer j = Accepted" "\<And>k. i \<le> k \<Longrightarrow> k < j \<Longrightarrow> \<exists>e. answer k = NotReady e"
  shows "connect_loop n (\<lambda>_. False) answer i ec = (ConnOpen, Suc j)"
  using assms
proof (induction n arbitrary: i ec)
  case (Suc n)
  show ?case
  proof (cases "i = j")
    case True
    with Suc.prems(3) show ?thesis by simp
  next
    case False
    then obtain e where "answer i = NotReady e" using Suc.prems(1,4) by (metis le_neq_implies_less order_refl)
    with Suc False show ?thesis by simp
  qed
qed simp

lemma connect_loop_never:
  assumes "\<And>j. i \<le> j \<Longrightarrow> j < i + n \<Longrightarrow> answer j = Accepted \<Longrightarrow> \<exists>k \<ge> i. k < j \<and> (\<nexists>e. answer k = NotReady e)"
  shows "\<exists>e tries. connect_loop n (\<lambda>_. False) answer i ec = (ConnFailed e, tries) \<and> tries \<le> i + n"
  using assms
proof (induction n arbitrary: i ec)
  case (Suc n)
  have not: "answer i \<noteq> Accepted" using Suc.prems [of i] by force
  show ?case
  proof (cases "answer i")
    case (NotReady e)
    have "\<exists>e' tries. connect_loop n (\<lambda>_. False) answer (Suc i) e = (ConnFailed e', tries) \<and> tries \<le> Suc i + n"
    proof (rule Suc.IH)
      fix j
      assume "Suc i \<le> j" "j < Suc i + n" "answer j = Accepted"
      with Suc.prems [of j] obtain k where "k \<ge> i" "k < j" "\<nexists>e. answer k = NotReady e" by auto
      moreover then have "k \<noteq> i" using NotReady by auto
      ultimately show "\<exists>k \<ge> Suc i. k < j \<and> (\<nexists>e. answer k = NotReady e)" by (metis Suc_leI le_neq_implies_less)
    qed
    with NotReady show ?thesis by simp
  qed (use not in simp_all)
qed simp

text \<open>Connecting retries, and gives up. A client that is not stopped meanwhile connects exactly when one of the
  first hundred attempts succeeds and every attempt before it met a server that was not ready. It then has a
  fresh write queue and reads; otherwise it is not connected and throws. It never tries more than a
  hundred times.\<close>

theorem pipe_connect_outcome:
  assumes "lc_io s" "\<not> lc_connected s" "length (lc_buf s) \<le> 16 * 1024 * 1024"
  shows "snd (connect_loop 100 (\<lambda>_. False) answer 0 []) \<le> 100
    \<and> (if \<exists>i < 100. answer i = Accepted \<and> (\<forall>k < i. \<exists>e. answer k = NotReady e)
       then pipe_client_connect (\<lambda>_. False) answer s
         = (s\<lparr>lc_connected := True, lc_stopping := False, lc_stream := Some True,
               lc_queue := Some (make_write_queue 0 DropNewest), lc_reading := True\<rparr>, None)
       else (\<exists>e. pipe_client_connect (\<lambda>_. False) answer s
         = (s\<lparr>lc_connected := False, lc_stopping := False, lc_stream := None\<rparr>,
            Some (StdEx (''LocalPipeClientTransport: connect failed: '' @ e)))))"
proof (cases "\<exists>i < 100. answer i = Accepted \<and> (\<forall>k < i. \<exists>e. answer k = NotReady e)")
  case True
  then obtain i where "i < 100" "answer i = Accepted" "\<forall>k < i. \<exists>e. answer k = NotReady e" by blast
  moreover from this have "connect_loop 100 (\<lambda>_. False) answer 0 [] = (ConnOpen, Suc i)"
    by (intro connect_loop_open) simp_all
  ultimately show ?thesis
    using True assms
    by (simp add: pipe_client_connect_def Let_def pipe_client_do_read_def client_do_read_def client_max_line_def)
next
  case False
  have "\<exists>e tries. connect_loop 100 (\<lambda>_. False) answer 0 [] = (ConnFailed e, tries) \<and> tries \<le> 0 + 100"
    by (rule connect_loop_never) (use False in auto)
  then obtain e tries where "connect_loop 100 (\<lambda>_. False) answer 0 [] = (ConnFailed e, tries)" "tries \<le> 100" by auto
  then show ?thesis unfolding if_not_P [OF False] using assms by (simp add: pipe_client_connect_def Let_def)
qed

theorem pipe_connect_outcome_witness:
  "lc_connected (fst (pipe_client_connect (\<lambda>_. False) (\<lambda>i. if i < 7 then NotReady ''ENOENT'' else Accepted)
     (new_line_client\<lparr>lc_io := True\<rparr>)))"
proof -
  let ?a = "\<lambda>i :: nat. if i < 7 then NotReady ''ENOENT'' else Accepted"
  have "\<exists>i < 100. ?a i = Accepted \<and> (\<forall>k < i. \<exists>e. ?a k = NotReady e)" by (intro exI [of _ 7]) simp
  then show ?thesis
    using pipe_connect_outcome [of "new_line_client\<lparr>lc_io := True\<rparr>" ?a]
    unfolding if_P [OF \<open>\<exists>i < 100. ?a i = Accepted \<and> (\<forall>k < i. \<exists>e. ?a k = NotReady e)\<close>]
    by (simp add: new_line_client_def)
qed


lemma connect_keeps_handler [simp]: "lc_on_message (fst (pipe_client_connect stop answer s)) = lc_on_message s"
  by (simp add: pipe_client_connect_def Let_def pipe_client_do_read_def client_do_read_def post_disconnect_def client_post_def
      close_streams_def client_error_def split: connect_result.split)


section \<open>Disconnecting\<close>

text \<open>A reconnected client mixes two streams. What an earlier connection left unfinished stays in the buffer
  across \<open>disconnect\<close> and \<open>connect\<close>, and the first line of the new connection is handled with it in front.\<close>

theorem reconnect_keeps_unfinished_line:
  assumes "tame_env env" "lc_io s" "lc_posted s = []" "lc_escaped s = None" "client_fits (lc_buf s @ l)" "lf \<notin> set (lc_buf s @ l)"
    and "client_piece (l @ [lf])" "answer 0 = Accepted"
    and s': "s' = fst (pipe_client_connect (\<lambda>_. False) answer
      ((client_run_posted (pipe_client_disconnect s))\<lparr>lc_on_message := True, lc_on_error := True\<rparr>))"
  shows "arrive (\<lambda>sh. lc_buf (fst sh)) client_set_buf (client_ready (tame_env env)) (pipe_client_on_read env) (l @ [lf]) (s', h)
    = client_set_buf [] (client_act (pipe_client_handle_line env) (strip_eol (lc_buf s @ l)) (s', h))"
proof -
  have loop: "connect_loop 100 (\<lambda>_. False) answer 0 [] = (ConnOpen, Suc 0)" using assms(8) by (intro connect_loop_open) simp_all
  let ?t = "(client_run_posted (pipe_client_disconnect s))\<lparr>lc_on_message := True, lc_on_error := True\<rparr>"
  have t: "lc_buf ?t = lc_buf s" "lc_io ?t" "\<not> lc_connected ?t" "lc_escaped ?t = None"
    using assms(2-4) by (simp_all add: pipe_client_disconnect_def Let_def close_streams_def client_run_posted_def client_post_def clear_handlers_def)
  have "length (lc_buf s) \<le> client_max_line" using assms(5) by (simp add: client_fits_def)
  then have s: "s' = ?t\<lparr>lc_connected := True, lc_stopping := False, lc_stream := Some True,
      lc_queue := Some (make_write_queue 0 DropNewest), lc_reading := True\<rparr>"
    unfolding s' pipe_client_connect_def using t loop
    by (simp add: Let_def pipe_client_do_read_def client_do_read_def del: connect_loop.simps)
  have ready: "client_ready (tame_env env) (s', h)"
    using assms(1) t by (simp add: client_ready_def client_live_def s)
  have split: "split_lines (lc_buf (fst (s', h)) @ l @ [lf]) = ([lc_buf s @ l], [])"
    using split_lines_join [of "[]" "[lc_buf s @ l]"] assms(6) t(1) by (simp add: s)
  have "client_fits (lc_buf s)" using assms(5) by (simp add: client_fits_def)
  with pipe_client.reader.arrive_lines [OF ready split] assms(5,7) t(1)
  show ?thesis by (simp add: s pipe_client_on_read_def)
qed

theorem reconnect_keeps_unfinished_line_witness:
  "\<exists>s s'. lc_buf s = ''old'' \<and> s' = fst (pipe_client_connect (\<lambda>_. False) (\<lambda>_. Accepted)
       ((client_run_posted (pipe_client_disconnect s))\<lparr>lc_on_message := True, lc_on_error := True\<rparr>)) \<and>
     snd (arrive (\<lambda>sh. lc_buf (fst sh)) client_set_buf (client_ready (tame_env ex_line_env)) (pipe_client_on_read ex_line_env)
       (''new'' @ [lf]) (s', [])) = [''oldnew'']"
proof -
  let ?s = "new_line_client\<lparr>lc_io := True, lc_buf := ''old''\<rparr>"
  define s' where "s' = fst (pipe_client_connect (\<lambda>_. False) (\<lambda>_. Accepted)
    ((client_run_posted (pipe_client_disconnect ?s))\<lparr>lc_on_message := True, lc_on_error := True\<rparr>))"
  have fits: "client_fits (lc_buf ?s @ ''new'')" "lf \<notin> set (lc_buf ?s @ ''new'')" "client_piece (''new'' @ [lf])"
    by (simp_all add: client_fits_def client_max_line_def client_piece_def lf_def)
  have s: "lc_io ?s" "lc_posted ?s = []" "lc_escaped ?s = None" by (simp_all add: new_line_client_def)
  have "lc_on_message s'" by (simp add: s'_def)
  then have "snd (fst (pipe_client_handle_line ex_line_env ''oldnew'' s' [])) = [''oldnew'']"
    unfolding pipe_client_handle_line_def
    by (subst client_handle_message [of _ _ "JStr ''oldnew''"], simp_all add: ex_line_env_def, simp)
  moreover have "strip_eol (lc_buf ?s @ ''new'') = ''oldnew''" by (simp add: strip_eol_def strip_back_def lf_def cr_def)
  ultimately have "snd (arrive (\<lambda>sh. lc_buf (fst sh)) client_set_buf (client_ready (tame_env ex_line_env)) (pipe_client_on_read ex_line_env)
      (''new'' @ [lf]) (s', [])) = [''oldnew'']"
    using reconnect_keeps_unfinished_line [OF ex_line_env_tame s fits refl s'_def [unfolded atomize_eq], of "[]"]
    by (simp add: client_act_def client_set_buf_def)
  then show ?thesis by (intro exI [of _ ?s] exI [of _ s'] conjI) (simp_all add: s'_def)
qed

end
