(* ===== verification/Line_Pairs.thy ===== *)
theory Line_Pairs
  imports Stdio Stdio_Client Pipe_Props Pipe_Client
begin

text \<open>
  The line-based transports of client and server together: the bytes one side hands to its stream make
  the message handler of the other side run once per message, in order, however the stream cuts them. What
  a write queue accepts reaches the stream in order (\<open>Write_Queue\<close>).
\<close>

section \<open>Texts on a line\<close>

text \<open>A text that survives the framing: not empty, on one line, without a carriage return at its end.\<close>

definition line_safe :: "string \<Rightarrow> bool" where
  "line_safe t \<longleftrightarrow> t \<noteq> [] \<and> lf \<notin> set t \<and> last t \<noteq> cr"

lemma line_safe_strip: "line_safe t \<Longrightarrow> strip_eol t = t"
  unfolding line_safe_def by (intro strip_eol_id) (metis last_in_set)

lemma join_lines_concat: "join_lines ts = concat (map (\<lambda>t. t @ [lf]) ts)"
  by (simp add: join_lines_def)

text \<open>A handler that is given the values of the texts, one after the other.\<close>

lemma fold_handled:
  assumes "map (le_parse env) ts = map Inr ms"
    and step: "\<And>t m sh. t \<in> set ts \<Longrightarrow> le_parse env t = Inr m \<Longrightarrow> good sh \<Longrightarrow> good (act t sh) \<and> snd (act t sh) = snd (f m (snd sh))"
    and "good sh"
  shows "good (fold act ts sh) \<and> snd (fold act ts sh) = fold (\<lambda>m h. snd (f m h)) ms (snd sh)"
  using assms
proof (induction ts arbitrary: ms sh)
  case (Cons t ts)
  then obtain m ms' where m: "ms = m # ms'" "le_parse env t = Inr m" "map (le_parse env) ts = map Inr ms'" by (cases ms) auto
  have "good (act t sh)" "snd (act t sh) = snd (f m (snd sh))" using Cons.prems(2) [of t m sh] m(2) Cons.prems(3) by simp_all
  with Cons.IH [OF m(3)] Cons.prems(2) m(1) show ?case by simp
qed simp


section \<open>From the client to the server\<close>

text \<open>C16: A client's messages reach the server. What the standard I/O client accepts, arriving at the server in any
  pieces, makes the server's message handler run once for each message, in order. (Messages are written on one
  line of less than 4 MiB, and the server reads what the client writes.)\<close>

theorem stdio_messages_reach_server:
  assumes "tame_env env" "le_handler env = Some f" "st_reading s" "st_running s" "st_escaped s = None" "st_buf s = []"
    and "client_open c" "map (le_dump cenv) ms = map Inr ts" "map (le_parse env) ts = map Inr ms"
    and "\<forall>t \<in> set ts. line_safe t \<and> length t < 4 * 1024 * 1024"
    and "lc_sent (fold (\<lambda>m c. fst (stdio_client_send cenv m c)) ms c) = lc_sent c @ sent" "concat chunks = concat sent"
  shows "snd (fold (arrive (\<lambda>sh. st_buf (fst sh)) stdio_set_buf (stdio_ready env) (stdio_on_read env)) chunks (s, h))
    = fold (\<lambda>m h. snd (f m h)) ms h"
proof -
  have "\<forall>t \<in> set ts. length t < client_max_line" using assms(10) by (auto simp: client_max_line_def)
  then have "sent = map (\<lambda>t. t @ [lf]) ts"
    using assms(11) client_sends_open [OF assms(7,8), of "''stdio message too large''"] by (simp add: stdio_client_send_def)
  then have chunks: "concat chunks = join_lines ts" using assms(12) by (simp add: join_lines_concat)
  have ready: "stdio_ready env (s, h)" using assms(1,3-5) by (simp add: stdio_ready_def stdio_live_def)
  have run: "fold (arrive (\<lambda>sh. st_buf (fst sh)) stdio_set_buf (stdio_ready env) (stdio_on_read env)) chunks (s, h) = stdio.acts env ts (s, h)"
    using ready assms(6,10) chunks
    by (intro stdio.arrive_stream) (simp_all add: stdio_fits_def stdio_max_line_def line_safe_def)
  have "snd (fold (\<lambda>l. stdio_act env (strip_eol l)) ts (s, h)) = fold (\<lambda>m h. snd (f m h)) ms (snd (s, h))"
    using assms(2,10)
    by (intro fold_handled [OF assms(9), where good = "\<lambda>_. True", THEN conjunct2])
      (simp_all add: stdio_act_def line_safe_strip stdio_handle_line_def handle_line_message, simp add: line_safe_def)
  with run show ?thesis by (simp add: stdio.acts_def)
qed

definition ex_open_client :: line_client where
  "ex_open_client = new_line_client\<lparr>lc_queue := Some (make_write_queue 0 DropNewest)\<rparr>"

definition ex_dump_env :: "string list line_env" where
  "ex_dump_env = ex_line_env\<lparr>le_dump := (\<lambda>j. Inr (case j of JStr t \<Rightarrow> t | _ \<Rightarrow> []))\<rparr>"

theorem stdio_messages_reach_server_witness:
  "snd (fold (arrive (\<lambda>sh. st_buf (fst sh)) stdio_set_buf (stdio_ready ex_line_env) (stdio_on_read ex_line_env))
     [''{'', ''}'' @ [lf] @ ''['', '']'' @ [lf]] (StdioTransport\<lparr>st_reading := True, st_running := True\<rparr>, [])) = [''{}'', ''[]'']"
proof -
  let ?s = "StdioTransport\<lparr>st_reading := True, st_running := True\<rparr>"
  let ?f = "\<lambda>j h. (([] :: emission list, None :: exn option), h @ [case j of JStr t \<Rightarrow> t | _ \<Rightarrow> []])"
  have f: "le_handler ex_line_env = Some ?f" by (simp add: ex_line_env_def)
  have s: "st_reading ?s" "st_running ?s" "st_escaped ?s = None" "st_buf ?s = []" by (simp_all add: StdioTransport_def)
  have c: "client_open ex_open_client" by (simp add: client_open_def ex_open_client_def make_write_queue_def)
  have texts: "map (le_dump ex_dump_env) [JStr ''{}'', JStr ''[]''] = map Inr [''{}'', ''[]'']"
    "map (le_parse ex_line_env) [''{}'', ''[]''] = map Inr [JStr ''{}'', JStr ''[]'']"
    "\<forall>t \<in> set [''{}'', ''[]'']. line_safe t \<and> length t < 4 * 1024 * 1024"
    by (simp_all add: ex_dump_env_def ex_line_env_def line_safe_def lf_def cr_def)
  have sent: "lc_sent (fold (\<lambda>m c. fst (stdio_client_send ex_dump_env m c)) [JStr ''{}'', JStr ''[]''] ex_open_client)
      = lc_sent ex_open_client @ [''{}'' @ [lf], ''[]'' @ [lf]]"
    unfolding stdio_client_send_def
    by (subst client_sends_open [OF c texts(1)]) (simp_all add: client_max_line_def)
  have "concat [''{'', ''}'' @ [lf] @ ''['', '']'' @ [lf]] = concat [''{}'' @ [lf], ''[]'' @ [lf]]" by simp
  from stdio_messages_reach_server [OF ex_line_env_tame f s c texts sent this, of "[]"] show ?thesis by simp
qed


section \<open>From the server to the client\<close>

text \<open>A connection whose queue takes everything.\<close>

definition pipe_open :: "nat \<Rightarrow> pipe_transport \<Rightarrow> bool" where
  "pipe_open a s \<longleftrightarrow> a < length (lp_conns s) \<and> wq_active (pc_queue (lp_conns s ! a)) \<and> wq_max (pc_queue (lp_conns s ! a)) = 0"

lemma pipe_respond_open:
  assumes "pipe_open a s" "le_dump env m = Inr t"
  shows "pipe_open a (fst (pipe_respond env a m s)) \<and> lp_written (fst (pipe_respond env a m s)) = lp_written s @ [(a, t @ [lf])]"
  using assms by (auto simp: pipe_open_def pipe_respond_def pipe_enqueue_def enqueue_def Let_def upd_pipe_def)

lemma pipe_responds_open:
  assumes "pipe_open a s" "map (le_dump env) ms = map Inr ts"
  shows "lp_written (fold (\<lambda>m s. fst (pipe_respond env a m s)) ms s) = lp_written s @ map (\<lambda>t. (a, t @ [lf])) ts"
  using assms
proof (induction ms arbitrary: s ts)
  case (Cons m ms)
  then obtain t ts' where t: "ts = t # ts'" "le_dump env m = Inr t" "map (le_dump env) ms = map Inr ts'" by (cases ts) auto
  with pipe_respond_open [OF Cons.prems(1) t(2)] Cons.IH [OF _ t(3)] show ?case by simp
qed simp

text \<open>C17: A server's responses reach the client. What the pipe transport writes to a connection, arriving at the client
  in pieces of at most 64 KiB, makes the client's message handler run once for each response, in order; the
  client goes on reading. (Messages are written on one line, at least 64 KiB shorter than 16 MiB.)\<close>

theorem pipe_responses_reach_client:
  assumes "tame_env env" "le_handler env = Some f" "client_live c" "lc_on_message c" "lc_buf c = []"
    and "pipe_open a s" "map (le_dump senv) ms = map Inr ts" "map (le_parse env) ts = map Inr ms"
    and "\<forall>t \<in> set ts. line_safe t \<and> length t \<le> 16 * 1024 * 1024 - 65536"
    and "lp_written (fold (\<lambda>m s. fst (pipe_respond senv a m s)) ms s) = lp_written s @ w" "concat chunks = concat (map snd w)"
    and "\<forall>x \<in> set chunks. length x \<le> 65536"
  shows "snd (fold (arrive (\<lambda>sh. lc_buf (fst sh)) client_set_buf (client_ready (tame_env env)) (pipe_client_on_read env)) chunks (c, h))
      = fold (\<lambda>m h. snd (f m h)) ms h
    \<and> client_live (fst (fold (arrive (\<lambda>sh. lc_buf (fst sh)) client_set_buf (client_ready (tame_env env)) (pipe_client_on_read env)) chunks (c, h)))"
proof -
  let ?good = "\<lambda>ch :: line_client \<times> 'a. client_live (fst ch) \<and> lc_on_message (fst ch)"
  have "w = map (\<lambda>t. (a, t @ [lf])) ts" using pipe_responds_open [OF assms(6,7)] assms(10) by simp
  then have chunks: "concat chunks = join_lines ts" using assms(11) by (simp add: join_lines_concat comp_def)
  have run: "fold (arrive (\<lambda>sh. lc_buf (fst sh)) client_set_buf (client_ready (tame_env env)) (pipe_client_on_read env)) chunks (c, h)
      = pipe_client.reader.acts env ts (c, h)"
    unfolding pipe_client_on_read_def using assms(1,3,5,9,12) chunks
    by (intro pipe_client.reader.arrive_stream)
      (auto simp: client_ready_def client_fits_def client_max_line_def client_piece_def line_safe_def)
  have "?good (fold (\<lambda>l. client_act (pipe_client_handle_line env) (strip_eol l)) ts (c, h))
      \<and> snd (fold (\<lambda>l. client_act (pipe_client_handle_line env) (strip_eol l)) ts (c, h)) = fold (\<lambda>m h. snd (f m h)) ms (snd (c, h))"
  proof (rule fold_handled [OF assms(8), where good = ?good])
    fix t m and ch :: "line_client \<times> 'a"
    assume t: "t \<in> set ts" "le_parse env t = Inr m" and good: "?good ch"
    have handled: "lc_on_message (fst (fst (pipe_client_handle_line env t (fst ch) (snd ch))))"
      unfolding pipe_client_handle_line_def
      by (rule client_handle_keeps [where P = lc_on_message])
        (simp_all add: good pipe_client_caught_def client_error_def pipe_client_send_def client_send_on_message)
    have "line_safe t" using t(1) assms(9) by simp
    then have "strip_eol t = t" "t \<noteq> []" using line_safe_strip by (auto simp: line_safe_def)
    then show "?good (client_act (pipe_client_handle_line env) (strip_eol t) ch)
        \<and> snd (client_act (pipe_client_handle_line env) (strip_eol t) ch) = snd (f m (snd ch))"
      using good handled pipe_client.live [of "fst ch" env t "snd ch"] t(2) assms(2)
      by (simp add: client_act_def pipe_client_handle_line_def client_handle_message)
  qed (use assms(3,4) in simp)
  with run show ?thesis by (simp add: pipe_client.reader.acts_def)
qed

theorem pipe_responses_reach_client_witness:
  "snd (fold (arrive (\<lambda>sh. lc_buf (fst sh)) client_set_buf (client_ready (tame_env ex_line_env)) (pipe_client_on_read ex_line_env))
     [''{'', ''}'' @ [lf]] (new_line_client\<lparr>lc_reading := True, lc_stream := Some True, lc_on_message := True\<rparr>, [])) = [''{}'']"
proof -
  let ?c = "new_line_client\<lparr>lc_reading := True, lc_stream := Some True, lc_on_message := True\<rparr>"
  let ?s = "pipe_accepted True (pipe_start None ((LocalPipeTransport LocalPipeConfig)\<lparr>lp_io := True\<rparr>))"
  let ?f = "\<lambda>j h. (([] :: emission list, None :: exn option), h @ [case j of JStr t \<Rightarrow> t | _ \<Rightarrow> []])"
  have f: "le_handler ex_line_env = Some ?f" by (simp add: ex_line_env_def)
  have c: "client_live ?c" "lc_on_message ?c" "lc_buf ?c = []" by (simp_all add: client_live_def new_line_client_def)
  have s: "pipe_open 0 ?s"
    by (simp add: pipe_open_def pipe_accepted_def pipe_start_def LocalPipeTransport_def LocalPipeConfig_def pipe_log_def
        pipe_start_read_def upd_pipe_def Let_def make_write_queue_def)
  have texts: "map (le_dump ex_dump_env) [JStr ''{}''] = map Inr [''{}'']" "map (le_parse ex_line_env) [''{}''] = map Inr [JStr ''{}'']"
    "\<forall>t \<in> set [''{}'']. line_safe t \<and> length t \<le> 16 * 1024 * 1024 - 65536"
    by (simp_all add: ex_dump_env_def ex_line_env_def line_safe_def lf_def cr_def)
  have w: "lp_written (fold (\<lambda>m s. fst (pipe_respond ex_dump_env 0 m s)) [JStr ''{}''] ?s) = lp_written ?s @ [(0, ''{}'' @ [lf])]"
    by (subst pipe_responds_open [OF s texts(1)]) simp
  have chunks: "concat [''{'', ''}'' @ [lf]] = concat (map snd [(0 :: nat, ''{}'' @ [lf])])" "\<forall>x \<in> set [''{'', ''}'' @ [lf]]. length x \<le> 65536"
    by simp_all
  show ?thesis
    using pipe_responses_reach_client [OF ex_line_env_tame f c s texts w chunks, of "[]"] by simp
qed

end
