(* ===== verification/Process_Windows.thy ===== *)
theory Process_Windows
  imports Process "HOL-Library.Multiset"
begin

text \<open>
  Child processes on Windows (\<open>process.hpp\<close>, \<open>process.cpp\<close>): the pairs of pipe ends, \<open>spawn\<close>, waiting and ending, with
  the accounting of handles. A handle is a number, 0 for \<open>nullptr\<close> and -1 for \<open>INVALID_HANDLE_VALUE\<close>; the system keeps
  the handles that are open. What the calls to the system answer is a parameter.
\<close>

section \<open>Handles\<close>

definition INVALID_HANDLE :: int where "INVALID_HANDLE = -1"

text \<open>\<open>wy_bad\<close> tells that a handle was closed that was not open; \<open>wy_lent\<close> are the pipe ends that the caller has
  taken over; \<open>wy_launched\<close> the command lines, environment blocks and directories of the children.\<close>

record win_system =
  wy_open :: "int list"
  wy_bad :: bool
  wy_lent :: "int list"
  wy_launched :: "(string \<times> string option \<times> string option) list"

definition new_handle :: "int \<Rightarrow> win_system \<Rightarrow> win_system" where
  "new_handle x y = (if x = INVALID_HANDLE \<or> x = 0 then y else y\<lparr>wy_open := x # wy_open y\<rparr>)"

definition close_handle :: "int \<Rightarrow> win_system \<Rightarrow> win_system" where
  "close_handle x y = (if x \<in> set (wy_open y) then y\<lparr>wy_open := remove1 x (wy_open y)\<rparr> else y\<lparr>wy_bad := True\<rparr>)"


section \<open>A pair of pipe ends\<close>

definition unique_pipe_name :: "string \<Rightarrow> int \<Rightarrow> int \<Rightarrow> string" where
  "unique_pipe_name suffix pid n =
     [backslash, backslash] @ ''.'' @ [backslash] @ ''pipe'' @ [backslash] @ ''cppmcp-'' @ suffix @ ''-'' @ int_to_dec pid @ ''-'' @ int_to_dec n"

datatype connect_outcome = ConnectedNow | ConnectPending | AlreadyConnected | ConnectFails

text \<open>The answers: the server end, the event, \<open>ConnectNamedPipe\<close>, the client end, whether the pipe was busy when it
  failed, and the client end of the second attempt.\<close>

record pair_answers =
  pa_server :: int
  pa_event :: int
  pa_connect :: connect_outcome
  pa_client :: int
  pa_busy :: bool
  pa_retry :: int

text \<open>The result with the two output parameters; the client end stays as it was until it is opened.\<close>

definition make_overlapped_pair :: "pair_answers \<Rightarrow> int \<Rightarrow> win_system \<Rightarrow> (bool \<times> int \<times> int) \<times> win_system" where
  "make_overlapped_pair an client y =
     (let server = pa_server an; y1 = new_handle server y in
      if server = INVALID_HANDLE then ((False, server, client), y1)
      else
        let y2 = new_handle (pa_event an) y1 in
        if pa_event an = 0 then ((False, server, client), close_handle server y2)
        else if pa_connect an = ConnectFails
        then ((False, server, client), close_handle server (close_handle (pa_event an) y2))
        else
          let y3 = new_handle (pa_client an) y2;
              retry = (pa_client an = INVALID_HANDLE \<and> pa_busy an);
              client' = (if retry then pa_retry an else pa_client an);
              y4 = (if retry then new_handle (pa_retry an) y3 else y3)
          in if client' = INVALID_HANDLE
             then ((False, server, client'), close_handle server (close_handle (pa_event an) y4))
             else ((True, server, client'), close_handle (pa_event an) y4))"


section \<open>The process\<close>

record win_process =
  wp_child :: int
  wp_stdin :: int
  wp_stdout :: int
  wp_null :: int
  wp_exit :: int

definition WinProcess :: win_process where
  "WinProcess = \<lparr>wp_child = 0, wp_stdin = 0, wp_stdout = 0, wp_null = 0, wp_exit = -1\<rparr>"

text \<open>The answers of \<open>spawn\<close>: both pairs, the standard error handle, the handle of \<open>NUL\<close>, the environment of the
  parent, and \<open>CreateProcess\<close> with the handles of the process and of its thread.\<close>

record spawn_answers =
  sw_stdin :: pair_answers
  sw_stdout :: pair_answers
  sw_stderr :: int
  sw_null :: int
  sw_environment :: "string option"
  sw_created :: "(int \<times> int) option"

definition close_if_set :: "int \<Rightarrow> win_system \<Rightarrow> win_system" where
  "close_if_set x y = (if x \<noteq> 0 then close_handle x y else y)"

definition win_spawn ::
    "spawn_answers \<Rightarrow> string \<Rightarrow> string list \<Rightarrow> (string \<times> string) list \<Rightarrow> string \<Rightarrow> win_process \<times> win_system \<Rightarrow>
     (win_process \<times> win_system) \<times> exn option" where
  "win_spawn an executable args env working_dir py =
     (case py of (p, y) \<Rightarrow>
      case make_overlapped_pair (sw_stdin an) 0 y of ((ok1, in_server, in_client), y1) \<Rightarrow>
      let failed = (\<lambda>y. ((p, close_if_set in_client (close_if_set in_server y)),
                         Some (StdEx ''Process: overlapped pipe creation failed'')))
      in if \<not> ok1 then failed y1
      else case make_overlapped_pair (sw_stdout an) 0 y1 of ((ok2, out_server, out_client), y2) \<Rightarrow>
        if \<not> ok2 then failed y2
        else
          let own = (sw_stderr an = 0 \<or> sw_stderr an = INVALID_HANDLE);
              p1 = (if own then p\<lparr>wp_null := sw_null an\<rparr> else p);
              y3 = (if own then new_handle (sw_null an) y2 else y2);
              block = build_environment (sw_environment an) env;
              launched = (command_line executable args, if block = [] then None else Some block,
                          if working_dir = [] then None else Some working_dir);
              y4 = (case sw_created an of None \<Rightarrow> y3
                    | Some (process, thread) \<Rightarrow>
                        (new_handle thread (new_handle process y3))\<lparr>wy_launched := wy_launched y3 @ [launched]\<rparr>);
              y5 = close_handle out_client (close_handle in_client y4)
          in case sw_created an of
               None \<Rightarrow>
                 ((p1\<lparr>wp_null := 0\<rparr>, close_if_set (wp_null p1) (close_handle out_server (close_handle in_server y5))),
                  Some (StdEx (''Process: CreateProcess failed: '' @ executable)))
             | Some (process, thread) \<Rightarrow>
                 ((p1\<lparr>wp_child := process, wp_stdin := in_server, wp_stdout := out_server\<rparr>, close_handle thread y5), None))"

definition win_close_stdin :: "win_process \<times> win_system \<Rightarrow> win_process \<times> win_system" where
  "win_close_stdin py =
     (case py of (p, y) \<Rightarrow> if wp_stdin p \<noteq> 0 then (p\<lparr>wp_stdin := 0\<rparr>, close_handle (wp_stdin p) y) else (p, y))"

text \<open>The caller takes over an end of a pipe.\<close>

definition release_stdin :: "win_process \<times> win_system \<Rightarrow> win_process \<times> win_system" where
  "release_stdin py =
     (case py of (p, y) \<Rightarrow> (p\<lparr>wp_stdin := 0\<rparr>, if wp_stdin p \<noteq> 0 then y\<lparr>wy_lent := wp_stdin p # wy_lent y\<rparr> else y))"

definition release_stdout :: "win_process \<times> win_system \<Rightarrow> win_process \<times> win_system" where
  "release_stdout py =
     (case py of (p, y) \<Rightarrow> (p\<lparr>wp_stdout := 0\<rparr>, if wp_stdout p \<noteq> 0 then y\<lparr>wy_lent := wp_stdout p # wy_lent y\<rparr> else y))"

text \<open>\<open>wait_for_exit\<close>; \<open>exited\<close> is the exit code if the child ended in time.\<close>

definition win_wait_for_exit :: "int option \<Rightarrow> win_process \<times> win_system \<Rightarrow> bool \<times> win_process \<times> win_system" where
  "win_wait_for_exit exited py =
     (case py of (p, y) \<Rightarrow>
      if wp_child p = 0 then (True, p, y)
      else case exited of
        None \<Rightarrow> (False, p, y)
      | Some code \<Rightarrow> (True, p\<lparr>wp_exit := code, wp_child := 0\<rparr>, close_handle (wp_child p) y))"

definition win_terminate :: "win_process \<times> win_system \<Rightarrow> win_process \<times> win_system" where
  "win_terminate py =
     (case py of (p, y) \<Rightarrow>
      (p\<lparr>wp_stdin := 0, wp_stdout := 0, wp_child := 0, wp_null := 0\<rparr>,
       close_if_set (wp_null p) (close_if_set (wp_child p) (close_if_set (wp_stdout p) (close_if_set (wp_stdin p) y)))))"


section \<open>Who owns which handle\<close>

definition owned :: "win_process \<Rightarrow> int list" where
  "owned p = filter (\<lambda>x. x \<noteq> 0) [wp_child p, wp_stdin p, wp_stdout p, wp_null p]"

text \<open>Nothing was closed wrongly, and the open handles are those of others, of the process and of its caller.\<close>

definition accounted :: "int list \<Rightarrow> win_process \<times> win_system \<Rightarrow> bool" where
  "accounted base py \<longleftrightarrow> \<not> wy_bad (snd py) \<and> mset (wy_open (snd py)) = mset base + mset (owned (fst py)) + mset (wy_lent (snd py))"

text \<open>What the parent may do with the process, and the caller with the ends it took over.\<close>

inductive win_step :: "win_process \<times> win_system \<Rightarrow> win_process \<times> win_system \<Rightarrow> bool" where
  closes_stdin: "win_step py (win_close_stdin py)"
| releases_stdin: "win_step py (release_stdin py)"
| releases_stdout: "win_step py (release_stdout py)"
| waits: "win_step py (snd (win_wait_for_exit exited py))"
| terminates: "win_step py (win_terminate py)"
| caller_closes: "x \<in> set (wy_lent y) \<Longrightarrow> win_step (p, y) (p, close_handle x (y\<lparr>wy_lent := remove1 x (wy_lent y)\<rparr>))"

lemma close_owned:
  assumes "mset (wy_open y) = add_mset x M"
  shows "mset (wy_open (close_handle x y)) = M" "wy_bad (close_handle x y) = wy_bad y"
    "wy_lent (close_handle x y) = wy_lent y" "wy_launched (close_handle x y) = wy_launched y"
proof -
  have "x \<in> set (wy_open y)" using assms by (metis set_mset_mset union_single_eq_member)
  then show "mset (wy_open (close_handle x y)) = M" "wy_bad (close_handle x y) = wy_bad y"
      "wy_lent (close_handle x y) = wy_lent y" "wy_launched (close_handle x y) = wy_launched y"
    using assms by (simp_all add: close_handle_def)
qed

lemma close_if_owned:
  assumes "mset (wy_open y) = (if x = 0 then {#} else {#x#}) + M"
  shows "mset (wy_open (close_if_set x y)) = M \<and> wy_bad (close_if_set x y) = wy_bad y \<and> wy_lent (close_if_set x y) = wy_lent y"
  using assms close_owned [of y x M] by (simp add: close_if_set_def)

lemma owned_mset: "mset (owned p) = (if wp_stdin p = 0 then {#} else {#wp_stdin p#}) + ((if wp_stdout p = 0 then {#} else {#wp_stdout p#})
    + ((if wp_child p = 0 then {#} else {#wp_child p#}) + (if wp_null p = 0 then {#} else {#wp_null p#})))"
  by (simp add: owned_def)

lemma accounted_terminate:
  assumes "accounted base (p, y)"
  shows "accounted base (win_terminate (p, y)) \<and> owned (fst (win_terminate (p, y))) = [] \<and> wy_lent (snd (win_terminate (p, y))) = wy_lent y"
proof -
  let ?h = "\<lambda>x :: int. if x = 0 then {#} else {#x#}"
  let ?B = "mset base + mset (wy_lent y)"
  let ?y1 = "close_if_set (wp_stdin p) y"
  let ?y2 = "close_if_set (wp_stdout p) ?y1"
  let ?y3 = "close_if_set (wp_child p) ?y2"
  have 0: "mset (wy_open y) = ?h (wp_stdin p) + (?h (wp_stdout p) + (?h (wp_child p) + (?h (wp_null p) + ?B)))"
    using assms by (simp add: accounted_def owned_mset)
  note 1 = close_if_owned [OF 0]
  note 2 = close_if_owned [OF 1 [THEN conjunct1]]
  note 3 = close_if_owned [OF 2 [THEN conjunct1]]
  note 4 = close_if_owned [OF 3 [THEN conjunct1]]
  show ?thesis
    using 1 2 3 4 assms by (simp add: accounted_def win_terminate_def owned_def)
qed

lemma accounted_step: "win_step py py' \<Longrightarrow> accounted base py \<Longrightarrow> accounted base py'"
proof (induction rule: win_step.induct)
  case (closes_stdin py)
  obtain p y where py: "py = (p, y)" by (cases py)
  show ?case
  proof (cases "wp_stdin p = 0")
    case False
    then have "mset (wy_open y) = add_mset (wp_stdin p) (mset base + mset (owned (p\<lparr>wp_stdin := 0\<rparr>)) + mset (wy_lent y))"
      using closes_stdin py by (simp add: accounted_def owned_mset)
    from close_owned [OF this] show ?thesis
      using closes_stdin py False by (simp add: accounted_def win_close_stdin_def)
  qed (use closes_stdin py in \<open>simp add: win_close_stdin_def\<close>)
next
  case (waits py exited)
  obtain p y where py: "py = (p, y)" by (cases py)
  show ?case
  proof (cases "wp_child p = 0 \<or> exited = None")
    case False
    then obtain c where c: "exited = Some c" "wp_child p \<noteq> 0" by auto
    then have "mset (wy_open y) = add_mset (wp_child p) (mset base + mset (owned (p\<lparr>wp_exit := c, wp_child := 0\<rparr>)) + mset (wy_lent y))"
      using waits py by (simp add: accounted_def owned_mset)
    from close_owned [OF this] show ?thesis
      using waits py c by (simp add: accounted_def win_wait_for_exit_def)
  qed (use waits py in \<open>auto simp: win_wait_for_exit_def\<close>)
next
  case (terminates py)
  then show ?case using accounted_terminate by (cases py) blast
next
  case (caller_closes x y p)
  let ?y = "y\<lparr>wy_lent := remove1 x (wy_lent y)\<rparr>"
  have "mset (wy_open ?y) = add_mset x (mset base + mset (owned p) + mset (remove1 x (wy_lent y)))"
    using caller_closes by (simp add: accounted_def)
  from close_owned [OF this] show ?case using caller_closes by (simp add: accounted_def)
qed (auto simp: accounted_def owned_mset release_stdin_def release_stdout_def split: prod.splits)

interpretation win: invariant_system "accounted base" win_step "accounted base" for base
  by unfold_locales (auto intro: accounted_step)



section \<open>Spawning\<close>

text \<open>What the calls answer when they fail: \<open>CreateEvent\<close> 0, the calls that open pipes and files
  \<open>INVALID_HANDLE_VALUE\<close>; and never the other of the two.\<close>

definition valid_pair :: "pair_answers \<Rightarrow> bool" where
  "valid_pair an \<longleftrightarrow> pa_server an \<noteq> 0 \<and> pa_event an \<noteq> INVALID_HANDLE \<and> pa_client an \<noteq> 0 \<and> pa_retry an \<noteq> 0"

definition valid_answers :: "spawn_answers \<Rightarrow> bool" where
  "valid_answers an \<longleftrightarrow> valid_pair (sw_stdin an) \<and> valid_pair (sw_stdout an)
     \<and> sw_null an \<noteq> 0 \<and> sw_null an \<noteq> INVALID_HANDLE
     \<and> (\<forall>process thread. sw_created an = Some (process, thread) \<longrightarrow> process \<notin> {0, INVALID_HANDLE} \<and> thread \<notin> {0, INVALID_HANDLE})"

lemma new_handle_simps [simp]:
  "x \<noteq> 0 \<Longrightarrow> x \<noteq> INVALID_HANDLE \<Longrightarrow> mset (wy_open (new_handle x y)) = add_mset x (mset (wy_open y))"
  "wy_bad (new_handle x y) = wy_bad y" "wy_lent (new_handle x y) = wy_lent y" "wy_launched (new_handle x y) = wy_launched y"
  by (simp_all add: new_handle_def)

lemma invalid_handle_same [simp]: "new_handle INVALID_HANDLE y = y" "new_handle 0 y = y" "INVALID_HANDLE \<noteq> 0"
  by (simp_all add: new_handle_def INVALID_HANDLE_def)

text \<open>\<open>y'\<close> is \<open>y\<close> with more open handles.\<close>

definition opens :: "int multiset \<Rightarrow> win_system \<Rightarrow> win_system \<Rightarrow> bool" where
  "opens M y y' \<longleftrightarrow> mset (wy_open y') = M + mset (wy_open y) \<and> wy_bad y' = wy_bad y \<and> wy_lent y' = wy_lent y"

lemma opens_refl [simp]: "opens {#} y y"
  by (simp add: opens_def)

lemma opens_new: "opens M y y' \<Longrightarrow> x \<noteq> 0 \<Longrightarrow> x \<noteq> INVALID_HANDLE \<Longrightarrow> opens (add_mset x M) y (new_handle x y')"
  by (simp add: opens_def)

lemma opens_close: "opens (add_mset x M) y y' \<Longrightarrow> opens M y (close_handle x y')"
  using close_owned [of y' x "M + mset (wy_open y)"] by (simp add: opens_def)

lemma opens_trans: "opens M y y' \<Longrightarrow> opens N y' y'' \<Longrightarrow> opens (N + M) y y''"
  by (simp add: opens_def)

lemma overlapped_pair:
  assumes "valid_pair an" "make_overlapped_pair an 0 y = ((ok, sv, cl), y')"
  shows "if ok then opens {#sv, cl#} y y' \<and> sv \<noteq> 0 \<and> cl \<noteq> 0
    else opens {#} y y' \<and> sv = pa_server an \<and> (cl = 0 \<or> cl = INVALID_HANDLE)"
proof -
  let ?s = "new_handle (pa_server an) y"
  let ?e = "new_handle (pa_event an) ?s"
  show ?thesis
  proof (cases "pa_server an = INVALID_HANDLE")
    case False
    then have s: "opens {#pa_server an#} y ?s" using assms(1) opens_new [OF opens_refl] by (simp add: valid_pair_def)
    show ?thesis
    proof (cases "pa_event an = 0")
      case True
      then show ?thesis using assms(2) False opens_close [OF s] by (auto simp: make_overlapped_pair_def Let_def)
    next
      case ev: False
      then have e: "opens {#pa_event an, pa_server an#} y ?e" using assms(1) opens_new [OF s] by (simp add: valid_pair_def)
      have drop: "opens {#} y (close_handle (pa_server an) (close_handle (pa_event an) ?e))"
        by (rule opens_close [OF opens_close [OF e]])
      have keep: "opens {#pa_server an, x#} y (close_handle (pa_event an) (new_handle x ?e))"
        if "x \<noteq> 0" "x \<noteq> INVALID_HANDLE" for x
        using opens_close [of "pa_event an" "{#pa_server an, x#}" y] opens_new [OF e that] by (simp add: add_mset_commute)
      show ?thesis
        using assms False ev drop keep
        by (auto simp: make_overlapped_pair_def Let_def valid_pair_def split: if_splits)
    qed
  qed (use assms in \<open>auto simp: make_overlapped_pair_def valid_pair_def\<close>)
qed

lemma spawn_accounting:
  assumes valid: "valid_answers an" and y0: "accounted base (WinProcess, y0)" "wy_lent y0 = []"
    and pair: "fst (fst (make_overlapped_pair (sw_stdin an) 0 y0))"
    and spawn: "win_spawn an executable args env dir (WinProcess, y0) = ((p, y), e)"
  shows "accounted base (p, y) \<and> wy_lent y = [] \<and> (e \<noteq> None \<longrightarrow> owned p = [])"
proof -
  obtain sv1 cl1 y1 where 1: "make_overlapped_pair (sw_stdin an) 0 y0 = ((True, sv1, cl1), y1)"
    using pair by (metis (full_types) fst_conv prod.exhaust_sel)
  obtain ok2 sv2 cl2 y2 where 2: "make_overlapped_pair (sw_stdout an) 0 y1 = ((ok2, sv2, cl2), y2)" by (metis prod.exhaust_sel)
  have v: "valid_pair (sw_stdin an)" "valid_pair (sw_stdout an)" using valid by (simp_all add: valid_answers_def)
  have o1: "opens {#sv1, cl1#} y0 y1" "sv1 \<noteq> 0" "cl1 \<noteq> 0" using overlapped_pair [OF v(1) 1] by simp_all
  have own0: "accounted base (q, y)" if "opens (mset (owned q)) y0 y" for q y
    using that y0 by (simp add: opens_def accounted_def owned_def WinProcess_def)
  show ?thesis
  proof (cases ok2)
    case False
    then have "opens {#sv1, cl1#} y0 y2" using overlapped_pair [OF v(2) 2] opens_trans [OF o1(1)] by fastforce
    then have "opens {#} y0 (close_handle cl1 (close_handle sv1 y2))" by (intro opens_close)
    then show ?thesis
      using spawn own0 [of WinProcess] y0 o1 False
      by (auto simp: win_spawn_def 1 2 Let_def close_if_set_def owned_def WinProcess_def opens_def)
  next
    case True
    then have o2: "opens {#sv1, cl1, sv2, cl2#} y0 y2" "sv2 \<noteq> 0" "cl2 \<noteq> 0"
      using overlapped_pair [OF v(2) 2] opens_trans [OF o1(1), of "{#sv2, cl2#}" y2] by simp_all
    let ?own = "sw_stderr an = 0 \<or> sw_stderr an = INVALID_HANDLE"
    define N where "N = (if ?own then {#sw_null an#} else {#})"
    define y3 where "y3 = (if ?own then new_handle (sw_null an) y2 else y2)"
    have o3: "opens ({#cl2, cl1, sv1, sv2#} + N) y0 y3"
      using o2(1) opens_new [OF o2(1), of "sw_null an"] valid by (simp add: N_def y3_def valid_answers_def add_mset_commute)
    have close2: "opens ({#sv1, sv2#} + M) y0 (close_handle cl2 (close_handle cl1 y'))" if "opens ({#cl2, cl1, sv1, sv2#} + M) y0 y'" for M y'
      using opens_close [of cl2 _ y0] opens_close [of cl1 "add_mset cl2 ({#sv1, sv2#} + M)" y0 y'] that by (simp add: add_mset_commute)
    show ?thesis
    proof (cases "sw_created an")
      case None
      have "opens N y0 (close_handle sv2 (close_handle sv1 (close_handle cl2 (close_handle cl1 y3))))"
        by (rule opens_close [OF opens_close]) (use close2 [OF o3] in simp)
      then have "opens {#} y0 (close_if_set (if ?own then sw_null an else 0) (close_handle sv2 (close_handle sv1 (close_handle cl2 (close_handle cl1 y3)))))"
        using valid by (auto simp: N_def close_if_set_def valid_answers_def intro: opens_close)
      moreover have "p = WinProcess" "e \<noteq> None"
          "y = close_if_set (if ?own then sw_null an else 0) (close_handle sv2 (close_handle sv1 (close_handle cl2 (close_handle cl1 y3))))"
        using spawn True None by (auto simp: win_spawn_def 1 2 Let_def WinProcess_def y3_def)
      ultimately show ?thesis
        using own0 [of WinProcess y] y0 by (simp add: opens_def owned_def WinProcess_def)
    next
      case (Some c)
      obtain process thread where c: "sw_created an = Some (process, thread)" using Some by (cases c) simp
      let ?y4 = "(new_handle thread (new_handle process y3))\<lparr>wy_launched := wy_launched y3 @ [(command_line executable args,
          if build_environment (sw_environment an) env = [] then None else Some (build_environment (sw_environment an) env),
          if dir = [] then None else Some dir)]\<rparr>"
      have handles: "process \<noteq> 0" "process \<noteq> INVALID_HANDLE" "thread \<noteq> 0" "thread \<noteq> INVALID_HANDLE"
        using valid c by (auto simp: valid_answers_def)
      have "opens ({#cl2, cl1, sv1, sv2#} + (N + {#thread, process#})) y0 ?y4"
        using opens_new [OF opens_new [OF o3 handles(1,2)] handles(3,4)] by (simp add: opens_def add_mset_commute)
      from close2 [OF this] have "opens (add_mset thread ({#sv1, sv2, process#} + N)) y0 (close_handle cl2 (close_handle cl1 ?y4))"
        by (simp add: add_mset_commute)
      then have "opens ({#sv1, sv2, process#} + N) y0 (close_handle thread (close_handle cl2 (close_handle cl1 ?y4)))"
        by (rule opens_close)
      moreover have "p = \<lparr>wp_child = process, wp_stdin = sv1, wp_stdout = sv2, wp_null = (if ?own then sw_null an else 0), wp_exit = -1\<rparr>"
          "e = None" "y = close_handle thread (close_handle cl2 (close_handle cl1 ?y4))"
        using spawn True c by (auto simp: win_spawn_def 1 2 Let_def WinProcess_def y3_def)
      ultimately show ?thesis
        using own0 [of p y] y0 handles o1(2) o2(2) valid by (auto simp: opens_def owned_def N_def valid_answers_def add_mset_commute split: if_splits)
    qed
  qed
qed


lemma spawn_with_failed_pair:
  assumes "valid_pair (sw_stdin an)" "\<not> fst (fst (make_overlapped_pair (sw_stdin an) 0 y0))" "pa_server (sw_stdin an) \<notin> set (wy_open y0)"
  shows "wy_bad (snd (fst (win_spawn an executable args env dir (p, y0))))"
proof -
  obtain sv cl y1 where 1: "make_overlapped_pair (sw_stdin an) 0 y0 = ((False, sv, cl), y1)"
    using assms(2) by (metis (full_types) fst_conv prod.exhaust_sel)
  have o1: "opens {#} y0 y1" "sv = pa_server (sw_stdin an)" using overlapped_pair [OF assms(1) 1] by simp_all
  then have "mset (wy_open y1) = mset (wy_open y0)" by (simp add: opens_def)
  then have "set (wy_open y1) = set (wy_open y0)" by (rule mset_eq_setD)
  then have "wy_bad (close_handle sv y1)" using o1(2) assms(3) by (simp add: close_handle_def)
  moreover have "wy_bad (close_if_set x y)" if "wy_bad y" for x y using that by (simp add: close_handle_def close_if_set_def)
  moreover have "sv \<noteq> 0" using o1(2) assms(1) by (simp add: valid_pair_def)
  moreover from this have "close_if_set sv y1 = close_handle sv y1" by (simp add: close_if_set_def)
  moreover have "snd (fst (win_spawn an executable args env dir (p, y0))) = close_if_set cl (close_if_set sv y1)"
    by (simp add: win_spawn_def 1)
  ultimately show ?thesis by metis
qed


definition ex_answers :: "int \<Rightarrow> spawn_answers" where
  "ex_answers event = \<lparr>sw_stdin = \<lparr>pa_server = 10, pa_event = event, pa_connect = ConnectPending, pa_client = 12, pa_busy = False, pa_retry = INVALID_HANDLE\<rparr>,
     sw_stdout = \<lparr>pa_server = 13, pa_event = 14, pa_connect = AlreadyConnected, pa_client = INVALID_HANDLE, pa_busy = True, pa_retry = 15\<rparr>,
     sw_stderr = 0, sw_null = 16, sw_environment = None, sw_created = Some (17, 18)\<rparr>"


end
