(* ===== verification/Pipe_Windows.thy ===== *)
theory Pipe_Windows
  imports Pipe_Props Process_Windows
begin

text \<open>
  The local pipe transport on Windows (\<open>local_pipe_transport.cpp\<close>): a thread of its own accepts clients and posts each
  pipe handle to the event loop, which makes a connection of it. The thread is a state machine whose transitions
  are the calls to the system and the reads of \<open>running_\<close>; it interleaves with the event loop and with \<open>stop\<close>.
  Connections and what happens on them are those of \<open>Pipe\<close>; handles are accounted as in \<open>Process_Windows\<close>.
\<close>

section \<open>State\<close>

text \<open>Where the accept thread is; with the handle of the pipe and of the event. \<open>InnerDone\<close> and \<open>Decide\<close> hold the
  handle of a client that has connected.\<close>

datatype accept_pc =
    NotStarted | AtLoop | Creating | CreateFailed | Created int | Connecting int int | Pending int int
  | Awaiting int int | InnerDone "int option" int | Decide "int option" | Parked | Finished

text \<open>\<open>wl_posted\<close> are the tasks posted to the event loop, with handle and connection id; \<open>wl_handles\<close> the handle of each
  connection.\<close>

record win_pipes =
  wl_pipe :: pipe_transport
  wl_pc :: accept_pc
  wl_posted :: "(int \<times> int) list"
  wl_handles :: "int list"
  wl_sys :: win_system

definition win_pipe_path :: "pipe_config \<Rightarrow> string" where
  "win_pipe_path cfg = [backslash, backslash] @ ''.'' @ [backslash] @ ''pipe'' @ [backslash] @ lp_name cfg"

definition win_pipes_start :: "win_pipes \<Rightarrow> win_pipes" where
  "win_pipes_start w =
     (let s = wl_pipe w in
      if \<not> lp_io s then w\<lparr>wl_pipe := pipe_error ''LocalPipeTransport: no io_context set'' s\<rparr>
      else w\<lparr>wl_pc := AtLoop, wl_pipe := pipe_log (''[cppmcp] Local pipe server starting on '' @ win_pipe_path (lp_config s)
        @ '' (mode: '' @ (if lp_mode (lp_config s) = SingleClient then ''SingleClient'' else ''MultiClient'') @ '', asio async)'')
        (s\<lparr>lp_running := True\<rparr>)\<rparr>)"


section \<open>The accept thread\<close>

text \<open>What the calls answer: \<open>CreateNamedPipe\<close> a handle or an error, \<open>CreateEvent\<close> (0 when it fails), \<open>ConnectNamedPipe\<close>,
  and \<open>WaitForSingleObjectEx\<close> with the result of \<open>GetOverlappedResult\<close>.\<close>

datatype wait_result = Signalled "int option" | TimedOut | WaitError

record accept_answers =
  aa_pipe :: "int + int"
  aa_event :: int
  aa_connect :: connect_outcome
  aa_error :: int
  aa_wait :: wait_result

definition ERROR_OPERATION_ABORTED :: int where "ERROR_OPERATION_ABORTED = 995"

definition wl_close :: "int \<Rightarrow> win_pipes \<Rightarrow> win_pipes" where
  "wl_close h w = w\<lparr>wl_sys := close_handle h (wl_sys w)\<rparr>"

definition wl_error :: "string \<Rightarrow> win_pipes \<Rightarrow> win_pipes" where
  "wl_error e w = w\<lparr>wl_pipe := pipe_error e (wl_pipe w)\<rparr>"

definition accept_thread :: "accept_answers \<Rightarrow> win_pipes \<Rightarrow> win_pipes" where
  "accept_thread an w =
     (let running = lp_running (wl_pipe w); single = (lp_mode (lp_config (wl_pipe w)) = SingleClient) in
      case wl_pc w of
        NotStarted \<Rightarrow> w
      | AtLoop \<Rightarrow> w\<lparr>wl_pc := (if running then Creating else Finished)\<rparr>
      | Creating \<Rightarrow>
          (case aa_pipe an of
             Inl err \<Rightarrow> (wl_error (''CreateNamedPipe failed: '' @ int_to_dec err) w)\<lparr>wl_pc := CreateFailed\<rparr>
           | Inr h \<Rightarrow> w\<lparr>wl_sys := new_handle h (wl_sys w), wl_pc := Created h\<rparr>)
      | CreateFailed \<Rightarrow> w\<lparr>wl_pc := (if running then AtLoop else Finished)\<rparr>
      | Created h \<Rightarrow>
          if aa_event an = 0 then (wl_close h w)\<lparr>wl_pc := AtLoop\<rparr>
          else w\<lparr>wl_sys := new_handle (aa_event an) (wl_sys w), wl_pc := Connecting h (aa_event an)\<rparr>
      | Connecting h ev \<Rightarrow>
          (case aa_connect an of
             ConnectPending \<Rightarrow> w\<lparr>wl_pc := Pending h ev\<rparr>
           | ConnectFails \<Rightarrow>
               (wl_error (''ConnectNamedPipe failed: '' @ int_to_dec (aa_error an)) (wl_close h w))\<lparr>wl_pc := InnerDone None ev\<rparr>
           | _ \<Rightarrow> w\<lparr>wl_pc := InnerDone (Some h) ev\<rparr>)
      | Pending h ev \<Rightarrow> w\<lparr>wl_pc := (if running then Awaiting h ev else InnerDone None ev)\<rparr>
      | Awaiting h ev \<Rightarrow>
          (case aa_wait an of
             Signalled None \<Rightarrow> w\<lparr>wl_pc := InnerDone (Some h) ev\<rparr>
           | Signalled (Some err) \<Rightarrow>
               (if err = ERROR_OPERATION_ABORTED then wl_close h w
                else wl_error (''ConnectNamedPipe async failed: '' @ int_to_dec err) (wl_close h w))\<lparr>wl_pc := InnerDone None ev\<rparr>
           | TimedOut \<Rightarrow>
               if running then w\<lparr>wl_pc := Pending h ev\<rparr> else (wl_close h w)\<lparr>wl_pc := InnerDone None ev\<rparr>
           | WaitError \<Rightarrow> (wl_close h w)\<lparr>wl_pc := InnerDone None ev\<rparr>)
      | InnerDone got ev \<Rightarrow> (wl_close ev w)\<lparr>wl_pc := Decide got\<rparr>
      | Decide got \<Rightarrow>
          if \<not> running then w\<lparr>wl_pc := Finished\<rparr>
          else (case got of
            None \<Rightarrow> w\<lparr>wl_pc := AtLoop\<rparr>
          | Some h \<Rightarrow> w\<lparr>wl_posted := wl_posted w @ [(h, lp_next_id (wl_pipe w))],
                        wl_pipe := (wl_pipe w)\<lparr>lp_next_id := lp_next_id (wl_pipe w) + 1\<rparr>,
                        wl_pc := (if single then Parked else AtLoop)\<rparr>)
      | Parked \<Rightarrow> if running then w else w\<lparr>wl_pc := Finished\<rparr>
      | Finished \<Rightarrow> w)"


section \<open>The event loop\<close>

text \<open>A posted task; \<open>failed\<close> is the message when the handle cannot be assigned.\<close>

definition assign_pipe :: "string option \<Rightarrow> win_pipes \<Rightarrow> win_pipes" where
  "assign_pipe failed w =
     (case wl_posted w of [] \<Rightarrow> w
      | (h, i) # rest \<Rightarrow>
          (let w1 = w\<lparr>wl_posted := rest\<rparr>; s = wl_pipe w; cfg = lp_config s; a = length (lp_conns s) in
           case failed of
             Some m \<Rightarrow> wl_error (''Failed to assign pipe handle: '' @ m) (wl_close h w1)
           | None \<Rightarrow>
               let c = \<lparr>pc_buf = [], pc_reading = False, pc_open = True,
                        pc_queue = make_write_queue (lp_queue_max cfg) (lp_queue_policy cfg),
                        pc_active = True, pc_id = i, pc_max_line = lp_max_line cfg\<rparr>;
                   s1 = s\<lparr>lp_conns := lp_conns s @ [c], lp_active := lp_active s @ [a]\<rparr>
               in w1\<lparr>wl_handles := wl_handles w @ [h],
                     wl_pipe := pipe_log (''[cppmcp] Client #'' @ int_to_dec i @ '' connected on pipe'') (pipe_start_read a s1)\<rparr>))"

text \<open>\<open>stop\<close> closes the handle of every active connection; then it waits for the thread.\<close>

definition open_handles :: "win_pipes \<Rightarrow> nat list \<Rightarrow> int list" where
  "open_handles w as = map ((!) (wl_handles w)) (filter (\<lambda>a. pc_open (lp_conns (wl_pipe w) ! a)) as)"

definition win_pipes_stop :: "win_pipes \<Rightarrow> win_pipes" where
  "win_pipes_stop w =
     (if \<not> lp_running (wl_pipe w) then w
      else w\<lparr>wl_sys := fold close_handle (open_handles w (lp_active (wl_pipe w))) (wl_sys w), wl_pipe := pipe_stop (wl_pipe w)\<rparr>)"

text \<open>What happens on connections.\<close>

inductive conn_step :: "'h line_env set \<Rightarrow> pipe_transport \<times> 'h \<Rightarrow> pipe_transport \<times> 'h \<Rightarrow> bool" for envs where
  bytes: "conn_step envs (s, h) (upd_pipe a (\<lambda>c. c\<lparr>pc_buf := pc_buf c @ chunk\<rparr>) s, h)"
| line: "env \<in> envs \<Longrightarrow> pc_reading (lp_conns s ! a) \<Longrightarrow> read_until (pc_buf (lp_conns s ! a)) = Some n \<Longrightarrow>
    conn_step envs (s, h) (handle_read_completion env a n (s, h))"
| read_error: "conn_step envs (s, h) (pipe_read_failed a s, h)"
| write_error: "conn_step envs (s, h) (pipe_on_error a s, h)"
| written: "conn_step envs (s, h) (upd_pipe a (\<lambda>c. c\<lparr>pc_queue := q\<rparr>) s, h)"
| deferred: "env \<in> envs \<Longrightarrow> conn_step envs (s, h) (fst (pipe_respond env a r s), h)"
| send: "env \<in> envs \<Longrightarrow> conn_step envs (s, h) (fst (pipe_send_message env m s), h)"
| handler: "conn_step envs (s, h) (s, h')"

text \<open>The whole transport. The calls answer with handles when they succeed.\<close>

inductive win_pipes_step :: "'h line_env set \<Rightarrow> win_pipes \<times> 'h \<Rightarrow> win_pipes \<times> 'h \<Rightarrow> bool" for envs where
  start: "wl_pc w = NotStarted \<Longrightarrow> win_pipes_step envs (w, h) (win_pipes_start w, h)"
| thread: "(\<And>x. aa_pipe an = Inr x \<Longrightarrow> x \<noteq> 0 \<and> x \<noteq> INVALID_HANDLE) \<Longrightarrow> aa_event an \<noteq> INVALID_HANDLE \<Longrightarrow>
    win_pipes_step envs (w, h) (accept_thread an w, h)"
| task: "win_pipes_step envs (w, h) (assign_pipe failed w, h)"
| conn: "conn_step envs (wl_pipe w, h) (s, h') \<Longrightarrow> win_pipes_step envs (w, h) (w\<lparr>wl_pipe := s\<rparr>, h')"
| stopped: "win_pipes_step envs (w, h) (win_pipes_stop w, h)"

definition win_pipes_init :: "pipe_config \<Rightarrow> bool \<Rightarrow> win_system \<Rightarrow> win_pipes" where
  "win_pipes_init cfg io y = \<lparr>wl_pipe = (LocalPipeTransport cfg)\<lparr>lp_io := io\<rparr>, wl_pc = NotStarted, wl_posted = [], wl_handles = [],
     wl_sys = y\<rparr>"


section \<open>What connections leave alone\<close>

definition conn_calm :: "pipe_transport \<Rightarrow> pipe_transport \<Rightarrow> bool" where
  "conn_calm s t \<longleftrightarrow> map pc_open (lp_conns t) = map pc_open (lp_conns s) \<and> lp_running t = lp_running s \<and> lp_config t = lp_config s
     \<and> lp_io t = lp_io s \<and> lp_next_id t = lp_next_id s
     \<and> (distinct (lp_active s) \<longrightarrow> distinct (lp_active t)) \<and> set (lp_active t) \<subseteq> set (lp_active s)"

lemma conn_calm_refl [simp]: "conn_calm s s"
  by (simp add: conn_calm_def)

lemma conn_calm_trans: "conn_calm s t \<Longrightarrow> conn_calm t u \<Longrightarrow> conn_calm s u"
  unfolding conn_calm_def by auto

lemma conn_calm_fields [simp]:
  "conn_calm s (t\<lparr>lp_written := w\<rparr>) = conn_calm s t" "conn_calm s (t\<lparr>lp_undefined := u\<rparr>) = conn_calm s t"
  "conn_calm s (t\<lparr>lp_escaped := e\<rparr>) = conn_calm s t" "conn_calm s (pipe_error m t) = conn_calm s t" "conn_calm s (pipe_log m t) = conn_calm s t"
  by (simp_all add: conn_calm_def pipe_error_def pipe_log_def)

lemma conn_calm_upd:
  assumes "conn_calm s t" "\<And>c. pc_open (f c) = pc_open c"
  shows "conn_calm s (upd_pipe a f t)"
proof -
  have "map pc_open ((lp_conns t)[a := f (lp_conns t ! a)]) = map pc_open (lp_conns t)"
    using assms(2) by (cases "a < length (lp_conns t)") (simp_all add: map_update list_update_beyond list_update_same_conv)
  then show ?thesis using assms(1) by (simp add: conn_calm_def upd_pipe_def)
qed

lemma conn_calm_on_error: "conn_calm s t \<Longrightarrow> conn_calm s (pipe_on_error a t)"
proof -
  assume "conn_calm s t"
  then have "conn_calm s (upd_pipe a (\<lambda>c. c\<lparr>pc_active := False\<rparr>) (upd_pipe a (\<lambda>c. c\<lparr>pc_active := False\<rparr>) t))"
    by (intro conn_calm_upd) simp_all
  with \<open>conn_calm s t\<close> show ?thesis
    by (auto simp: pipe_on_error_def unregister_connection_def conn_calm_def distinct_removeAll)
qed

lemma conn_calm_enqueue: "conn_calm s t \<Longrightarrow> conn_calm s (pipe_enqueue l a d t)"
  by (auto simp: pipe_enqueue_def Let_def intro!: conn_calm_on_error conn_calm_upd split: prod.split enqueue_outcome.split)

lemma conn_calm_respond: "conn_calm s t \<Longrightarrow> conn_calm s (fst (pipe_respond env a m t))"
  by (auto simp: pipe_respond_def intro: conn_calm_enqueue split: sum.split)

lemma conn_calm_send: "conn_calm s t \<Longrightarrow> conn_calm s (fst (pipe_send_message env m t))"
proof -
  assume t: "conn_calm s t"
  have "conn_calm s (fold (\<lambda>b s. if pc_active (lp_conns s ! b) then pipe_enqueue True b x s else s) ks t)" for x ks
    using t by (induction ks arbitrary: t) (simp_all add: conn_calm_enqueue)
  then show ?thesis using t by (simp add: pipe_send_message_def split: sum.split)
qed

lemma conn_calm_line: "conn_calm s t \<Longrightarrow> conn_calm s (fst (fst (pipe_handle_line env b l t h)))"
  unfolding pipe_handle_line_def
  by (rule handle_line_keeps)
    (auto simp: conn_calm_respond conn_calm_send pipe_caught_def pipe_parse_failed_def conn_calm_enqueue pipe_respond_def split: sum.split)

lemma conn_calm_completion: "conn_calm s (fst (handle_read_completion env a n (s, h)))"
proof -
  let ?s = "upd_pipe a (\<lambda>c. c\<lparr>pc_buf := drop n (pc_buf c), pc_reading := False\<rparr>) s"
  have s: "conn_calm s ?s" by (rule conn_calm_upd) simp_all
  have refused: "conn_calm s (fst (case pipe_respond env a r ?s of (s2, None) \<Rightarrow> (pipe_on_error a s2, h)
      | (s2, Some e) \<Rightarrow> (s2\<lparr>lp_escaped := Some e\<rparr>, h)))" for r
    using conn_calm_respond [OF s, of env a r] by (auto simp: conn_calm_on_error split: prod.split option.split)
  have "conn_calm s (fst (case x of ((s2, h2), None) \<Rightarrow> (if pc_active (lp_conns s2 ! a) then pipe_start_read a s2 else s2, h2)
      | ((s2, h2), Some e) \<Rightarrow> (s2\<lparr>lp_escaped := Some e\<rparr>, h2)))"
    if "conn_calm s (fst (fst x))" for x :: "(pipe_transport \<times> 'a) \<times> exn option"
    using that by (auto simp: pipe_start_read_def intro!: conn_calm_upd split: prod.split option.split)
  moreover have "conn_calm s (fst (fst (if l \<noteq> [] then pipe_handle_line env a l ?s h else ((?s, h), None))))" for l
    using conn_calm_line [OF s, of env a l h] s by simp
  ultimately show ?thesis
    using refused by (simp add: handle_read_completion_def Let_def)
qed

lemma conn_calm_step: "conn_step envs x y \<Longrightarrow> conn_calm (fst x) (fst y)"
proof (induction rule: conn_step.induct)
  case (read_error s h a)
  have "conn_calm s (upd_pipe a (\<lambda>c. c\<lparr>pc_reading := False\<rparr>) s)" by (rule conn_calm_upd) simp_all
  then show ?case by (simp add: pipe_read_failed_def conn_calm_on_error)
qed (simp_all add: conn_calm_upd conn_calm_completion conn_calm_on_error conn_calm_respond conn_calm_send)



section \<open>The invariant\<close>

text \<open>The handles the thread holds.\<close>

fun thread_handles :: "accept_pc \<Rightarrow> int list" where
  "thread_handles (Created h) = [h]"
| "thread_handles (Connecting h ev) = [h, ev]"
| "thread_handles (Pending h ev) = [h, ev]"
| "thread_handles (Awaiting h ev) = [h, ev]"
| "thread_handles (InnerDone got ev) = ev # (case got of None \<Rightarrow> [] | Some h \<Rightarrow> [h])"
| "thread_handles (Decide got) = (case got of None \<Rightarrow> [] | Some h \<Rightarrow> [h])"
| "thread_handles _ = []"

definition conn_handles :: "win_pipes \<Rightarrow> int list" where
  "conn_handles w = open_handles w [0..<length (lp_conns (wl_pipe w))]"

definition held :: "win_pipes \<Rightarrow> int multiset" where
  "held w = mset (thread_handles (wl_pc w)) + mset (map fst (wl_posted w)) + mset (conn_handles w)"

text \<open>In the mode for a single client, how many clients there may be: one once the thread has stopped accepting.\<close>

definition slots :: "accept_pc \<Rightarrow> nat" where
  "slots pc = (if pc \<in> {Parked, Finished} then 1 else 0)"

definition winv :: "pipe_config \<Rightarrow> int list \<Rightarrow> win_pipes \<times> 'h \<Rightarrow> bool" where
  "winv cfg base wh \<longleftrightarrow> (let w = fst wh; s = wl_pipe w in
     lp_config s = cfg \<and> \<not> wy_bad (wl_sys w) \<and> length (wl_handles w) = length (lp_conns s)
     \<and> distinct (lp_active s) \<and> set (lp_active s) \<subseteq> {..<length (lp_conns s)} \<and> (wl_pc w = NotStarted \<longrightarrow> \<not> lp_running s)
     \<and> (\<exists>lost. mset (wy_open (wl_sys w)) = mset base + held w + lost \<and> (lp_running s \<or> wl_pc w = NotStarted \<longrightarrow> lost = {#}))
     \<and> (lp_mode cfg = SingleClient \<longrightarrow> length (lp_conns s) + length (wl_posted w) \<le> slots (wl_pc w)))"

lemma wl_close_simps [simp]:
  "wl_pipe (wl_close h w) = wl_pipe w" "wl_posted (wl_close h w) = wl_posted w" "wl_handles (wl_close h w) = wl_handles w"
  "wl_sys (wl_close h w) = close_handle h (wl_sys w)" "wl_pc (wl_close h w) = wl_pc w"
  "wl_posted (wl_error e w) = wl_posted w" "wl_handles (wl_error e w) = wl_handles w" "wl_sys (wl_error e w) = wl_sys w"
  "wl_pc (wl_error e w) = wl_pc w" "wl_pipe (wl_error e w) = pipe_error e (wl_pipe w)"
  by (simp_all add: wl_close_def wl_error_def)

lemma pipe_note_simps [simp]:
  "lp_config (pipe_error e s) = lp_config s" "lp_conns (pipe_error e s) = lp_conns s" "lp_active (pipe_error e s) = lp_active s"
  "lp_running (pipe_error e s) = lp_running s" "lp_config (pipe_log e s) = lp_config s" "lp_conns (pipe_log e s) = lp_conns s"
  "lp_active (pipe_log e s) = lp_active s" "lp_running (pipe_log e s) = lp_running s"
  by (simp_all add: pipe_error_def pipe_log_def)

lemma conn_handles_cong:
  "wl_handles w' = wl_handles w \<Longrightarrow> map pc_open (lp_conns (wl_pipe w')) = map pc_open (lp_conns (wl_pipe w)) \<Longrightarrow> conn_handles w' = conn_handles w"
proof -
  assume h: "wl_handles w' = wl_handles w" and m: "map pc_open (lp_conns (wl_pipe w')) = map pc_open (lp_conns (wl_pipe w))"
  then have len: "length (lp_conns (wl_pipe w')) = length (lp_conns (wl_pipe w))" by (metis length_map)
  have "pc_open (lp_conns (wl_pipe w') ! a) = pc_open (lp_conns (wl_pipe w) ! a)" if "a < length (lp_conns (wl_pipe w))" for a
    using m len that by (metis nth_map)
  with h len show ?thesis
    unfolding conn_handles_def open_handles_def by (auto intro!: arg_cong2 [of _ _ _ _ map] filter_cong)
qed

text \<open>A step of the thread that keeps, opens or closes handles.\<close>

lemma winv_thread:
  assumes w: "winv cfg base (w, h)"
    and same: "wl_handles w' = wl_handles w" "lp_conns (wl_pipe w') = lp_conns (wl_pipe w)" "lp_active (wl_pipe w') = lp_active (wl_pipe w)"
      "lp_config (wl_pipe w') = lp_config (wl_pipe w)" "lp_running (wl_pipe w') = lp_running (wl_pipe w)"
    and pc: "wl_pc w \<noteq> NotStarted" "wl_pc w' \<noteq> NotStarted"
    and bad: "\<not> wy_bad (wl_sys w')"
    and bal: "mset (wy_open (wl_sys w')) + mset (thread_handles (wl_pc w)) + mset (map fst (wl_posted w))
        = mset (wy_open (wl_sys w)) + mset (thread_handles (wl_pc w')) + mset (map fst (wl_posted w')) + gone"
    and gone: "lp_running (wl_pipe w) \<Longrightarrow> gone = {#}"
    and single: "lp_mode cfg = SingleClient \<Longrightarrow> length (wl_posted w') + slots (wl_pc w) \<le> length (wl_posted w) + slots (wl_pc w')"
  shows "winv cfg base (w', h')"
proof -
  have ch: "conn_handles w' = conn_handles w" by (rule conn_handles_cong) (simp_all add: same)
  obtain lost where lost: "mset (wy_open (wl_sys w)) = mset base + held w + lost" "lp_running (wl_pipe w) \<Longrightarrow> lost = {#}"
    using w by (auto simp: winv_def Let_def)
  have "mset (wy_open (wl_sys w')) = mset base + held w' + (lost + gone)"
    using bal lost(1) by (simp add: held_def ch multiset_eq_iff)
  moreover have "lp_running (wl_pipe w') \<Longrightarrow> lost + gone = {#}" using lost(2) gone same by simp
  moreover have "lp_mode cfg = SingleClient \<longrightarrow> length (lp_conns (wl_pipe w')) + length (wl_posted w') \<le> slots (wl_pc w')"
    using w single same(2) by (auto simp: winv_def Let_def)
  ultimately show ?thesis
    using w same bad pc by (auto simp: winv_def Let_def)
qed


lemma close_held:
  assumes "winv cfg base (w, h)" "x \<in> set (thread_handles (wl_pc w))"
  shows "mset (wy_open (close_handle x (wl_sys w))) + {#x#} = mset (wy_open (wl_sys w))" "\<not> wy_bad (close_handle x (wl_sys w))"
proof -
  have "x \<in># held w" using assms(2) by (simp add: held_def)
  moreover obtain lost where "mset (wy_open (wl_sys w)) = mset base + held w + lost" using assms(1) by (auto simp: winv_def Let_def)
  ultimately have "x \<in># mset (wy_open (wl_sys w))" by (metis UnCI set_mset_union)
  then have m: "mset (wy_open (wl_sys w)) = add_mset x (mset (wy_open (wl_sys w)) - {#x#})" by simp
  show "mset (wy_open (close_handle x (wl_sys w))) + {#x#} = mset (wy_open (wl_sys w))" "\<not> wy_bad (close_handle x (wl_sys w))"
    using close_owned(1,2) [OF m] m assms(1) by (simp_all add: winv_def Let_def)
qed

lemma winv_accept_thread:
  assumes w: "winv cfg base (w, h)"
    and an: "\<And>x. aa_pipe an = Inr x \<Longrightarrow> x \<noteq> 0 \<and> x \<noteq> INVALID_HANDLE" "aa_event an \<noteq> INVALID_HANDLE"
  shows "winv cfg base (accept_thread an w, h)"
proof -
  note thread = winv_thread [OF w]
  have good: "\<not> wy_bad (wl_sys w)" and cfg: "lp_config (wl_pipe w) = cfg" using w by (simp_all add: winv_def Let_def)
  show ?thesis
  proof (cases "wl_pc w")
    case NotStarted
    then show ?thesis using w by (simp add: accept_thread_def Let_def)
  next
    case AtLoop
    then show ?thesis
      using good by (intro thread [where gone = "{#}"]) (simp_all add: accept_thread_def Let_def slots_def)
  next
    case Creating
    then show ?thesis
      using good an(1) by (intro thread [where gone = "{#}"]) (auto simp: accept_thread_def Let_def slots_def split: sum.split)
  next
    case CreateFailed
    then show ?thesis
      using good by (intro thread [where gone = "{#}"]) (simp_all add: accept_thread_def Let_def slots_def)
  next
    case (Created x)
    note c = close_held [OF w, of x]
    show ?thesis
      using good an(2) Created c by (intro thread [where gone = "{#}"]) (auto simp: accept_thread_def Let_def slots_def)
  next
    case (Connecting x ev)
    note c = close_held [OF w, of x]
    show ?thesis
      using good Connecting c
      by (intro thread [where gone = "{#}"]) (auto simp: accept_thread_def Let_def slots_def add_mset_commute split: connect_outcome.split)
  next
    case (Pending x ev)
    then show ?thesis
      using good by (intro thread [where gone = "if lp_running (wl_pipe w) then {#} else {#x#}"])
        (simp_all add: accept_thread_def Let_def slots_def add_mset_commute)
  next
    case (Awaiting x ev)
    note c = close_held [OF w, of x]
    show ?thesis
      using good Awaiting c
      by (intro thread [where gone = "{#}"])
        (auto simp: accept_thread_def Let_def slots_def add_mset_commute split: wait_result.split option.split)
  next
    case (InnerDone got ev)
    note c = close_held [OF w, of ev]
    show ?thesis
      using good InnerDone c
      by (intro thread [where gone = "{#}"]) (auto simp: accept_thread_def Let_def slots_def split: option.split)
  next
    case (Decide got)
    then show ?thesis
      using good cfg
      by (intro thread [where gone = "if lp_running (wl_pipe w) then {#} else mset (thread_handles (Decide got))"])
        (auto simp: accept_thread_def Let_def slots_def split: option.split)
  next
    case Parked
    then show ?thesis
      using good by (intro thread [where gone = "{#}"]) (simp_all add: accept_thread_def Let_def slots_def)
  next
    case Finished
    then show ?thesis using w by (simp add: accept_thread_def Let_def)
  qed
qed

text \<open>A task makes a connection of a posted handle.\<close>

lemma winv_assign:
  assumes w: "winv cfg base (w, h)"
  shows "winv cfg base (assign_pipe failed w, h)"
proof (cases "wl_posted w")
  case Nil
  then show ?thesis using w by (simp add: assign_pipe_def)
next
  case (Cons p rest)
  obtain x i where p: "p = (x, i)" by (cases p)
  let ?w = "assign_pipe failed w"
  let ?n = "length (lp_conns (wl_pipe w))"
  obtain lost where lost: "mset (wy_open (wl_sys w)) = mset base + held w + lost"
      "lp_running (wl_pipe w) \<or> wl_pc w = NotStarted \<Longrightarrow> lost = {#}" using w by (auto simp: winv_def Let_def)
  have len: "length (wl_handles w) = ?n" and act: "set (lp_active (wl_pipe w)) \<subseteq> {..<?n}" using w by (simp_all add: winv_def Let_def)
  show ?thesis
  proof (cases failed)
    case (Some m)
    have m: "mset (wy_open (wl_sys w)) = add_mset x (mset base + mset (thread_handles (wl_pc w)) + mset (map fst rest) + mset (conn_handles w) + lost)"
      using lost(1) Cons p by (simp add: held_def)
    have "conn_handles ?w = conn_handles w"
      by (rule conn_handles_cong) (simp_all add: assign_pipe_def Cons p Some)
    then show ?thesis
      using w lost close_owned(1,2) [OF m] by (auto simp: winv_def Let_def assign_pipe_def Cons p Some held_def)
  next
    case None
    obtain c where conns: "lp_conns (wl_pipe ?w) = lp_conns (wl_pipe w) @ [c]" "pc_open c"
      by (simp add: assign_pipe_def Cons p None Let_def pipe_start_read_def upd_pipe_def)
    have rest: "wl_handles ?w = wl_handles w @ [x]" "wl_posted ?w = rest" "wl_pc ?w = wl_pc w" "wl_sys ?w = wl_sys w"
        "lp_active (wl_pipe ?w) = lp_active (wl_pipe w) @ [?n]" "lp_config (wl_pipe ?w) = lp_config (wl_pipe w)"
        "lp_running (wl_pipe ?w) = lp_running (wl_pipe w)"
      by (simp_all add: assign_pipe_def Cons p None Let_def pipe_start_read_def upd_pipe_def)
    have ch: "conn_handles ?w = conn_handles w @ [x]"
    proof -
      have f: "filter (\<lambda>a. pc_open ((lp_conns (wl_pipe w) @ [c]) ! a)) [0..<?n] = filter (\<lambda>a. pc_open (lp_conns (wl_pipe w) ! a)) [0..<?n]"
        by (rule filter_cong) (simp_all add: nth_append)
      have "map ((!) (wl_handles w @ [x])) (filter P [0..<?n]) = map ((!) (wl_handles w)) (filter P [0..<?n])" for P
        using len by (auto simp: nth_append)
      moreover have "(wl_handles w @ [x]) ! ?n = x" using len by (simp add: nth_append)
      ultimately show ?thesis
        by (simp add: conn_handles_def open_handles_def rest(1) conns f)
    qed
    have "mset (wy_open (wl_sys ?w)) = mset base + held ?w + lost"
      using lost(1) Cons p by (simp add: held_def ch rest)
    then show ?thesis
      using w len act lost(2) Cons by (auto simp: winv_def Let_def rest conns(1) simp del: upt_Suc)
  qed
qed


text \<open>Stopping closes the handles of the active connections.\<close>

lemma close_handles:
  assumes "mset (wy_open y) = mset hs + M"
  shows "mset (wy_open (fold close_handle hs y)) = M \<and> wy_bad (fold close_handle hs y) = wy_bad y"
  using assms
proof (induction hs arbitrary: y)
  case (Cons x hs)
  then have "mset (wy_open y) = add_mset x (mset hs + M)" by simp
  with Cons.IH [of "close_handle x y"] show ?case by (simp add: close_owned)
qed simp

lemma stop_fold_open:
  assumes "\<And>c. \<not> pc_open (f c)"
  shows "b < length (lp_conns s) \<Longrightarrow>
    pc_open (lp_conns (fold (\<lambda>a. upd_pipe a f) ks s) ! b) \<longleftrightarrow> pc_open (lp_conns s ! b) \<and> b \<notin> set ks"
proof (induction ks arbitrary: s)
  case (Cons k ks)
  have "pc_open (lp_conns (upd_pipe k f s) ! b) \<longleftrightarrow> pc_open (lp_conns s ! b) \<and> b \<noteq> k"
    using Cons.prems assms by (cases "b = k") (simp_all add: upd_pipe_def)
  then show ?case using Cons.IH [of "upd_pipe k f s"] Cons.prems by auto
qed simp

lemma mset_filter_split:
  assumes "distinct as" "set as \<subseteq> {..<n}"
  shows "mset (filter P [0..<n]) = mset (filter P as) + mset (filter (\<lambda>a. P a \<and> a \<notin> set as) [0..<n])"
proof -
  have "mset (filter P as) = mset (filter (\<lambda>a. P a \<and> a \<in> set as) [0..<n])"
    using assms by (intro set_eq_iff_mset_eq_distinct [THEN iffD1]) auto
  moreover have "mset (filter P xs) = mset (filter (\<lambda>a. P a \<and> Q a) xs) + mset (filter (\<lambda>a. P a \<and> \<not> Q a) xs)" for Q and xs :: "nat list"
    by (induction xs) auto
  ultimately show ?thesis by metis
qed

lemma winv_stop:
  assumes w: "winv cfg base (w, h)"
  shows "winv cfg base (win_pipes_stop w, h)"
proof (cases "lp_running (wl_pipe w)")
  case True
  let ?s = "wl_pipe w"
  let ?n = "length (lp_conns ?s)"
  let ?w = "win_pipes_stop w"
  let ?f = "\<lambda>c. c\<lparr>pc_active := False, pc_queue := wq_shutdown (pc_queue c), pc_open := False\<rparr>"
  have pipe: "wl_pipe ?w = (fold (\<lambda>a. upd_pipe a ?f) (lp_active ?s) ?s)\<lparr>lp_running := False, lp_active := [], lp_accepting := False\<rparr>"
    using True by (simp add: win_pipes_stop_def pipe_stop_def)
  have s: "distinct (lp_active ?s)" "set (lp_active ?s) \<subseteq> {..<?n}" using w by (simp_all add: winv_def Let_def)
  have len: "length (lp_conns (wl_pipe ?w)) = ?n" "lp_config (wl_pipe ?w) = lp_config ?s"
    using stop_fold [of ?f "lp_active ?s" ?s] by (simp_all add: pipe)
  have "filter (\<lambda>a. pc_open (lp_conns (wl_pipe ?w) ! a)) [0..<?n]
      = filter (\<lambda>a. pc_open (lp_conns ?s ! a) \<and> a \<notin> set (lp_active ?s)) [0..<?n]"
    using stop_fold_open [of ?f _ ?s "lp_active ?s"] by (intro filter_cong) (simp_all add: pipe)
  then have "conn_handles ?w = map ((!) (wl_handles w)) (filter (\<lambda>a. pc_open (lp_conns ?s ! a) \<and> a \<notin> set (lp_active ?s)) [0..<?n])"
    using True by (simp add: conn_handles_def open_handles_def len) (simp add: win_pipes_stop_def)
  moreover have "mset (conn_handles w) = mset (open_handles w (lp_active ?s))
      + mset (map ((!) (wl_handles w)) (filter (\<lambda>a. pc_open (lp_conns ?s ! a) \<and> a \<notin> set (lp_active ?s)) [0..<?n]))"
    using mset_filter_split [OF s, of "\<lambda>a. pc_open (lp_conns ?s ! a)"]
    by (simp add: conn_handles_def open_handles_def)
  ultimately have ch: "mset (conn_handles w) = mset (open_handles w (lp_active ?s)) + mset (conn_handles ?w)" by simp
  have same: "wl_pc ?w = wl_pc w" "wl_posted ?w = wl_posted w" "wl_handles ?w = wl_handles w"
      "wl_sys ?w = fold close_handle (open_handles w (lp_active ?s)) (wl_sys w)"
    using True by (simp_all add: win_pipes_stop_def)
  have "mset (wy_open (wl_sys w)) = mset (open_handles w (lp_active ?s)) + (mset base + held ?w)"
    using w True by (auto simp: winv_def Let_def held_def ch same)
  from close_handles [OF this] show ?thesis
    using w True by (auto simp: winv_def Let_def same len) (simp_all add: pipe)
next
  case False
  then show ?thesis using w by (simp add: win_pipes_stop_def)
qed

lemma winv_step: "win_pipes_step envs x y \<Longrightarrow> winv cfg base x \<Longrightarrow> winv cfg base y"
proof (induction rule: win_pipes_step.induct)
  case (start w h)
  have "conn_handles (win_pipes_start w) = conn_handles w"
    by (rule conn_handles_cong) (simp_all add: win_pipes_start_def Let_def)
  then show ?case
    using start by (auto simp: winv_def Let_def held_def win_pipes_start_def slots_def)
next
  case (thread an w h)
  then show ?case by (intro winv_accept_thread)
next
  case (task w h failed)
  then show ?case by (rule winv_assign)
next
  case (conn w h s h')
  have c: "conn_calm (wl_pipe w) s" using conn_calm_step [OF conn.hyps] by simp
  then have len: "length (lp_conns s) = length (lp_conns (wl_pipe w))" by (metis conn_calm_def length_map)
  have "conn_handles (w\<lparr>wl_pipe := s\<rparr>) = conn_handles w"
    using c by (intro conn_handles_cong) (simp_all add: conn_calm_def)
  with c conn.prems show ?case
    by (auto simp: winv_def Let_def held_def conn_calm_def len)
next
  case (stopped w h)
  then show ?case by (rule winv_stop)
qed


interpretation winpipes: invariant_system "\<lambda>x. \<exists>io y. fst x = win_pipes_init cfg io y \<and> \<not> wy_bad y \<and> wy_open y = base"
  "win_pipes_step envs" "winv cfg base" for cfg base envs
proof
  show "winv cfg base x" if "\<exists>io y. fst x = win_pipes_init cfg io y \<and> \<not> wy_bad y \<and> wy_open y = base" for x :: "win_pipes \<times> 'a"
    using that by (auto simp: winv_def win_pipes_init_def LocalPipeTransport_def held_def conn_handles_def open_handles_def Let_def)
qed (rule winv_step)


section \<open>Properties\<close>

text \<open>C24: The accept thread keeps account of its handles. Whatever the calls to the system answer, and however the thread,
  the event loop, what happens on connections, and \<open>stop\<close> interleave: no handle is closed twice; while the transport
  runs, the open handles are exactly those of the thread, of the posted tasks and of the open connections; in the mode
  for a single client no second client is ever accepted.\<close>

theorem accept_thread_accounts:
  assumes "(win_pipes_step envs)\<^sup>*\<^sup>* (win_pipes_init cfg io y0, h0) (w, h)" "\<not> wy_bad y0"
  shows "\<not> wy_bad (wl_sys w) \<and> mset (wy_open y0) + held w \<subseteq># mset (wy_open (wl_sys w))
    \<and> (lp_running (wl_pipe w) \<longrightarrow> mset (wy_open (wl_sys w)) = mset (wy_open y0) + held w)
    \<and> (lp_mode cfg = SingleClient \<longrightarrow> length (lp_conns (wl_pipe w)) + length (wl_posted w) \<le> 1)
    \<and> distinct (lp_active (wl_pipe w))"
proof -
  have "winv cfg (wy_open y0) (w, h)"
    using winpipes.reachable_inv [OF _ assms(1)] assms(2) by fastforce
  then show ?thesis by (auto simp: winv_def Let_def slots_def split: if_splits)
qed

definition ex_accept :: accept_answers where
  "ex_accept = \<lparr>aa_pipe = Inr 7, aa_event = 8, aa_connect = ConnectedNow, aa_error = 0, aa_wait = TimedOut\<rparr>"

definition ex_win :: win_pipes where
  "ex_win = win_pipes_init LocalPipeConfig True \<lparr>wy_open = [], wy_bad = False, wy_lent = [], wy_launched = []\<rparr>"

abbreviation ex_reaches :: "unit \<Rightarrow> win_pipes \<Rightarrow> bool" where
  "ex_reaches h w \<equiv> (win_pipes_step {})\<^sup>*\<^sup>* (ex_win, h) (w, h)"

lemma ex_win_thread: "ex_reaches h w \<Longrightarrow> ex_reaches h (accept_thread (ex_accept\<lparr>aa_connect := c\<rparr>) w)"
  by (erule rtranclp.rtrancl_into_rtrancl, rule win_pipes_step.thread) (auto simp: ex_accept_def INVALID_HANDLE_def)

lemma ex_win_thread': "ex_reaches h w \<Longrightarrow> ex_reaches h (accept_thread ex_accept w)"
  using ex_win_thread [of h w ConnectedNow] by (simp add: ex_accept_def)

lemmas ex_win_eval = ex_win_def win_pipes_init_def LocalPipeTransport_def LocalPipeConfig_def accept_thread_def win_pipes_start_def
  ex_accept_def new_handle_def close_handle_def INVALID_HANDLE_def Let_def

text \<open>The thread once a client is about to connect, and once it has.\<close>

definition ex_connecting :: win_pipes where
  "ex_connecting = accept_thread ex_accept (accept_thread ex_accept (accept_thread ex_accept (win_pipes_start ex_win)))"

definition ex_posted :: win_pipes where
  "ex_posted = accept_thread ex_accept (accept_thread ex_accept (accept_thread ex_accept ex_connecting))"

lemma ex_connecting_run: "ex_reaches h ex_connecting"
proof -
  have "win_pipes_step {} (ex_win, h) (win_pipes_start ex_win, h)"
    by (rule win_pipes_step.start) (simp add: ex_win_def win_pipes_init_def)
  then have "ex_reaches h (win_pipes_start ex_win)" by (rule r_into_rtranclp)
  then show ?thesis unfolding ex_connecting_def by (intro ex_win_thread')
qed

lemma ex_posted_run: "ex_reaches h ex_posted"
  unfolding ex_posted_def using ex_connecting_run by (intro ex_win_thread')

theorem accept_thread_accounts_witness:
  "mset (wy_open (wl_sys ex_posted)) = held ex_posted \<and> length (lp_conns (wl_pipe ex_posted)) + length (wl_posted ex_posted) \<le> 1"
proof -
  have "lp_running (wl_pipe ex_posted)" "lp_mode LocalPipeConfig = SingleClient"
    by (simp_all add: ex_posted_def ex_connecting_def ex_win_eval)
  then show ?thesis
    using accept_thread_accounts [OF ex_posted_run [unfolded ex_win_def]] by simp
qed

text \<open>Stopping comes too early for a client that is just connecting. A client whose task is still posted when \<open>stop\<close>
  runs is registered afterwards: the stopped transport has an active connection. And a thread that finds
  \<open>running_\<close> cleared when it is about to wait for a client ends without closing the pipe it has created.\<close>

theorem stop_misses_clients:
  "(\<exists>w. ex_reaches h w \<and> \<not> lp_running (wl_pipe w) \<and> lp_active (wl_pipe w) \<noteq> [])
   \<and> (\<exists>w. ex_reaches h w \<and> wl_pc w = Finished \<and> held w = {#} \<and> wy_open (wl_sys w) \<noteq> [])"
proof
  let ?w = "assign_pipe None (win_pipes_stop ex_posted)"
  have "ex_reaches h ?w"
    by (rule rtranclp.rtrancl_into_rtrancl [OF rtranclp.rtrancl_into_rtrancl [OF ex_posted_run]])
      (rule win_pipes_step.stopped, rule win_pipes_step.task)
  moreover have "\<not> lp_running (wl_pipe ?w)" "lp_active (wl_pipe ?w) \<noteq> []"
    by (simp_all add: ex_posted_def ex_connecting_def ex_win_eval win_pipes_stop_def pipe_stop_def assign_pipe_def open_handles_def
        pipe_log_def pipe_start_read_def upd_pipe_def)
  ultimately show "\<exists>w. ex_reaches h w \<and> \<not> lp_running (wl_pipe w) \<and> lp_active (wl_pipe w) \<noteq> []"
    by blast
next
  let ?t = "accept_thread (ex_accept\<lparr>aa_connect := ConnectPending\<rparr>)"
  let ?w = "?t (?t (?t (win_pipes_stop (?t ex_connecting))))"
  have "ex_reaches h (?t ex_connecting)" by (rule ex_win_thread [OF ex_connecting_run])
  then have "ex_reaches h (win_pipes_stop (?t ex_connecting))"
    by (rule rtranclp.rtrancl_into_rtrancl) (rule win_pipes_step.stopped)
  then have "ex_reaches h ?w" by (intro ex_win_thread)
  moreover have "wl_pc ?w = Finished" "held ?w = {#}" "wy_open (wl_sys ?w) = [7]"
    by (simp_all add: ex_connecting_def ex_win_eval win_pipes_stop_def pipe_stop_def open_handles_def held_def conn_handles_def
        pipe_log_def)
  ultimately show "\<exists>w. ex_reaches h w \<and> wl_pc w = Finished \<and> held w = {#} \<and> wy_open (wl_sys w) \<noteq> []"
    by (metis list.distinct(1))
qed

end
