(* ===== verification/Calls.thy ===== *)
theory Calls
  imports Client_Props Server_Calls
begin

text \<open>
  Calls across both sides: the builder of a request (\<open>RequestBuilder\<close> in \<open>client.hpp\<close>), and one request from the client's
  \<open>send()\<close> over the server's handler to \<open>get()\<close>. A tool called by \<open>McpClient::call_tool\<close> behaves like a local call of
  its handler: the caller gets exactly what the handler returned, or an exception that tells what went wrong.
\<close>

section \<open>The request builder\<close>

text \<open>The builder holds what \<open>submit_request\<close> takes; \<open>send()\<close> uses it up.\<close>

definition rb_on_complete :: "submit_args \<Rightarrow> submit_args" where
  "rb_on_complete b = b\<lparr>sa_complete := True\<rparr>"

definition rb_on_error :: "submit_args \<Rightarrow> submit_args" where
  "rb_on_error b = b\<lparr>sa_error := True\<rparr>"

definition rb_on_progress :: "submit_args \<Rightarrow> submit_args" where
  "rb_on_progress b = b\<lparr>sa_progress := True\<rparr>"

definition rb_timeout :: "int \<Rightarrow> submit_args \<Rightarrow> submit_args" where
  "rb_timeout t b = b\<lparr>sa_timeout := t\<rparr>"

definition rb_progress_token :: "request_id \<Rightarrow> submit_args \<Rightarrow> submit_args" where
  "rb_progress_token tok b = b\<lparr>sa_token := Some tok\<rparr>"

definition rb_send :: "submit_args \<Rightarrow> client \<Rightarrow> nat res \<times> client" where
  "rb_send b c = submit_request b c"

text \<open>\<open>connect\<close> up to the wait: \<open>async_connect\<close> does the same, with the builder.\<close>

lemma initialize_args_built:
  "initialize_args timeout c = rb_timeout timeout (prepare METHOD_INITIALIZE (Some (make_initialize_params c)))"
  by (simp add: initialize_args_def rb_timeout_def prepare_def)


section \<open>One request, there and back\<close>

text \<open>The server gets a message; with a worker pool, a worker runs the deferred request and its response is posted
  back to the I/O thread.\<close>

definition serve :: "server_env \<Rightarrow> nat \<Rightarrow> string \<Rightarrow> json \<Rightarrow> server \<Rightarrow> server" where
  "serve env k sid m s =
     (let s1 = fst (on_message env False m (Some k) sid s) in
      if sv_executor s then run_posted (run_job env s1) else s1)"

text \<open>The client submits the request and its strand sends it; the server's response is handed to the client. The first
  component is what \<open>get()\<close> gives, \<open>None\<close> if it would wait for ever.\<close>

definition exchange ::
    "client_env \<Rightarrow> server_env \<Rightarrow> nat \<Rightarrow> string \<Rightarrow> submit_args \<Rightarrow> client \<Rightarrow> server \<Rightarrow> json res option \<times> client \<times> server" where
  "exchange cenv env k sid b c s =
     (case rb_send b c of
        (Inl e, c1) \<Rightarrow> (Some (Inl e), c1, s)
      | (Inr a, c1) \<Rightarrow>
          let c2 = io_run_one cenv c1; s1 = (case last (cl_calls c2) of TSend m \<Rightarrow> serve env k sid m s | _ \<Rightarrow> s);
              c3 = (case last (sv_responses s1) of (k', m) \<Rightarrow> fst (on_transport_message cenv m c2))
          in (pr_get (cl_reqs c3 ! a), c3, s1))"

definition sendable :: "client \<Rightarrow> bool" where
  "sendable c \<longleftrightarrow> cinv c \<and> cl_connected c \<and> \<not> cl_stopping c \<and> cl_transport c \<and> cl_io_alive c \<and> cl_tasks c = []
     \<and> Suc (unat (cl_next_id c)) < 2 ^ 64"

lemma request_sent:
  assumes "sendable c" "c1 = snd (rb_send (prepare m p) c)" "c2 = io_run_one cenv c1"
  shows "fst (rb_send (prepare m p) c) = Inr (length (cl_reqs c))"
    and "cinv c2" "map_of (cl_pending c2) (IntId (cl_next_id c)) = Some (length (cl_reqs c))"
    and "pr_state (cl_reqs c2 ! length (cl_reqs c)) = Waiting" "pr_method (cl_reqs c2 ! length (cl_reqs c)) = m"
    and "cl_calls c2 = cl_calls c
      @ [TSend (serialize_request \<lparr>req_id = IntId (cl_next_id c), req_method = m, req_params = p\<rparr>)]"
proof -
  have r: "rb_send (prepare m p) c = submit_post (prepare m p) c"
    using assms(1) by (simp add: rb_send_def submit_request_def submit_check_def sendable_def)
  show "fst (rb_send (prepare m p) c) = Inr (length (cl_reqs c))"
    unfolding r by (simp add: submit_post_def prepare_def Let_def)
  have "sound c c1"
    using assms(1,2) unfolding r by (simp add: sound_submit_post sendable_def)
  then show "cinv c2"
    using sound_io_run [of c1 cenv] assms(3) by (simp add: sound_def)
  define pr where "pr = (PendingRequest (IntId (cl_next_id c)) m NullId)
      \<lparr>pr_timeout := if cl_default_timeout c > 0 then cl_default_timeout c else 0, pr_cb_exec := cl_cb_exec c\<rparr>"
  have c1: "c1 = post (Register (length (cl_reqs c)) p) (c\<lparr>cl_next_id := cl_next_id c + 1, cl_reqs := cl_reqs c @ [pr]\<rparr>)"
    using assms(2) unfolding r
    by (simp add: submit_post_def prepare_def Let_def submit_token_def pr_def PendingRequest_def)
  have pr: "pr_id pr = IntId (cl_next_id c)" "pr_method pr = m" "pr_state pr = Waiting" "own_token pr = None"
    by (simp_all add: pr_def PendingRequest_def own_token_def is_null_id_def)
  show "map_of (cl_pending c2) (IntId (cl_next_id c)) = Some (length (cl_reqs c))"
    "pr_state (cl_reqs c2 ! length (cl_reqs c)) = Waiting" "pr_method (cl_reqs c2 ! length (cl_reqs c)) = m"
    "cl_calls c2 = cl_calls c
      @ [TSend (serialize_request \<lparr>req_id = IntId (cl_next_id c), req_method = m, req_params = p\<rparr>)]"
    using assms(1,3) pr
    by (simp_all add: c1 post_def io_run_one_def run_task_def run_register_def register_pending_def Let_def raw_send_def
        tcall_def map_of_oset sendable_def)
qed

text \<open>What \<open>get()\<close> gives when the server has answered.\<close>

lemma exchange_outcome:
  assumes "sendable c" "m \<noteq> METHOD_INITIALIZE"
    and "s1 = serve env k sid (serialize_request \<lparr>req_id = IntId (cl_next_id c), req_method = m, req_params = p\<rparr>) s"
    and "snd (last (sv_responses s1)) = ans"
  shows "ans = make_success_response (IntId (cl_next_id c)) r \<Longrightarrow>
      fst (exchange cenv env k sid (prepare m p) c s) = Some (Inr r)"
    and "ans = make_error_response (IntId (cl_next_id c)) code msg d \<Longrightarrow> int32_range code \<Longrightarrow>
      fst (exchange cenv env k sid (prepare m p) c s) = Some (Inl (McpEx code msg d))"
    and "snd (snd (exchange cenv env k sid (prepare m p) c s)) = s1"
proof -
  define c2 where "c2 = io_run_one cenv (snd (rb_send (prepare m p) c))"
  note sent = request_sent [OF assms(1) refl c2_def]
  have x: "exchange cenv env k sid (prepare m p) c s =
      (let c3 = fst (on_transport_message cenv ans c2) in (pr_get (cl_reqs c3 ! length (cl_reqs c)), c3, s1))"
    using sent(1) sent(6) assms(3,4)
    by (cases "rb_send (prepare m p) c") (simp add: exchange_def Let_def c2_def case_prod_beta)
  note finished = complete_ordinary(1) [OF sent(2,3,4), where env = cenv]
  show "fst (exchange cenv env k sid (prepare m p) c s) = Some (Inr r)"
    if "ans = make_success_response (IntId (cl_next_id c)) r"
    using finished [of "(mcp_outcome Succeeded)\<lparr>out_result := r\<rparr>"] that assms(2) sent(5)
    by (simp add: x on_transport_message_def parse_built_success outcome_result_def mcp_outcome_def)
  show "fst (exchange cenv env k sid (prepare m p) c s) = Some (Inl (McpEx code msg d))"
    if "ans = make_error_response (IntId (cl_next_id c)) code msg d" "int32_range code"
    using finished [of "(mcp_outcome Errored)\<lparr>out_rpc_error := Some \<lparr>ed_code = code, ed_message = msg, ed_data = d\<rparr>\<rparr>"] that
    by (simp add: x on_transport_message_def parse_built_error outcome_result_def mcp_outcome_def)
  show "snd (snd (exchange cenv env k sid (prepare m p) c s)) = s1"
    by (simp add: x Let_def)
qed


section \<open>Calling a tool\<close>

text \<open>\<open>call_tool\<close>: what it returns or throws, from what \<open>get()\<close> gave.\<close>

definition call_tool :: "client_env \<Rightarrow> server_env \<Rightarrow> nat \<Rightarrow> string \<Rightarrow> string \<Rightarrow> json \<Rightarrow> client \<Rightarrow> server \<Rightarrow>
    call_tool_result res option" where
  "call_tool cenv env k sid name args c s =
     map_option (\<lambda>r. bindE r call_tool_result_from_json) (fst (exchange cenv env k sid (call_tool_request name args) c s))"

text \<open>How an exception of the handler arrives at the caller.\<close>

definition remote_exn :: "server_env \<Rightarrow> exn \<Rightarrow> exn" where
  "remote_exn env e =
     (case e of McpEx c m d \<Rightarrow> McpEx c m d
      | _ \<Rightarrow> McpEx INTERNAL_ERROR (if is_std_exception e then exn_what (se_what env) e else ''Unknown error'') None)"

definition idle :: "server \<Rightarrow> bool" where
  "idle s \<longleftrightarrow> sv_initialized s \<and> sv_jobs s = [] \<and> sv_posted s = []"

lemma serve_request:
  assumes "sv_jobs s = []" "sv_posted s = []" "req_id r \<noteq> NullId" "structured (req_params r)"
    and "process_request env r sid s = (Inr j, t)" "sv_jobs t = []" "sv_posted t = []" "is_deferrable (req_method r)"
  shows "serve env k sid (serialize_request r) s = respond (Some k) j t"
proof -
  have p: "parse_message (se_what env) (serialize_request r) = PRequest r"
    using assms(3,4) by (rule parse_built_request)
  have same: "s\<lparr>sv_jobs := []\<rparr> = s" "t\<lparr>sv_posted := []\<rparr> = t"
    using assms(1,7) by (cases s, simp, cases t, simp)
  show ?thesis
  proof (cases "sv_executor s")
    case True
    let ?d = "\<lparr>df_request = r, df_sink = Some k, df_session = sid\<rparr>"
    have "fst (on_message env False (serialize_request r) (Some k) sid s) = s\<lparr>sv_jobs := [?d]\<rparr>"
      using True assms(1,8) p by (simp add: on_message_def)
    moreover have "run_job env (s\<lparr>sv_jobs := [?d]\<rparr>) = t\<lparr>sv_posted := [(Some k, j)]\<rparr>"
      using assms(5,7) same(1) by (simp add: run_job_def)
    ultimately show ?thesis
      using True same(2) by (simp add: serve_def Let_def run_posted_def)
  qed (use assms(5) p in \<open>simp add: serve_def on_message_def Let_def\<close>)
qed

lemma tool_call_served:
  assumes "idle s" "map_of (h_tools (active_handlers s)) name = Some (d, h)" "i \<noteq> NullId"
    and "run_prog env (RequestContext i sid) (h (JObj m)) s = (r, t)"
    and "s1 = serve env k sid (serialize_request \<lparr>req_id = i, req_method = METHOD_TOOLS_CALL,
           req_params = Some (jobject [(''name'', JStr name), (''arguments'', JObj m)])\<rparr>) s"
  shows "schema_ok (JObj m) (tool_input_schema d) \<Longrightarrow> r \<noteq> Inl UndefinedBehaviour \<Longrightarrow>
      s1 = respond (Some k) (case r of Inr x \<Rightarrow> make_success_response i (call_tool_result_to_json x)
        | Inl e \<Rightarrow> (case remote_exn env e of McpEx c msg dt \<Rightarrow> make_error_response i c msg dt | _ \<Rightarrow> JNull)) t"
    and "\<not> schema_ok (JObj m) (tool_input_schema d) \<Longrightarrow>
      s1 = respond (Some k) (make_error_response i INVALID_PARAMS (''Invalid arguments for tool '' @ quoted name @ '': ''
        @ schema_validate (JObj m) (tool_input_schema d) []) None) s"
proof -
  let ?p = "jobject [(''name'', JStr name), (''arguments'', JObj m)]"
  let ?r = "\<lparr>req_id = i, req_method = METHOD_TOOLS_CALL, req_params = Some ?p\<rparr>"
  have args: "arguments_of ?p = JObj m" "get_string_param ?p ''name'' = Inr name" "progress_token_of i ?p = i"
    "structured (Some ?p)"
    by (simp_all add: arguments_of_def get_string_param_def progress_token_of_def structured_def jobject_def)
  have ctx: "(RequestContext i sid)\<lparr>ctx_progress_token := i\<rparr> = RequestContext i sid"
    by (simp add: RequestContext_def)
  have dispatch: "dispatch_method env METHOD_TOOLS_CALL i (Some ?p) sid s = handle_tools_call env i ?p sid s"
    using assms(1) by (simp add: dispatch_method_def idle_def)
  note called = tool_call_cases [OF args(2) assms(2), of env i sid, unfolded args ctx assms(4)]
  have same: "frame s t"
    using frame_run_prog [of s env "RequestContext i sid" "h (JObj m)"] assms(4) by simp
  then have t: "sv_jobs t = []" "sv_posted t = []"
    using assms(1) by (simp_all add: frame_def idle_def)
  have s: "sv_jobs s = []" "sv_posted s = []" "req_id ?r \<noteq> NullId" "structured (req_params ?r)"
    "is_deferrable (req_method ?r)"
    using assms(1,3) args(4) by (simp_all add: idle_def is_deferrable_def)
  show "s1 = respond (Some k) (case r of Inr x \<Rightarrow> make_success_response i (call_tool_result_to_json x)
        | Inl e \<Rightarrow> (case remote_exn env e of McpEx c msg dt \<Rightarrow> make_error_response i c msg dt | _ \<Rightarrow> JNull)) t"
    if "schema_ok (JObj m) (tool_input_schema d)" "r \<noteq> Inl UndefinedBehaviour"
    unfolding assms(5)
    by (rule serve_request [OF s(1-4) _ t s(5)])
      (use that called in \<open>auto simp: process_request_def dispatch finish_call_def reply_def exn_response_def
        remote_exn_def split: sum.split exn.split\<close>)
  show "s1 = respond (Some k) (make_error_response i INVALID_PARAMS (''Invalid arguments for tool '' @ quoted name @ '': ''
        @ schema_validate (JObj m) (tool_input_schema d) []) None) s"
    if "\<not> schema_ok (JObj m) (tool_input_schema d)"
    unfolding assms(5)
    by (rule serve_request [OF s(1-4) _ s(1,2,5)])
      (use that called in \<open>simp add: process_request_def dispatch refuse_def\<close>)
qed

lemma call_tool_outcome:
  assumes "sendable c" "idle s" "map_of (h_tools (active_handlers s)) name = Some (d, h)"
    and "run_prog env (RequestContext (IntId (cl_next_id c)) sid) (h (JObj m)) s = (r, t)"
    and "schema_ok (JObj m) (tool_input_schema d) \<Longrightarrow> r \<noteq> Inl UndefinedBehaviour"
    and "\<And>x. r = Inr x \<Longrightarrow> call_tool_result_ok x" "\<And>code msg dt. r = Inl (McpEx code msg dt) \<Longrightarrow> int32_range code"
  shows "call_tool cenv env k sid name (JObj m) c s = Some
      (if schema_ok (JObj m) (tool_input_schema d) then map_sum (remote_exn env) id r
       else Inl (McpEx INVALID_PARAMS (''Invalid arguments for tool '' @ quoted name @ '': ''
         @ schema_validate (JObj m) (tool_input_schema d) []) None))
    \<and> sv_sent (snd (snd (exchange cenv env k sid (call_tool_request name (JObj m)) c s)))
        = sv_sent (if schema_ok (JObj m) (tool_input_schema d) then t else s)"
proof -
  let ?i = "IntId (cl_next_id c)"
  let ?p = "Some (jobject [(''name'', JStr name), (''arguments'', JObj m)])"
  let ?s1 = "serve env k sid (serialize_request \<lparr>req_id = ?i, req_method = METHOD_TOOLS_CALL, req_params = ?p\<rparr>) s"
  have req: "call_tool_request name (JObj m) = prepare METHOD_TOOLS_CALL ?p"
    by (simp add: call_tool_request_def)
  have other: "METHOD_TOOLS_CALL \<noteq> METHOD_INITIALIZE" by simp
  have codes: "int32_range INVALID_PARAMS" "int32_range INTERNAL_ERROR"
    by (simp_all add: int32_range_def INVALID_PARAMS_def INTERNAL_ERROR_def)
  note served = tool_call_served [OF assms(2,3) request_id.distinct(1) [symmetric] assms(4) refl, of k]
  note outcome = exchange_outcome [OF assms(1) other refl refl, where env = env and k = k and sid = sid and p = ?p and s = s and cenv = cenv]
  show ?thesis
  proof (cases "schema_ok (JObj m) (tool_input_schema d)")
    case valid: True
    show ?thesis
    proof (cases r)
      case (Inr x)
      then show ?thesis
        using served(1) [OF valid assms(5) [OF valid]] outcome valid call_tool_result_codec.dec_enc [OF assms(6) [OF Inr]]
        by (simp add: call_tool_def req respond_def)
    next
      case (Inl e)
      then show ?thesis
        using served(1) [OF valid assms(5) [OF valid]] outcome valid codes assms(5) [OF valid] assms(7)
        by (cases e) (simp_all add: call_tool_def req respond_def remote_exn_def)
    qed
  next
    case False
    then show ?thesis
      using served(2) outcome codes by (simp add: call_tool_def req respond_def)
  qed
qed

text \<open>C3: A tool called over the protocol behaves like a local call. The caller of \<open>call_tool\<close> on a connected client
  gets exactly what the server's handler returns for exactly the caller's arguments, or an \<open>McpException\<close>: the handler's
  own, \<open>INTERNAL_ERROR\<close> with the text of any other exception it threw, or \<open>INVALID_PARAMS\<close> when the arguments violate
  the tool's input schema, and then the handler has not run. It makes no difference whether the server answers
  at once or a worker of its pool runs the handler.\<close>

theorem tool_calls_are_remote_calls:
  assumes "sendable c" "idle s" "map_of (h_tools (active_handlers s)) name = Some (d, h)"
    and "run_prog env (RequestContext (IntId (cl_next_id c)) sid) (h (JObj m)) s = (r, t)"
    and "schema_ok (JObj m) (tool_input_schema d) \<Longrightarrow> r \<noteq> Inl UndefinedBehaviour"
    and "\<And>x. r = Inr x \<Longrightarrow> call_tool_result_ok x" "\<And>code msg dt. r = Inl (McpEx code msg dt) \<Longrightarrow> int32_range code"
  shows "call_tool cenv env k sid name (JObj m) c s = Some
      (if schema_ok (JObj m) (tool_input_schema d) then map_sum (remote_exn env) id r
       else Inl (McpEx INVALID_PARAMS (''Invalid arguments for tool '' @ quoted name @ '': ''
         @ schema_validate (JObj m) (tool_input_schema d) []) None))
    \<and> sv_sent (snd (snd (exchange cenv env k sid (call_tool_request name (JObj m)) c s)))
        = sv_sent (if schema_ok (JObj m) (tool_input_schema d) then t else s)"
  by (rule call_tool_outcome [OF assms])

lemma ex_connected_sendable: "sendable ex_connected" "cl_next_id ex_connected = 2"
  using ex_connected_stage cl.reachable_inv [OF ex_new_start ex_connected_reachable]
  by (simp_all add: stage_def sendable_def)

theorem tool_calls_are_remote_calls_witness:
  "call_tool ex_env ex_senv 0 [] ''t'' (JObj [(''x'', JNull)]) ex_connected (ex_running\<lparr>sv_initialized := True\<rparr>) = Some (Inr ex_result)"
proof -
  let ?s = "ex_running\<lparr>sv_initialized := True\<rparr>" and ?args = "JObj [(''x'', JNull)]"
  have s: "idle ?s" "map_of (h_tools (active_handlers ?s)) ''t'' = Some (ex_tool, \<lambda>_. Ret ex_result)"
    by (simp_all add: idle_def ex_running_def run_def register_tool_def registering_def ensure_pre_run_def McpServer_def
      update_handlers_def warn_if_def connect_transport_def slog_def Let_def active_handlers_def no_handlers_def)
  have "schema_ok ?args (tool_input_schema ex_tool)"
    by (simp add: schema_ok.simps [of "JObj _"] ex_tool_def)
  then show ?thesis
    using tool_calls_are_remote_calls [OF ex_connected_sendable(1) s,
        where m = "[(''x'', JNull)]" and r = "Inr ex_result" and t = ?s and cenv = ex_env and env = ex_senv and k = 0 and sid = "[]"]
    by (simp add: call_tool_result_ok_def ex_result_def)
qed

end
