(* ===== verification/Double_Arith.thy ===== *)
theory Double_Arith
  imports Cpp_Double
begin

text \<open>
  What the example programs do with a \<open>double\<close>: addition, and \<open>std::to_string\<close>, which prints six decimals. A finite
  number is an integer in units of the smallest subnormal number, \<open>2 ^ -1074\<close>, so that the sum is exact before it is
  rounded to nearest, ties to even.
\<close>

definition double_is_inf :: "double \<Rightarrow> bool" where
  "double_is_inf d \<longleftrightarrow> double_exp d = 2047 \<and> double_frac d = 0"

definition double_units :: "double \<Rightarrow> int" where
  "double_units d =
     (let e = double_exp d; f = double_frac d; n = (if e = 0 then f else (f + 2 ^ 52) * 2 ^ (e - 1))
      in if double_neg d then - int n else int n)"

definition round_even :: "nat \<Rightarrow> nat \<Rightarrow> nat" where
  "round_even n m = (let q = n div m; r = n mod m in if m < 2 * r \<or> 2 * r = m \<and> odd q then q + 1 else q)"

text \<open>The bits of a magnitude; beyond the largest number it is infinity.\<close>

definition units_to_bits :: "nat \<Rightarrow> nat" where
  "units_to_bits n =
     (if n < 2 ^ 53 then n
      else let sh = nlog2 n - 52 in min ((sh + 1) * 2 ^ 52 + (round_even n (2 ^ sh) - 2 ^ 52)) (2047 * 2 ^ 52))"

definition quiet_nan :: double where "quiet_nan = 0x7FF8000000000000"

definition double_add :: "double \<Rightarrow> double \<Rightarrow> double" where
  "double_add a b =
     (if double_is_nan a \<or> double_is_nan b \<or> double_is_inf a \<and> double_is_inf b \<and> a \<noteq> b then quiet_nan
      else if double_is_inf a then a
      else if double_is_inf b then b
      else let u = double_units a + double_units b in
        if u = 0 then (if double_neg a \<and> double_neg b then 0x8000000000000000 else 0)
        else word_of_nat ((if u < 0 then 2 ^ 63 else 0) + units_to_bits (nat \<bar>u\<bar>)))"

definition six_digits :: "nat \<Rightarrow> string" where
  "six_digits n = map (\<lambda>i. digit_char (n div 10 ^ i mod 10)) [5, 4, 3, 2, 1, 0]"

definition double_to_string :: "double \<Rightarrow> string" where
  "double_to_string d =
     (let sign = (if double_neg d then ''-'' else []) in
      if double_is_nan d then sign @ ''nan''
      else if double_is_inf d then sign @ ''inf''
      else let n = round_even (nat \<bar>double_units d\<bar> * 10 ^ 6) (2 ^ 1074)
           in sign @ nat_to_dec (n div 10 ^ 6) @ ''.'' @ six_digits (n mod 10 ^ 6))"


section \<open>Whole numbers\<close>

lemma round_even_exact: "0 < m \<Longrightarrow> round_even (q * m) m = q"
  by (simp add: round_even_def)

lemma nlog2_unique:
  assumes "2 ^ e \<le> n" "n < 2 ^ Suc e"
  shows "nlog2 n = e"
proof -
  have "0 < n" using assms(1) by (metis less_le_trans zero_less_numeral zero_less_power)
  then have "2 ^ nlog2 n \<le> n" "n < 2 ^ Suc (nlog2 n)" using nlog2_bounds by auto
  then have "(2 :: nat) ^ e < 2 ^ Suc (nlog2 n)" "(2 :: nat) ^ nlog2 n < 2 ^ Suc e" using assms by linarith+
  then have "e < Suc (nlog2 n)" "nlog2 n < Suc e" by (simp_all only: power_strict_increasing_iff)
  then show ?thesis by simp
qed

lemma nlog2_shift: "0 < n \<Longrightarrow> nlog2 (n * 2 ^ k) = nlog2 n + k"
  using nlog2_bounds [of n] by (intro nlog2_unique) (simp_all add: power_add mult.commute)

text \<open>A whole number below \<open>2 ^ 53\<close> in normal form.\<close>

lemma whole_bits:
  fixes n :: nat
  assumes "0 < n" "n < 2 ^ 53"
  obtains e f where "e = nlog2 n" "e \<le> 52" "f < 2 ^ 52" "f + 2 ^ 52 = n * 2 ^ (52 - e)"
    "nat_to_double_bits n = (1023 + e) * 2 ^ 52 + f"
proof -
  define e where "e = nlog2 n"
  have b: "2 ^ e \<le> n" "n < 2 ^ Suc e" using nlog2_bounds [OF assms(1)] by (auto simp: e_def)
  have e: "e \<le> 52" using nlog2_less [OF assms(2,1)] by (simp add: e_def)
  have "(2 :: nat) ^ e * 2 ^ (52 - e) \<le> n * 2 ^ (52 - e)" "n * 2 ^ (52 - e) < 2 ^ Suc e * 2 ^ (52 - e)"
    using b by (auto intro: mult_right_mono mult_strict_right_mono)
  moreover have "e + (52 - e) = 52" "Suc e + (52 - e) = 53" using e by simp_all
  ultimately have "2 ^ 52 \<le> n * 2 ^ (52 - e)" "n * 2 ^ (52 - e) < 2 ^ 53"
    by (simp_all only: power_add [symmetric])
  then show ?thesis
    using that [of e "n * 2 ^ (52 - e) - 2 ^ 52"] e assms(1) by (simp add: nat_to_double_bits_def e_def Let_def)
qed

lemma whole_fields:
  fixes n :: nat
  assumes "n < 2 ^ 53"
  shows "double_units (int_to_double (int n)) = int (n * 2 ^ 1074)" "\<not> double_neg (int_to_double (int n))"
    "\<not> double_is_nan (int_to_double (int n))" "\<not> double_is_inf (int_to_double (int n))"
proof -
  let ?d = "int_to_double (int n)"
  have "double_units ?d = int (n * 2 ^ 1074) \<and> \<not> double_neg ?d \<and> double_exp ?d \<noteq> 2047"
  proof (cases "n = 0")
    case True
    then show ?thesis
      by (simp add: int_to_double_def nat_to_double_bits_def double_units_def double_neg_def double_exp_def double_frac_def)
  next
    case False
    then obtain e f where w: "e = nlog2 n" "e \<le> 52" "f < 2 ^ 52" "f + 2 ^ 52 = n * 2 ^ (52 - e)"
        "nat_to_double_bits n = (1023 + e) * 2 ^ 52 + f"
      using whole_bits [OF _ assms] by blast
    have "(1023 + e) * 2 ^ 52 \<le> 1075 * 2 ^ 52" using w(2) by (intro mult_right_mono) auto
    then have small: "(1023 + e) * 2 ^ 52 + f < 2 ^ 63" using w(3) by simp
    have "unat (word_of_nat x :: double) = x" if "x < 2 ^ 63" for x
      using that by (simp add: unat_of_nat)
    from this [OF small] have u: "unat ?d = (1023 + e) * 2 ^ 52 + f"
      by (simp add: int_to_double_def w(5))
    have d: "double_exp ?d = 1023 + e" "double_frac ?d = f" "\<not> double_neg ?d"
      unfolding double_exp_def double_frac_def double_neg_def u split_fraction [OF w(3)] using w(2) small by simp_all
    have "(52 - e) + (1023 + e - 1) = 1074" using w(2) by simp
    then have "(f + 2 ^ 52) * 2 ^ (1023 + e - 1) = n * 2 ^ 1074"
      unfolding w(4) by (metis mult.assoc power_add)
    then have "double_units ?d = int (n * 2 ^ 1074)"
      unfolding double_units_def Let_def d(1,2) using d(3) by simp
    then show ?thesis using d w(2) by simp
  qed
  then show "double_units ?d = int (n * 2 ^ 1074)" "\<not> double_neg ?d" "\<not> double_is_nan ?d" "\<not> double_is_inf ?d"
    by (simp_all add: double_is_nan_def double_is_inf_def)
qed

lemma whole_units_bits:
  fixes n :: nat
  assumes "n < 2 ^ 53"
  shows "units_to_bits (n * 2 ^ 1074) = nat_to_double_bits n"
proof (cases "n = 0")
  case True
  then show ?thesis by (simp add: units_to_bits_def nat_to_double_bits_def)
next
  case False
  then obtain e f where w: "e = nlog2 n" "e \<le> 52" "f < 2 ^ 52" "f + 2 ^ 52 = n * 2 ^ (52 - e)"
      "nat_to_double_bits n = (1023 + e) * 2 ^ 52 + f"
    using whole_bits [OF _ assms] by blast
  have "(2 :: nat) ^ 53 \<le> 2 ^ 1074" by (rule power_increasing) simp_all
  also have "\<dots> \<le> n * 2 ^ 1074" using False by simp
  finally have big: "\<not> n * 2 ^ 1074 < 2 ^ 53" by (simp only: not_less)
  have "nlog2 (n * 2 ^ 1074) = e + 1074" unfolding w(1) using False by (intro nlog2_shift) simp
  then have sh: "nlog2 (n * 2 ^ 1074) - 52 = e + 1022" by linarith
  have "(52 - e) + (e + 1022) = 1074" using w(2) by simp
  then have "n * 2 ^ 1074 = (f + 2 ^ 52) * 2 ^ (e + 1022)" unfolding w(4) by (metis mult.assoc power_add)
  then have q: "round_even (n * 2 ^ 1074) (2 ^ (e + 1022)) = f + 2 ^ 52" by (simp only: round_even_exact zero_less_power zero_less_numeral)
  have "(e + 1022 + 1) * 2 ^ 52 + (f + 2 ^ 52 - 2 ^ 52) = (1023 + e) * 2 ^ 52 + f" by simp
  moreover have "(1023 + e) * 2 ^ 52 + f \<le> 2047 * 2 ^ 52"
  proof -
    have "(1023 + e) * 2 ^ 52 \<le> 1075 * 2 ^ 52" using w(2) by (intro mult_right_mono) auto
    then show ?thesis using w(3) by simp
  qed
  ultimately show ?thesis
    unfolding units_to_bits_def Let_def sh q w(5) using big by (simp only: if_False min_absorb1)
qed

text \<open>Whole numbers are added exactly, and printed with six zeros.\<close>

lemma double_add_whole:
  fixes a b :: nat
  assumes "a + b < 2 ^ 53"
  shows "double_add (int_to_double (int a)) (int_to_double (int b)) = int_to_double (int (a + b))"
proof -
  have ab: "a < 2 ^ 53" "b < 2 ^ 53" using assms by simp_all
  note fields = whole_fields [OF ab(1)] whole_fields [OF ab(2)]
  have u: "double_units (int_to_double (int a)) + double_units (int_to_double (int b)) = int ((a + b) * 2 ^ 1074)"
    unfolding fields(1,5) by (simp only: of_nat_add [symmetric] add_mult_distrib)
  have bits: "int_to_double (int n) = word_of_nat (nat_to_double_bits n)" for n
    by (simp add: int_to_double_def)
  show ?thesis
  proof (cases "a + b = 0")
    case True
    then show ?thesis
      using fields u by (simp add: double_add_def Let_def int_to_double_def nat_to_double_bits_def)
  next
    case False
    then have "int ((a + b) * 2 ^ 1074) \<noteq> 0" "\<not> int ((a + b) * 2 ^ 1074) < 0"
      by (simp_all only: of_nat_eq_0_iff of_nat_less_0_iff mult_eq_0_iff power_eq_0_iff) simp_all
    moreover have "nat \<bar>int ((a + b) * 2 ^ 1074)\<bar> = (a + b) * 2 ^ 1074" by (simp only: abs_of_nat nat_int)
    ultimately have "double_add (int_to_double (int a)) (int_to_double (int b))
        = word_of_nat (0 + units_to_bits ((a + b) * 2 ^ 1074))"
      unfolding double_add_def Let_def u using fields by (simp only: if_False if_True simp_thms)
    then show ?thesis
      by (simp only: whole_units_bits [OF assms] add_0 bits)
  qed
qed

lemma six_zeros: "six_digits 0 = ''000000''"
proof -
  have "of_char (CHR ''0'') = (48 :: nat)" by simp
  then have "digit_char 0 = CHR ''0''" by (metis add_0_right char_of_char digit_char_def)
  then show ?thesis by (simp add: six_digits_def)
qed

lemma double_to_string_whole:
  fixes n :: nat
  assumes "n < 2 ^ 53"
  shows "double_to_string (int_to_double (int n)) = nat_to_dec n @ ''.000000''"
proof -
  have "nat \<bar>int (n * 2 ^ 1074)\<bar> * 10 ^ 6 = (n * 10 ^ 6) * 2 ^ 1074"
    by (simp only: abs_of_nat nat_int mult.assoc mult.commute mult.left_commute)
  then have "round_even (nat \<bar>double_units (int_to_double (int n))\<bar> * 10 ^ 6) (2 ^ 1074) = n * 10 ^ 6"
    unfolding whole_fields(1) [OF assms] by (simp only: round_even_exact zero_less_power zero_less_numeral)
  then have "double_to_string (int_to_double (int n))
      = nat_to_dec (n * 10 ^ 6 div 10 ^ 6) @ ''.'' @ six_digits (n * 10 ^ 6 mod 10 ^ 6)"
    unfolding double_to_string_def Let_def using whole_fields(2-4) [OF assms] by (simp only: if_False append_Nil)
  then show ?thesis by (simp add: six_zeros)
qed

end
