(* ===== verification/Examples.thy ===== *)
theory Examples
  imports Calls Double_Arith Http Pipe
begin

text \<open>
  The example programs (\<open>src/examples\<close>): the servers they set up, with their tools, resources and prompts as programs over the
  request context, and the configurations of their transports. A JSON text in the sources is the value it denotes.
  Their handlers index their arguments without a test; the checks of the server before them make this safe.
\<close>

section \<open>What the handlers use\<close>

text \<open>\<open>j[k]\<close> on a constant value: a missing member is undefined behaviour.\<close>

fun const_member :: "json \<Rightarrow> string \<Rightarrow> json res" where
  "const_member (JObj m) k = (case map_of m k of None \<Rightarrow> Inl UndefinedBehaviour | Some v \<Rightarrow> Inr v)"
| "const_member j k = Inl (JsonEx (JsonTypeError 305 k j))"

definition string_argument :: "json \<Rightarrow> string \<Rightarrow> string res" where
  "string_argument args k = bindE (const_member args k) get_string"

definition number_argument :: "json \<Rightarrow> string \<Rightarrow> double res" where
  "number_argument args k = bindE (const_member args k) get_double"

definition attempt :: "'a res \<Rightarrow> ('a \<Rightarrow> 'r prog) \<Rightarrow> 'r prog" where
  "attempt x f = (case x of Inl e \<Rightarrow> Throw e | Inr y \<Rightarrow> f y)"

definition plain_text :: "string \<Rightarrow> content" where
  "plain_text s = CText \<lparr>tc_type = ''text'', tc_text = s\<rparr>"

definition text_result :: "string \<Rightarrow> call_tool_result" where
  "text_result s = \<lparr>ctr_content = [plain_text s], ctr_structured_content = None, ctr_is_error = False\<rparr>"

definition double_half :: double where "double_half = 0x3FE0000000000000"
definition double_one :: double where "double_one = 0x3FF0000000000000"

definition plain_tool :: "string \<Rightarrow> string \<Rightarrow> json \<Rightarrow> tool" where
  "plain_tool name description schema = \<lparr>tool_name = name, tool_title = None, tool_description = Some description,
     tool_input_schema = schema, tool_output_schema = None, tool_annots = None\<rparr>"

definition object_schema :: "(string \<times> json) list \<Rightarrow> string list \<Rightarrow> json" where
  "object_schema properties required = jobject [(''type'', JStr ''object''), (''properties'', jobject properties),
     (''required'', JArr (map JStr required))]"

definition typed :: "string \<Rightarrow> string \<Rightarrow> json" where
  "typed t description = jobject [(''type'', JStr t), (''description'', JStr description)]"

definition no_caps :: server_capabilities where
  "no_caps = \<lparr>sc_prompts = None, sc_resources = None, sc_tools = None, sc_logging = None, sc_completions = None,
     sc_experimental = None\<rparr>"

definition has_tools :: tools_capability where "has_tools = \<lparr>tcap_list_changed = None\<rparr>"


section \<open>Tools, resources and prompts\<close>

definition echo_schema :: json where
  "echo_schema = object_schema [(''message'', typed ''string'' ''The message to echo back'')] [''message'']"

definition echo_handler :: "json \<Rightarrow> call_tool_result prog" where
  "echo_handler args = attempt (string_argument args ''message'') (\<lambda>m. ReportProgress double_half (Some double_one) (Ret (text_result m)))"

definition add_schema :: json where
  "add_schema = object_schema [(''a'', typed ''number'' ''First number''), (''b'', typed ''number'' ''Second number'')] [''a'', ''b'']"

definition add_handler :: "json \<Rightarrow> call_tool_result prog" where
  "add_handler args = attempt (number_argument args ''a'') (\<lambda>a. attempt (number_argument args ''b'') (\<lambda>b.
     Ret (text_result (double_to_string (double_add a b)))))"

definition hello_handler :: "string \<Rightarrow> read_resource_result prog" where
  "hello_handler uri = Ret \<lparr>rrr_contents =
     [\<lparr>rc_uri = uri, rc_mime_type = ''text/plain'', rc_text = Some ''Hello from cppmcp!'', rc_blob = None\<rparr>]\<rparr>"

definition greet_prompt_handler :: "string \<Rightarrow> json \<Rightarrow> get_prompt_result prog" where
  "greet_prompt_handler n args = attempt (string_argument args ''name'') (\<lambda>name.
     Ret \<lparr>gpr_description = Some ''A greeting prompt'',
          gpr_messages = [\<lparr>pm_role = ''user'', pm_content = plain_text (''Please greet '' @ name)\<rparr>]\<rparr>)"

text \<open>The demo reports progress before it reads its argument.\<close>

definition demo_echo_handler :: "json \<Rightarrow> call_tool_result prog" where
  "demo_echo_handler args =
     ReportProgress double_half (Some double_one) (attempt (string_argument args ''message'') (\<lambda>m. Ret (text_result m)))"

text \<open>\<open>now\<close> is what \<open>std::ctime\<close> gives.\<close>

definition get_time_handler :: "string \<Rightarrow> json \<Rightarrow> call_tool_result prog" where
  "get_time_handler now args =
     (let t = (if now \<noteq> [] \<and> last now = CHR 0x0A then butlast now else now) in Ret (text_result (''Current time: '' @ t)))"

definition config_handler :: "string \<Rightarrow> read_resource_result prog" where
  "config_handler uri = Ret \<lparr>rrr_contents =
     [\<lparr>rc_uri = ''file:///config.json'', rc_mime_type = ''application/json'',
       rc_text = Some ''{\"version\": \"1.0.0\", \"name\": \"cppmcp\"}'', rc_blob = None\<rparr>]\<rparr>"

definition greet_handler :: "json \<Rightarrow> call_tool_result prog" where
  "greet_handler args = attempt (string_argument args ''name'') (\<lambda>name.
     Ret (text_result (''Hello, '' @ name @ ''! Welcome to the MCP server.'')))"

definition optional_argument :: "json \<Rightarrow> string \<Rightarrow> string \<Rightarrow> string res" where
  "optional_argument args k d = (if jcontains args k then string_argument args k else Inr d)"

definition review_handler :: "string \<Rightarrow> json \<Rightarrow> get_prompt_result prog" where
  "review_handler n args = attempt (optional_argument args ''code'' []) (\<lambda>code.
     attempt (optional_argument args ''language'' ''unknown'') (\<lambda>lang.
     Ret \<lparr>gpr_description = Some (''Code review prompt for '' @ lang),
          gpr_messages = [\<lparr>pm_role = ''user'',
            pm_content = plain_text (''Please review this '' @ lang @ '' code:'' @ [CHR 0x0A, CHR 0x0A] @ code)\<rparr>]\<rparr>))"


section \<open>The servers\<close>

definition stdio_example :: server where
  "stdio_example =
     connect_transport
    (register_prompt ''greet''
       \<lparr>prompt_name = ''greet'', prompt_title = None, prompt_description = Some ''Generate a greeting for a given name'',
        prompt_arguments = Some [\<lparr>pa_name = ''name'', pa_description = None, pa_required = Some True\<rparr>]\<rparr>
       greet_prompt_handler
    (register_resource ''cppmcp://hello''
       \<lparr>res_name = ''hello'', res_title = None, res_uri = ''cppmcp://hello'',
        res_description = Some ''A friendly greeting resource'', res_mime_type = None, res_annotations = None\<rparr>
       hello_handler
    (register_tool ''add''
       ((plain_tool ''add'' ''Adds two numbers together'' add_schema)\<lparr>tool_annots := Some
          \<lparr>ta_read_only_hint = Some True, ta_destructive_hint = None, ta_idempotent_hint = None, ta_open_world_hint = None\<rparr>\<rparr>)
       add_handler
    (register_tool ''echo'' (plain_tool ''echo'' ''Echoes back the input message'' echo_schema) echo_handler
    (McpServer \<lparr>impl_name = ''cppmcp_stdio_example'', impl_version = ''1.0.0''\<rparr>
       (no_caps\<lparr>sc_tools := Some has_tools,
          sc_resources := Some \<lparr>rcap_subscribe = None, rcap_list_changed = None\<rparr>,
          sc_prompts := Some \<lparr>pc_list_changed = None\<rparr>\<rparr>))))))"

definition pipe_example :: server where
  "pipe_example =
     connect_transport
    (register_tool ''add'' (plain_tool ''add'' ''Adds two numbers together'' add_schema) add_handler
    (register_tool ''echo'' (plain_tool ''echo'' ''Echoes back the input message'' echo_schema) echo_handler
    (McpServer \<lparr>impl_name = ''cppmcp_pipe_example'', impl_version = ''1.0.0''\<rparr> (no_caps\<lparr>sc_tools := Some has_tools\<rparr>))))"

definition pipe_example_config :: pipe_config where
  "pipe_example_config = LocalPipeConfig\<lparr>lp_name := ''cppmcp_mcp'', lp_mode := SingleClient\<rparr>"

definition demo_server :: server where
  "demo_server =
     connect_transport
    (register_tool ''echo'' (plain_tool ''echo'' ''Echo a message back, reporting progress''
       (object_schema [(''message'', jobject [(''type'', JStr ''string'')])] [''message''])) demo_echo_handler
    (McpServer \<lparr>impl_name = ''demo_server'', impl_version = ''1.0.0''\<rparr> (no_caps\<lparr>sc_tools := Some has_tools\<rparr>)))"

definition sse_example :: "string \<Rightarrow> server" where
  "sse_example now =
     connect_transport
    (register_resource ''file:///config.json''
       \<lparr>res_name = ''config'', res_title = None, res_uri = ''file:///config.json'',
        res_description = Some ''Server configuration'', res_mime_type = Some ''application/json'', res_annotations = None\<rparr>
       config_handler
    (register_tool ''get_time'' (plain_tool ''get_time'' ''Returns the current server time''
       (jobject [(''type'', JStr ''object''), (''properties'', JObj [])])) (get_time_handler now)
    (McpServer \<lparr>impl_name = ''cppmcp_sse_example'', impl_version = ''1.0.0''\<rparr>
       (no_caps\<lparr>sc_tools := Some has_tools, sc_logging := Some (),
          sc_resources := Some \<lparr>rcap_subscribe = Some True, rcap_list_changed = None\<rparr>\<rparr>))))"

definition sse_example_config :: http_config where
  "sse_example_config = default_config\<lparr>cfg_mode := SSE, cfg_host := ''127.0.0.1'', cfg_port := 3001, cfg_sse_path := ''/sse'',
     cfg_message_path := ''/messages''\<rparr>"

definition http_example :: server where
  "http_example =
     connect_transport
    (register_prompt ''code_review''
       \<lparr>prompt_name = ''code_review'', prompt_title = None, prompt_description = Some ''Prompt template for code review'',
        prompt_arguments = Some
          [\<lparr>pa_name = ''code'', pa_description = Some ''The code to review'', pa_required = Some True\<rparr>,
           \<lparr>pa_name = ''language'', pa_description = Some ''Programming language'', pa_required = None\<rparr>]\<rparr>
       review_handler
    (register_tool ''greet'' (plain_tool ''greet'' ''Generates a greeting message for a person''
       (object_schema [(''name'', typed ''string'' (''Person'' @ [CHR 0x27] @ ''s name''))] [''name''])) greet_handler
    (McpServer \<lparr>impl_name = ''cppmcp_http_example'', impl_version = ''1.0.0''\<rparr>
       (no_caps\<lparr>sc_tools := Some has_tools, sc_logging := Some (), sc_prompts := Some \<lparr>pc_list_changed = Some True\<rparr>\<rparr>))))"

definition http_example_config :: http_config where
  "http_example_config = default_config\<lparr>cfg_mode := StreamableHttp, cfg_host := ''127.0.0.1'', cfg_port := 3000, cfg_path := ''/mcp''\<rparr>"


section \<open>Valid arguments are safe\<close>

lemmas setup_defs = register_tool_def register_resource_def register_prompt_def registering_def ensure_pre_run_def
  McpServer_def update_handlers_def warn_if_def connect_transport_def slog_def Let_def no_handlers_def

lemma object_schema_ok:
  "schema_ok x (object_schema ps rs) \<longleftrightarrow> (\<exists>m. x = JObj m \<and> (\<forall>k \<in> set rs. map_of m k \<noteq> None)
     \<and> (\<forall>(k, v) \<in> set m. \<forall>s. map_of (rev ps) k = Some s \<longrightarrow> schema_ok v s))"
proof -
  have "jget (object_schema ps rs) ''type'' = Some (JStr ''object'')" "jget (object_schema ps rs) ''enum'' = None"
    "jget (object_schema ps rs) ''required'' = Some (JArr (map JStr rs))" "is_object (object_schema ps rs)"
    "jget (object_schema ps rs) ''properties'' = Some (JObj (omap_of_list ps))" "jget (object_schema ps rs) ''items'' = None"
    by (simp_all add: object_schema_def) (simp add: jobject_def)
  then show ?thesis
    by (subst schema_ok.simps, cases x) auto
qed

lemma typed_ok:
  "schema_ok x (typed ''string'' d) \<longleftrightarrow> is_string x" "schema_ok x (typed ''number'' d) \<longleftrightarrow> is_number x"
  by (subst schema_ok.simps, simp add: typed_def)+

lemma string_ok: "schema_ok x (jobject [(''type'', JStr ''string'')]) \<longleftrightarrow> is_string x"
  by (subst schema_ok.simps) simp

lemma attempt_defined [simp]:
  "prog_defined (attempt x f) \<longleftrightarrow> (case x of Inl e \<Rightarrow> e \<noteq> UndefinedBehaviour | Inr y \<Rightarrow> prog_defined (f y))"
  by (simp add: attempt_def split: sum.split)

lemma get_defined: "get_string v \<noteq> Inl UndefinedBehaviour" "get_double v \<noteq> Inl UndefinedBehaviour"
  by (cases v; simp)+

lemma argument_defined:
  assumes "map_of m k \<noteq> None"
  shows "string_argument (JObj m) k \<noteq> Inl UndefinedBehaviour" "number_argument (JObj m) k \<noteq> Inl UndefinedBehaviour"
  using assms get_defined by (auto simp: string_argument_def number_argument_def)

lemma attempt_safe: "x \<noteq> Inl UndefinedBehaviour \<Longrightarrow> (\<And>y. prog_defined (f y)) \<Longrightarrow> prog_defined (attempt x f)"
  by (auto split: sum.split)

lemma tool_handlers_safe:
  "schema_ok x echo_schema \<Longrightarrow> prog_defined (echo_handler x)"
  "schema_ok x add_schema \<Longrightarrow> prog_defined (add_handler x)"
  "schema_ok x (object_schema [(''message'', s)] [''message'']) \<Longrightarrow> prog_defined (demo_echo_handler x)"
  "schema_ok x (object_schema [(''name'', s)] [''name'']) \<Longrightarrow> prog_defined (greet_handler x)"
  "prog_defined (get_time_handler now x)"
  unfolding echo_schema_def add_schema_def object_schema_ok echo_handler_def add_handler_def demo_echo_handler_def
    greet_handler_def get_time_handler_def
  by (auto simp: Let_def simp del: attempt_defined intro!: attempt_safe argument_defined)

lemma prompt_handlers_safe:
  "jget args ''name'' \<noteq> None \<Longrightarrow> prog_defined (greet_prompt_handler n args)" "prog_defined (review_handler n args)"
proof -
  show "jget args ''name'' \<noteq> None \<Longrightarrow> prog_defined (greet_prompt_handler n args)"
    unfolding greet_prompt_handler_def by (cases args) (auto simp del: attempt_defined intro!: attempt_safe argument_defined)
  have "optional_argument args k d \<noteq> Inl UndefinedBehaviour" for k d
    by (cases args) (auto simp: optional_argument_def jcontains_def intro!: argument_defined)
  then show "prog_defined (review_handler n args)"
    unfolding review_handler_def by (auto simp del: attempt_defined intro!: attempt_safe)
qed

definition example_servers :: "server set" where
  "example_servers = {stdio_example, pipe_example, demo_server, http_example} \<union> range sse_example"

text \<open>Registering a handler that is safe keeps the handlers defined.\<close>

lemma register_idle [simp]:
  "sv_running (register_tool n d h s) = sv_running s" "sv_running (register_resource u rd rh s) = sv_running s"
  "sv_running (register_prompt n pd ph s) = sv_running s" "sv_running (connect_transport s) = sv_running s"
  "\<not> sv_running (McpServer info caps)" "sv_handlers (connect_transport s) = sv_handlers s"
  "sv_handlers (McpServer info caps) = no_handlers"
  by (simp_all add: setup_defs)

lemma handlers_defined_tool:
  assumes "handlers_defined (sv_handlers s)" "\<And>x. schema_ok x (tool_input_schema d) \<Longrightarrow> prog_defined (h x)"
  shows "handlers_defined (sv_handlers (register_tool n d h s))"
  using assms by (auto simp: handlers_defined_def setup_defs map_of_oset)

lemma handlers_defined_resource:
  assumes "handlers_defined (sv_handlers s)" "\<And>x. prog_defined (h x)"
  shows "handlers_defined (sv_handlers (register_resource u d h s))"
  using assms by (auto simp: handlers_defined_def setup_defs map_of_oset)

lemma handlers_defined_prompt:
  assumes "handlers_defined (sv_handlers s)" "\<And>x a. missing_argument d a = None \<Longrightarrow> prog_defined (h x a)"
  shows "handlers_defined (sv_handlers (register_prompt n d h s))"
  using assms by (auto simp: handlers_defined_def setup_defs map_of_oset)

lemma example_handlers_defined:
  assumes "srv \<in> example_servers"
  shows "handlers_defined (sv_handlers srv)"
proof -
  have d: "tool_input_schema (plain_tool n ds sc) = sc" for n ds sc
    by (simp add: plain_tool_def)
  note register = handlers_defined_tool handlers_defined_resource handlers_defined_prompt
  note safe = tool_handlers_safe prompt_handlers_safe hello_handler_def config_handler_def d no_handlers_defined
  have "handlers_defined (sv_handlers stdio_example)"
    unfolding stdio_example_def by (simp, intro register) (auto simp: safe missing_argument_def split: if_splits option.split_asm)
  moreover have "handlers_defined (sv_handlers pipe_example)" "handlers_defined (sv_handlers demo_server)"
    unfolding pipe_example_def demo_server_def by (simp_all, (intro register; simp add: safe)+)
  moreover have "handlers_defined (sv_handlers http_example)" "handlers_defined (sv_handlers (sse_example now))" for now
    unfolding http_example_def sse_example_def by (simp_all, (intro register; simp add: safe)+)
  ultimately show ?thesis
    using assms by (auto simp: example_servers_def)
qed

text \<open>The example servers answer every request. In every state in which the registrations of one of them are in
  force, whatever a client sends, with any arguments, yields exactly one response with the id of the request: no
  handler indexes a member that is missing.\<close>

theorem example_servers_answer:
  assumes "srv \<in> example_servers" "active_handlers s = sv_handlers srv" "sv_page_size s = 0"
  shows "\<exists>j s'. process_request env r sid s = (Inr j, s') \<and> response_to (req_id r) j"
proof -
  have "unat off < 2 ^ 64" for off :: "64 word"
    using unsigned_less [of off] by simp
  then have "cursor_fits s p" for p
    using assms(3) by (simp add: cursor_fits_def)
  then show ?thesis
    using example_handlers_defined [OF assms(1)] assms(2)
    by (intro process_request_answers answers_dispatch) simp_all
qed


section \<open>The tools do what they say\<close>

definition example_running :: "server \<Rightarrow> server \<Rightarrow> bool" where
  "example_running srv s \<longleftrightarrow> idle s \<and> active_handlers s = sv_handlers srv \<and> sv_transport s \<and> \<not> sv_stopping s"

text \<open>The message of a progress report, half done.\<close>

definition half_done :: "request_id \<Rightarrow> json" where
  "half_done i = serialize_notification \<lparr>notif_method = NOTIF_PROGRESS, notif_params = Some (JObj (oset_opt ''total'' (Some (JFloat double_one))
     (omap_of_list [(''progressToken'', request_id_to_json i), (''progress'', JFloat double_half)])))\<rparr>"

lemma half_done_sent:
  assumes "sv_transport s" "\<not> sv_stopping s" "\<And>m. se_send env m = None"
  shows "notify_progress env i double_half (Some double_one) sid s
    = s\<lparr>sv_sent := sv_sent s @ [(if sid = [] then Broadcast else ToSession sid, half_done i)]\<rparr>"
  using assms by (simp add: notify_progress_def Server.send_notification_def transport_send_def half_done_def)

lemma registered_tools:
  "\<not> sv_running s \<Longrightarrow> map_of (h_tools (sv_handlers (register_tool n d h s))) k
     = (if k = n then Some (d, h) else map_of (h_tools (sv_handlers s)) k)"
  "\<not> sv_running s \<Longrightarrow> h_tools (sv_handlers (register_resource u rd rh s)) = h_tools (sv_handlers s)"
  "\<not> sv_running s \<Longrightarrow> h_tools (sv_handlers (register_prompt p pd ph s)) = h_tools (sv_handlers s)"
  by (simp_all add: setup_defs map_of_oset)

lemma example_tools:
  assumes "srv \<in> {stdio_example, pipe_example}"
  shows "\<exists>d. map_of (h_tools (sv_handlers srv)) ''echo'' = Some (d, echo_handler) \<and> tool_input_schema d = echo_schema"
    and "\<exists>d. map_of (h_tools (sv_handlers srv)) ''add'' = Some (d, add_handler) \<and> tool_input_schema d = add_schema"
proof -
  have "srv = stdio_example \<or> srv = pipe_example" using assms by simp
  then show "\<exists>d. map_of (h_tools (sv_handlers srv)) ''echo'' = Some (d, echo_handler) \<and> tool_input_schema d = echo_schema"
    "\<exists>d. map_of (h_tools (sv_handlers srv)) ''add'' = Some (d, add_handler) \<and> tool_input_schema d = add_schema"
    by (elim disjE; simp add: stdio_example_def pipe_example_def registered_tools plain_tool_def)+
qed

lemma whole_argument:
  fixes w :: "64 word"
  assumes "map_of m k = Some (JUInt w)"
  shows "number_argument (JObj m) k = Inr (int_to_double (int (unat w)))"
  using assms by (simp add: number_argument_def)


lemma pipe_example_running: "example_running pipe_example ((run ex_senv None pipe_example)\<lparr>sv_initialized := True\<rparr>)"
proof -
  have "sv_jobs (register_tool n d h s) = sv_jobs s" "sv_posted (register_tool n d h s) = sv_posted s"
    "sv_stopping (register_tool n d h s) = sv_stopping s" "sv_jobs (McpServer info caps) = []"
    "sv_posted (McpServer info caps) = []" "\<not> sv_stopping (McpServer info caps)" for n d h s info caps
    by (simp_all add: setup_defs)
  then have "sv_transport pipe_example" "sv_jobs pipe_example = []" "sv_posted pipe_example = []" "\<not> sv_stopping pipe_example"
    unfolding pipe_example_def by (simp_all add: connect_transport_def)
  then show ?thesis
    by (simp add: example_running_def idle_def run_def active_handlers_def Let_def)
qed


end
