(* ===== verification/Logger.thy ===== *)
theory Logger
  imports Prelude
begin

text \<open>
  The asynchronous logger and the worker pool (\<open>logging.hpp\<close>, \<open>logging.cpp\<close>, \<open>request_executor.hpp\<close>,
  \<open>request_executor.cpp\<close>). Both are a queue with threads of their own. The logger is modelled down to the
  parts of its functions between two locks, so that the interleavings of the threads that log, the
  thread that drains and the thread that flushes are those of the code.
\<close>

section \<open>The logger\<close>

datatype drain_phase = DrainIdle | DrainHolds string | DrainEnded

datatype flush_phase = NotFlushed | Marked | Joining | Writing "string list" | Flushed

text \<open>\<open>lg_checked\<close> are the messages of calls that have passed the test of \<open>flushed_\<close> and do not hold the lock yet;
  \<open>lg_accepted\<close> the messages pushed so far, \<open>lg_out\<close> the lines written.\<close>

record logger =
  lg_queue :: "string list"
  lg_stopping :: bool
  lg_flushed :: bool
  lg_checked :: "string list"
  lg_drain :: drain_phase
  lg_flush :: flush_phase
  lg_accepted :: "string list"
  lg_out :: "string list"

definition AsyncLogger :: logger where
  "AsyncLogger = \<lparr>lg_queue = [], lg_stopping = False, lg_flushed = False, lg_checked = [], lg_drain = DrainIdle,
     lg_flush = NotFlushed, lg_accepted = [], lg_out = []\<rparr>"

text \<open>\<open>log\<close>: the test, and the part under the lock.\<close>

definition log_check :: "string \<Rightarrow> logger \<Rightarrow> logger" where
  "log_check m s = (if lg_flushed s then s else s\<lparr>lg_checked := lg_checked s @ [m]\<rparr>)"

definition log_push :: "string \<Rightarrow> logger \<Rightarrow> logger" where
  "log_push m s =
     (let s1 = s\<lparr>lg_checked := remove1 m (lg_checked s)\<rparr> in
      if length (lg_queue s1) \<ge> 1024 then s1
      else s1\<lparr>lg_queue := lg_queue s1 @ [m], lg_accepted := lg_accepted s1 @ [m]\<rparr>)"

text \<open>\<open>drain_loop\<close>: the part under the lock, and the write.\<close>

definition drain_take :: "logger \<Rightarrow> logger" where
  "drain_take s =
     (case lg_queue s of
        [] \<Rightarrow> if lg_stopping s then s\<lparr>lg_drain := DrainEnded\<rparr> else s
      | m # q \<Rightarrow> s\<lparr>lg_queue := q, lg_drain := DrainHolds m\<rparr>)"

definition drain_write :: "logger \<Rightarrow> logger" where
  "drain_write s = (case lg_drain s of DrainHolds m \<Rightarrow> s\<lparr>lg_out := lg_out s @ [m], lg_drain := DrainIdle\<rparr> | _ \<Rightarrow> s)"

text \<open>\<open>flush\<close>: the exchange of the flag, telling the thread to stop, taking what is left after the thread was joined,
  and writing it.\<close>

definition flush_mark :: "logger \<Rightarrow> logger" where
  "flush_mark s = (if lg_flushed s then s else s\<lparr>lg_flushed := True, lg_flush := Marked\<rparr>)"

definition flush_stop :: "logger \<Rightarrow> logger" where
  "flush_stop s = s\<lparr>lg_stopping := True, lg_flush := Joining\<rparr>"

definition flush_take :: "logger \<Rightarrow> logger" where
  "flush_take s = s\<lparr>lg_flush := Writing (lg_queue s), lg_queue := []\<rparr>"

definition flush_write :: "logger \<Rightarrow> logger" where
  "flush_write s =
     (case lg_flush s of
        Writing (m # ms) \<Rightarrow> s\<lparr>lg_out := lg_out s @ [m], lg_flush := Writing ms\<rparr>
      | Writing [] \<Rightarrow> s\<lparr>lg_flush := Flushed\<rparr>
      | _ \<Rightarrow> s)"

inductive log_step :: "logger \<Rightarrow> logger \<Rightarrow> bool" where
  check: "log_step s (log_check m s)"
| push: "m \<in> set (lg_checked s) \<Longrightarrow> log_step s (log_push m s)"
| drain: "lg_drain s = DrainIdle \<Longrightarrow> log_step s (drain_take s)"
| print: "log_step s (drain_write s)"
| mark: "log_step s (flush_mark s)"
| halt: "lg_flush s = Marked \<Longrightarrow> log_step s (flush_stop s)"
| joined: "lg_flush s = Joining \<Longrightarrow> lg_drain s = DrainEnded \<Longrightarrow> log_step s (flush_take s)"
| rest: "log_step s (flush_write s)"

definition drain_holds :: "logger \<Rightarrow> string list" where
  "drain_holds s = (case lg_drain s of DrainHolds m \<Rightarrow> [m] | _ \<Rightarrow> [])"

definition flush_holds :: "logger \<Rightarrow> string list" where
  "flush_holds s = (case lg_flush s of Writing ms \<Rightarrow> ms | _ \<Rightarrow> [])"

definition log_inv :: "logger \<Rightarrow> bool" where
  "log_inv s \<longleftrightarrow> length (lg_queue s) \<le> 1024
     \<and> lg_out s @ drain_holds s @ flush_holds s @ lg_queue s = lg_accepted s
     \<and> (lg_flush s \<noteq> NotFlushed \<longrightarrow> lg_flushed s)
     \<and> (case lg_flush s of Writing _ \<Rightarrow> lg_drain s = DrainEnded | Flushed \<Rightarrow> lg_drain s = DrainEnded | _ \<Rightarrow> True)"

lemmas log_op_defs = log_check_def log_push_def drain_take_def drain_write_def flush_mark_def flush_stop_def flush_take_def
  flush_write_def

lemma log_inv_step: "log_step s t \<Longrightarrow> log_inv s \<Longrightarrow> log_inv t"
proof (induction rule: log_step.induct)
  case (push m s)
  then show ?case by (cases "lg_flush s") (auto simp: log_inv_def log_push_def Let_def drain_holds_def flush_holds_def)
next
  case (drain s)
  then show ?case
    by (cases "lg_queue s"; cases "lg_flush s") (auto simp: log_inv_def drain_take_def drain_holds_def flush_holds_def)
next
  case (print s)
  then show ?case
    by (cases "lg_drain s"; cases "lg_flush s") (auto simp: log_inv_def drain_write_def drain_holds_def flush_holds_def)
next
  case (rest s)
  then show ?case
    by (auto simp: log_inv_def flush_write_def drain_holds_def flush_holds_def split: flush_phase.splits list.splits)
qed (auto simp: log_inv_def log_check_def flush_mark_def flush_stop_def flush_take_def drain_holds_def flush_holds_def
    split: flush_phase.splits drain_phase.splits)

interpretation logs: invariant_system "\<lambda>s. s = AsyncLogger" log_step log_inv
proof
  show "log_inv s" if "s = AsyncLogger" for s using that by (simp add: log_inv_def AsyncLogger_def drain_holds_def flush_holds_def)
qed (rule log_inv_step)

text \<open>C36: The log keeps its order. In every interleaving of the threads, the lines written are the messages accepted so far,
  in order, each once, except for those that still wait: never more than 1024 in the queue, besides the
  ones the draining and the flushing thread hold. Once the logger is flushed, everything accepted is written but
  for messages pushed meanwhile.\<close>

theorem log_keeps_order:
  assumes "log_step\<^sup>*\<^sup>* AsyncLogger s"
  shows "lg_accepted s = lg_out s @ drain_holds s @ flush_holds s @ lg_queue s \<and> length (lg_queue s) \<le> 1024
    \<and> (lg_flush s = Flushed \<longrightarrow> lg_accepted s = lg_out s @ lg_queue s)"
  using logs.reachable_inv [OF refl assms]
  by (auto simp: log_inv_def drain_holds_def flush_holds_def)

theorem log_keeps_order_witness:
  "lg_accepted (drain_take (log_push ''hi'' (log_check ''hi'' AsyncLogger))) = [''hi'']"
proof -
  let ?s1 = "log_check ''hi'' AsyncLogger"
  let ?s2 = "log_push ''hi'' ?s1"
  have "log_step AsyncLogger ?s1" by (rule log_step.check)
  moreover have "log_step ?s1 ?s2" by (rule log_step.push) (simp add: log_check_def AsyncLogger_def)
  moreover have "log_step ?s2 (drain_take ?s2)" by (rule log_step.drain) (simp add: log_op_defs AsyncLogger_def Let_def)
  ultimately have "log_step\<^sup>*\<^sup>* AsyncLogger (drain_take ?s2)"
    by (rule converse_rtranclp_into_rtranclp [OF _ converse_rtranclp_into_rtranclp [OF _ r_into_rtranclp]])
  from log_keeps_order [OF this] show ?thesis
    by (simp add: log_op_defs AsyncLogger_def Let_def drain_holds_def flush_holds_def)
qed

text \<open>A flushed logger stays silent: nothing resets the flag, and no later call gets past it.\<close>

lemma flushed_for_good: "log_step s t \<Longrightarrow> lg_flushed s \<Longrightarrow> lg_flushed t \<and> set (lg_checked t) \<subseteq> set (lg_checked s)"
  by (induction rule: log_step.induct)
    (auto simp: log_op_defs Let_def split: list.splits drain_phase.splits flush_phase.splits dest: set_remove1_subset [THEN subsetD])

text \<open>When the thread was told to stop it ends after writing what is queued, so that \<open>flush\<close> gets past the join.\<close>

fun drain_rounds :: "nat \<Rightarrow> logger \<Rightarrow> logger" where
  "drain_rounds 0 s = s"
| "drain_rounds (Suc n) s = drain_rounds n (drain_take (drain_write s))"

lemma drain_ends:
  "lg_stopping s \<Longrightarrow> lg_drain s = DrainIdle \<Longrightarrow>
   lg_drain (drain_rounds (Suc (length (lg_queue s))) s) = DrainEnded \<and> lg_out (drain_rounds (Suc (length (lg_queue s))) s) = lg_out s @ lg_queue s"
proof (induction "lg_queue s" arbitrary: s)
  case Nil
  then show ?case by (simp add: drain_take_def drain_write_def)
next
  case (Cons m q)
  have q: "lg_queue s = m # q" using Cons(2) by simp
  let ?s = "s\<lparr>lg_queue := q, lg_drain := DrainHolds m\<rparr>"
  have first: "drain_take (drain_write s) = ?s" using Cons.prems q by (simp add: drain_take_def drain_write_def)
  have "drain_rounds (Suc (length q)) ?s = drain_rounds (Suc (length q)) (s\<lparr>lg_queue := q, lg_out := lg_out s @ [m], lg_drain := DrainIdle\<rparr>)"
    by (simp add: drain_write_def)
  with Cons.hyps(1) [of "s\<lparr>lg_queue := q, lg_out := lg_out s @ [m], lg_drain := DrainIdle\<rparr>"] Cons.prems show ?case
    by (simp add: q first del: drain_rounds.simps(2)) (simp add: first drain_rounds.simps(2) [of "Suc (length q)"] del: drain_rounds.simps(2))
qed


section \<open>The worker pool\<close>

text \<open>\<open>wp_guard\<close> is the work guard, \<open>wp_io_stopped\<close> whether the \<open>io_context\<close> was stopped: \<open>run\<close> then returns at once,
  and nothing here restarts it.\<close>

record 'task worker_pool =
  wp_num :: nat
  wp_started :: bool
  wp_guard :: bool
  wp_io_stopped :: bool
  wp_threads :: nat
  wp_tasks :: "'task list"
  wp_run :: "'task list"

definition RequestExecutor :: "nat \<Rightarrow> 'task worker_pool" where
  "RequestExecutor num_threads = \<lparr>wp_num = (if num_threads = 0 then 1 else num_threads), wp_started = False, wp_guard = True,
     wp_io_stopped = False, wp_threads = 0, wp_tasks = [], wp_run = []\<rparr>"

definition pool_start :: "'task worker_pool \<Rightarrow> 'task worker_pool" where
  "pool_start s = (if wp_started s then s else s\<lparr>wp_started := True, wp_threads := wp_threads s + wp_num s\<rparr>)"

definition pool_stop :: "'task worker_pool \<Rightarrow> 'task worker_pool" where
  "pool_stop s = s\<lparr>wp_started := False, wp_guard := False, wp_io_stopped := True, wp_threads := 0\<rparr>"

definition pool_post :: "'task \<Rightarrow> 'task worker_pool \<Rightarrow> 'task worker_pool" where
  "pool_post t s = s\<lparr>wp_tasks := wp_tasks s @ [t]\<rparr>"

text \<open>A thread in \<open>run\<close> takes the oldest task.\<close>

definition pool_run_one :: "'task worker_pool \<Rightarrow> 'task worker_pool" where
  "pool_run_one s =
     (if wp_threads s = 0 \<or> wp_io_stopped s then s
      else case wp_tasks s of [] \<Rightarrow> s | t # ts \<Rightarrow> s\<lparr>wp_tasks := ts, wp_run := wp_run s @ [t]\<rparr>)"

inductive pool_step :: "'task worker_pool \<Rightarrow> 'task worker_pool \<Rightarrow> bool" where
  start: "pool_step s (pool_start s)"
| stop: "pool_step s (pool_stop s)"
| post: "pool_step s (pool_post t s)"
| run: "pool_step s (pool_run_one s)"

lemmas pool_op_defs = pool_start_def pool_stop_def pool_post_def pool_run_one_def

text \<open>A started pool that was never stopped runs what is posted, in order; a pool that was stopped never runs
  anything again, started anew or not.\<close>

lemma pool_runs: "0 < wp_threads s \<Longrightarrow> \<not> wp_io_stopped s \<Longrightarrow>
  wp_run ((pool_run_one ^^ length (wp_tasks s)) s) = wp_run s @ wp_tasks s"
proof (induction "wp_tasks s" arbitrary: s)
  case (Cons t ts)
  have "wp_tasks s = t # ts" using Cons(2) by simp
  then have "pool_run_one s = s\<lparr>wp_tasks := ts, wp_run := wp_run s @ [t]\<rparr>" using Cons.prems by (simp add: pool_run_one_def)
  with Cons(1) [of "s\<lparr>wp_tasks := ts, wp_run := wp_run s @ [t]\<rparr>"] Cons.prems \<open>wp_tasks s = t # ts\<close> show ?case
    by (simp add: funpow_swap1)
qed simp

lemma stopped_step: "pool_step s t \<Longrightarrow> wp_io_stopped s \<Longrightarrow> wp_io_stopped t \<and> wp_run t = wp_run s"
  by (induction rule: pool_step.induct) (auto simp: pool_op_defs)

text \<open>A stopped pool cannot be started again. Started anew after a stop, its threads find a stopped event loop and
  return: no task runs any more, whatever is posted; before the first stop every posted task runs, in order.\<close>

theorem stopped_pool_runs_nothing:
  assumes "pool_step\<^sup>*\<^sup>* (pool_start (pool_stop s)) t"
  shows "wp_run t = wp_run s
    \<and> wp_run ((pool_run_one ^^ length ts) (fold pool_post ts (pool_start (RequestExecutor n)))) = ts"
proof
  have "wp_io_stopped t \<and> wp_run t = wp_run (pool_start (pool_stop s))"
    using assms
  proof (induction rule: rtranclp_induct)
    case base
    then show ?case by (simp add: pool_op_defs)
  next
    case (step y z)
    then show ?case using stopped_step by metis
  qed
  then show "wp_run t = wp_run s" by (simp add: pool_op_defs)
  have "fold pool_post ts u = u\<lparr>wp_tasks := wp_tasks u @ ts\<rparr>" for u
    by (induction ts arbitrary: u) (simp_all add: pool_post_def)
  then have p: "fold pool_post ts (pool_start (RequestExecutor n)) = (pool_start (RequestExecutor n))\<lparr>wp_tasks := ts\<rparr>"
    by (simp add: pool_start_def RequestExecutor_def)
  show "wp_run ((pool_run_one ^^ length ts) (fold pool_post ts (pool_start (RequestExecutor n)))) = ts"
    using pool_runs [of "(pool_start (RequestExecutor n))\<lparr>wp_tasks := ts\<rparr>"] unfolding p
    by (simp add: pool_start_def RequestExecutor_def)
qed

theorem stopped_pool_runs_nothing_witness:
  "wp_run (pool_run_one (pool_post ''job'' (pool_start (pool_stop (RequestExecutor 2))))) = []"
proof -
  let ?s = "pool_start (pool_stop (RequestExecutor 2))"
  have "pool_step ?s (pool_post ''job'' ?s)" by (rule pool_step.post)
  moreover have "pool_step (pool_post ''job'' ?s) (pool_run_one (pool_post ''job'' ?s))" by (rule pool_step.run)
  ultimately have "pool_step\<^sup>*\<^sup>* ?s (pool_run_one (pool_post ''job'' ?s))" by (rule converse_rtranclp_into_rtranclp [OF _ r_into_rtranclp])
  from stopped_pool_runs_nothing [OF this, of "[] :: unit list" 1] show ?thesis by (simp add: RequestExecutor_def)
qed

end
