(* ===== verification/Spec2Isabelle.thy ===== *)
theory Spec2Isabelle
  imports Write_Queue Client_Props Server_Calls Http_Sweep Http_Client_Props Line_Pairs Pipe_Windows Examples Logger
begin

text \<open>
  A model of cppmcp, a C++ library for the Model Context Protocol: JSON-RPC messages, a client, a
  server, and the transports between them. Sources are named relative to \<open>src/include/cppmcp\<close> (headers)
  and \<open>src/src\<close>.

  \<^bold>\<open>The parts and their theories.\<close>

  \<^item> \<open>Prelude\<close>, \<open>Ord_Map\<close>, \<open>Cpp_Double\<close>, \<open>Json_Value\<close>: what the sources use of the language and of the
    JSON library: strings, results with exceptions (\<open>'a res\<close>), ordered maps (\<open>std::map\<close>, an
    association list sorted by its keys, with its order of iteration), \<open>double\<close> as a bit pattern, and
    JSON values with member access, type tests, conversions that throw, and equality. \<open>Prelude\<close> holds the locale
    \<open>invariant_system\<close>, which every step relation below interprets.
  \<^item> \<open>Protocol\<close> (\<open>protocol.hpp\<close>, \<open>error_codes.hpp\<close>, \<open>exception.hpp\<close>, \<open>common.hpp\<close>): constants,
    exceptions, request ids. \<open>Codec\<close>: the contract of a \<open>to_json\<close>/\<open>from_json\<close> pair, as a locale that
    every pair of \<open>types.cpp\<close> interprets.
  \<^item> \<open>Jsonrpc\<close> (\<open>jsonrpc.hpp\<close>, \<open>jsonrpc.cpp\<close>): the messages, both parsers, the constructors.
  \<^item> \<open>Mcp_Types\<close>, \<open>Mcp_Session_Types\<close> (\<open>types.hpp\<close>, \<open>types.cpp\<close>): the data of the protocol and its JSON
    forms.
  \<^item> \<open>Write_Queue\<close> (\<open>async_write_queue.hpp\<close>): the bounded queue of outgoing data, split where the code
    takes and releases its lock, with a step relation over the interleavings.
  \<^item> \<open>Pending_Request\<close> (\<open>pending_request.hpp\<close>, \<open>pending_request.cpp\<close>): one outbound request: state, promise,
    callbacks, timer.
  \<^item> \<open>Client\<close>, \<open>Client_Run\<close>, \<open>Client_Props\<close> (\<open>client.hpp\<close>, \<open>client.cpp\<close>): the client's operations; its
    threads as a step relation (user calls, the strand, the worker pool, timers, the transport); its
    invariants and properties.
  \<^item> \<open>Server_Util\<close>, \<open>Server\<close>, \<open>Server_Props\<close>, \<open>Server_Run\<close>, \<open>Server_Calls\<close> (\<open>server.hpp\<close>, \<open>server.cpp\<close>,
    \<open>context.hpp\<close>, \<open>context.cpp\<close>): the schema validator, URI templates and cursors; registration, life cycle,
    dispatch and every request handler, notifications, requests of the server; the cache of list results; the I/O threads.
  \<^item> \<open>Http_Util\<close>, \<open>Http_Connection\<close>, \<open>Http\<close>, \<open>Http_Caps\<close>, \<open>Http_Props\<close> (\<open>http_transport.hpp\<close>,
    \<open>http_transport.cpp\<close>): the HTTP transport of the server: headers, origins and responses; the parser's
    callbacks and limits; connections, sessions, posted messages, batches, event streams, starting, accepting and
    stopping, the timers; the caps. \<open>Http_Frame\<close>: what the handlers leave alone on every connection, as the locale
    \<open>conn_frame\<close>. \<open>Http_Reading\<close>: the read loop around the parser and the read timeout. \<open>Http_Sweep\<close>: the sweep of
    idle sessions.
  \<^item> \<open>Transport\<close> (\<open>transport.hpp\<close>, \<open>client_transport.hpp\<close>): callbacks and what they do with their transport, and the
    common shape of \<open>handle_line\<close>. \<open>Line_Framing\<close>: newline-delimited reading, with the locale \<open>line_reader\<close> that all
    four line-based transports interpret.
  \<^item> \<open>Stdio\<close> (\<open>stdio_transport.hpp\<close>, \<open>stdio_transport.cpp\<close>): the server's standard I/O transport and its writer
    thread. \<open>Pipe\<close>, \<open>Pipe_Props\<close> (\<open>local_pipe_transport.hpp\<close>, \<open>local_pipe_transport.cpp\<close>): the server's pipe
    transport with its connections. \<open>Pipe_Windows\<close>: its accept thread on Windows, as a state machine.
  \<^item> \<open>Line_Client\<close>, \<open>Stdio_Client\<close>, \<open>Pipe_Client\<close> (\<open>stdio_client_transport.hpp\<close>, \<open>stdio_client_transport.cpp\<close>,
    \<open>local_pipe_client_transport.hpp\<close>, \<open>local_pipe_client_transport.cpp\<close>): the client's line-based transports; what
    they share is in \<open>Line_Client\<close>, whose locale \<open>client_reader\<close> gives \<open>line_reader\<close>. \<open>Line_Pairs\<close>: both sides together.
  \<^item> \<open>Http_Client\<close>, \<open>Http_Client_Props\<close> (\<open>http_client_transport.hpp\<close>, \<open>http_client_transport.cpp\<close>): the client's HTTP
    transport.
  \<^item> \<open>Process\<close>, \<open>Process_Props\<close> (\<open>process.hpp\<close>, \<open>process.cpp\<close>): child processes: command lines and environments for
    Windows; spawning, waiting and ending for Unix. \<open>Process_Windows\<close>: the same for Windows, with an account of the
    handles.
  \<^item> \<open>Logger\<close> (\<open>logging.hpp\<close>, \<open>logging.cpp\<close>, \<open>request_executor.hpp\<close>, \<open>request_executor.cpp\<close>): the asynchronous
    logger and the worker pool.
  \<^item> \<open>Calls\<close>: one request through both sides, from \<open>send()\<close> to \<open>get()\<close>. \<open>Examples\<close>, on \<open>Double_Arith\<close>: the servers of the
    example programs (\<open>src/examples\<close>).
  \<^item> this theory: what else holds of client and server together, and of the client over HTTP.

  \<^bold>\<open>How they interact.\<close> A transport hands each message to \<open>on_message\<close> with a sink for responses. The
  server parses it (\<open>parse_message\<close>), dispatches it (\<open>process_request\<close>, \<open>dispatch_method\<close>) and answers through the
  sink; it sends notifications and its own requests through the transport. The client serialises requests, keeps a
  \<open>PendingRequest\<close> for each, and completes it when \<open>on_transport_message\<close> parses the answer. The HTTP
  transport and the queue of each connection share the contract of \<open>enqueue\<close>. The line-based transports hand every
  line to a message handler that may send through the same transport; the standard I/O client owns a
  \<open>Process\<close>. Objects that the code shares
  by pointer (pending requests, connections, streams, sinks) live in stores and are named by
  their addresses.

  \<^bold>\<open>Parameters.\<close> Code outside the repository is an argument of the definitions: reading and writing JSON
  texts and the texts of exceptions (\<open>he_parse\<close>, \<open>he_dump\<close>, \<open>le_parse\<close>, \<open>le_dump\<close>, \<open>se_what\<close>), the user's handlers (programs over the
  request context on the server, functions on the client), the clock, random ids, the
  HTTP parser (a function from its state and the bytes to the callbacks and the way it stops; the theorems that need more
  assume that it pauses at the end of a message of at least one byte), the answers of the operating system (\<open>fork\<close>,
  \<open>waitpid\<close>, attempts to connect, binding a socket, the handles that the calls of Windows return).
  Theorems quantify over them.

  \<^bold>\<open>What the lemmas show.\<close>

  \<^item> Messages: serialised calls and responses are read back; exactly which values are accepted as requests; which error
    code each malformed message gets; every data type survives its round trip.
  \<^item> Write queue: at most one write is outstanding in every interleaving, what is written is a prefix of what was
    accepted, and an active queue drains.
  \<^item> Client: every request is finished once and only once; a waiting request is always in the table or on its way; a
    drain finishes all; a response completes exactly its request; every request of the server is
    answered; which versions the handshake accepts.
  \<^item> Server: every request yields one response; nothing but initialize and ping is served before the
    initialized notification; a tool runs only on valid arguments (and the validator agrees with a reference
    definition); the list cache is transparent; subscriptions refine a set of pairs; answers to the server's requests reach
    them.
  \<^item> HTTP: the handler is reached only past the checks; caps and limits hold in every reachable state; requests that
    arrive together are handled apart; no read stalls for ever; exactly the idle sessions are dropped; responses cannot
    be split; messages of a session stay in it; exceptions of handlers are contained.
  \<^item> Together: calling a tool over the protocol is like calling its handler; the example servers answer every request and
    their tools do what they say; the handshake ends with both sides agreeing; following the cursors of a list gives exactly the
    registered items; a sampling request of the server is answered by the client's handler.
  \<^item> Line-based transports: however a stream is cut, every line is handled once and in order, so that the messages one
    side accepts run the handler of the other; the writer thread writes in order and drains at the end; the list of
    active connections is right in every reachable state; responses stay on their connection; connecting
    retries exactly while the server is not ready.
  \<^item> HTTP client: the events of the server reach the handler in order; the session id is adopted and sent; requests are
    read back; reading ends and keeps the response well formed.
  \<^item> Processes, logger, pool: arguments and environment reach the child; waiting is bounded; ending leaves nothing
    behind, on Windows no handle either; the accept thread for pipes accounts for every handle; the log keeps its order in every interleaving; the pool runs what is posted.
  \<^item> Where the code falls short: a malformed progress notification ends the client's loop; a request can slip past
    \<open>stop\<close>; a numeric progress token captures a response; a large cursor is undefined behaviour;
    errors reported by the client are lost; refused HTTP requests use up the connection slots; an event cut by a read is
    lost; an HTTP error completes no request; the read timeout closes event streams of the legacy mode; a failed pair of
    pipe ends is closed twice; a client that connects while the pipe transport stops is served after it; a server whose I/O threads have ended
    counts as running; on Unix disconnecting does not close the child's input; an unfinished line
    survives a reconnect; bytes of dropped lines stay counted; an overflow during a broadcast locks twice; a
    stopped pool cannot be started again.

  \<^bold>\<open>Bounds and fuel.\<close> Sizes whose overflow matters are 64-bit words (the queue's byte count, cursor offsets);
  connection and session counts are natural numbers, since caps bound them far below the machine's.
  The schema validator and the template matcher recurse on their input and need no fuel; the
  client's paging loop is given fuel, and \<open>paging_is_complete\<close> shows how much is enough. The read loop of a stream
  (\<open>deliver\<close>) gets as many rounds as the buffer has bytes, and each takes a byte; the loops over HTTP requests and
  responses one more than the read has bytes (\<open>reads_end\<close>, \<open>http_reads_are_bounded\<close>); \<open>wait_for_exit\<close> gets 102 rounds for its two seconds, since each
  sleeps 20 milliseconds. Time is an integer.

  \<^bold>\<open>Not modelled.\<close> Sockets, threads and the event loop themselves: their effects are the
  steps of the relations. Process-wide signal handling. Where the sources have variants for Unix and Windows, that for
  Unix is modelled, and that for Windows where it has logic of its own: the command line, the environment
  block, the creation of pipes and processes, the console loop, the client's connection loop, the accept thread of the
  pipe server. Of the example programs the servers are modelled; not their console output, the calls the demo's
  client makes, and the test program that runs an event loop by hand. Weak memory is not modelled: atomic
  accesses interleave. Handlers of the transports send through their transport and do not disconnect it.
\<close>

section \<open>The handshake between client and server\<close>

definition initialize_request :: "request_id \<Rightarrow> client \<Rightarrow> rpc_request" where
  "initialize_request i c = \<lparr>req_id = i, req_method = METHOD_INITIALIZE, req_params = Some (make_initialize_params c)\<rparr>"

definition initialized_message :: json where
  "initialized_message = serialize_notification \<lparr>notif_method = NOTIF_INITIALIZED, notif_params = None\<rparr>"

text \<open>What the default handler answers.\<close>

definition server_hello :: "string \<Rightarrow> server \<Rightarrow> initialize_result" where
  "server_hello v s = \<lparr>ir_protocol_version = v, ir_capabilities = sv_caps s, ir_server_info = sv_info s, ir_instructions = None\<rparr>"

lemma make_initialize_params_get [simp]:
  "jget (make_initialize_params c) ''protocolVersion'' = Some (JStr LATEST_PROTOCOL_VERSION)"
  "jget (make_initialize_params c) ''capabilities'' = Some (client_capabilities_to_json (cl_caps c))"
  by (simp_all add: make_initialize_params_def)

lemma structured_initialize: "structured (Some (make_initialize_params c))"
  by (simp add: structured_def make_initialize_params_def jobject_def)

lemma negotiate_latest: "negotiate (make_initialize_params c) = LATEST_PROTOCOL_VERSION"
  by (simp add: negotiate_def Let_def version_defs)

lemma hello_of_client:
  "client_hello_of (make_initialize_params c)
     = \<lparr>hello_capabilities = cl_caps c, hello_protocol_version = LATEST_PROTOCOL_VERSION\<rparr>"
proof -
  obtain m where m: "client_capabilities_to_json (cl_caps c) = JObj m"
    by (simp add: client_capabilities_to_json_def)
  then have "client_capabilities_from_json (JObj m) = Inr (cl_caps c)"
    using client_capabilities_codec.dec_enc [of "cl_caps c"] by simp
  with m show ?thesis
    by (simp add: client_hello_of_def Let_def)
qed

lemma server_answers_initialize:
  assumes "i \<noteq> NullId" "h_initialize (active_handlers s) = None"
  shows "on_message env False (serialize_request (initialize_request i c)) (Some k) sid s =
    ((record_client_hello (make_initialize_params c) sid s)
        \<lparr>sv_negotiated := LATEST_PROTOCOL_VERSION,
         sv_responses := sv_responses s @ [(k, make_success_response i
            (initialize_result_to_json (server_hello LATEST_PROTOCOL_VERSION s)))]\<rparr>, None)"
proof -
  have "parse_message (se_what env) (serialize_request (initialize_request i c)) = PRequest (initialize_request i c)"
    using assms(1) by (intro parse_built_request) (simp_all add: initialize_request_def structured_initialize)
  then show ?thesis
    using assms(2)
    by (simp add: on_message_def initialize_request_def is_deferrable_def process_request_def dispatch_method_def
        handle_initialize_def Let_def reply_def negotiate_latest respond_def record_client_hello_def server_hello_def)
qed

lemma server_takes_initialized:
  "on_message env b initialized_message sink sid s = (s\<lparr>sv_initialized := True\<rparr>, None)"
proof -
  have "parse_message (se_what env) initialized_message
      = PNotification \<lparr>notif_method = NOTIF_INITIALIZED, notif_params = None\<rparr>"
    unfolding initialized_message_def by (rule parse_built_notification) (simp add: structured_def)
  then show ?thesis
    by (simp add: on_message_def process_notification_def)
qed

text \<open>C8: The handshake of the two sides. When the client's \<open>initialize\<close> request reaches a server with
  the default initialize handler and the server's answer reaches the client, the client is connected
  and knows exactly the server's capabilities and name, under the latest protocol version; the server
  has recorded exactly the client's capabilities for the session; and the one message the client
  then sends makes the server accept the other requests.\<close>

theorem handshake_end_to_end:
  assumes "cinv c" "map_of (cl_pending c) i = Some a" "pr_state (cl_reqs c ! a) = Waiting"
    and "pr_method (cl_reqs c ! a) = METHOD_INITIALIZE" "cl_transport c" "i \<noteq> NullId"
    and "h_initialize (active_handlers s) = None"
    and "s' = fst (on_message env False (serialize_request (initialize_request i c)) (Some k) sid s)"
    and "c' = fst (on_transport_message cenv (snd (last (sv_responses s'))) c)"
    and "last (cl_calls c') = TSend m"
  shows "cl_connected c' \<and> cl_server_result c' = Some (server_hello LATEST_PROTOCOL_VERSION s)
    \<and> map_of (sv_hellos s') sid
        = Some \<lparr>hello_capabilities = cl_caps c, hello_protocol_version = LATEST_PROTOCOL_VERSION\<rparr>
    \<and> sv_initialized (fst (on_message env False m sink sid s'))"
proof -
  have s': "s' = (record_client_hello (make_initialize_params c) sid s)
      \<lparr>sv_negotiated := LATEST_PROTOCOL_VERSION,
       sv_responses := sv_responses s @ [(k, make_success_response i
          (initialize_result_to_json (server_hello LATEST_PROTOCOL_VERSION s)))]\<rparr>"
    using assms(8) by (simp add: server_answers_initialize [OF assms(6,7)])
  then have c': "c' = fst (on_transport_message cenv
      (make_success_response i (initialize_result_to_json (server_hello LATEST_PROTOCOL_VERSION s))) c)"
    using assms(9) by simp
  have "is_supported_version (ir_protocol_version (server_hello LATEST_PROTOCOL_VERSION s))"
    by (simp add: server_hello_def version_defs)
  note effect = handshake_effect(1) [OF assms(1-5) c' this]
  have "m = initialized_message"
    using effect assms(10) by (simp add: initialized_message_def)
  then show ?thesis
    using effect by (simp add: server_takes_initialized s' record_client_hello_def map_of_oset hello_of_client)
qed

lemma ex_sent_facts:
  "map_of (cl_pending ex_sent) (IntId 1) = Some 0" "pr_state (cl_reqs ex_sent ! 0) = Waiting"
  "pr_method (cl_reqs ex_sent ! 0) = METHOD_INITIALIZE" "cl_transport ex_sent"
  using ex_sent_stage by (simp_all add: stage_def)

theorem handshake_end_to_end_witness:
  "cl_connected (fst (on_transport_message ex_env (snd (last (sv_responses
     (fst (on_message ex_senv False (serialize_request (initialize_request (IntId 1) ex_sent)) (Some 0) [] ex_srv))))) ex_sent))"
proof -
  let ?s = "fst (on_message ex_senv False (serialize_request (initialize_request (IntId 1) ex_sent)) (Some 0) [] ex_srv)"
  have h: "h_initialize (active_handlers ex_srv) = None"
    by (simp add: ex_srv_def McpServer_def active_handlers_def no_handlers_def)
  have "\<exists>m. last (cl_calls (fst (on_transport_message ex_env (snd (last (sv_responses ?s))) ex_sent))) = TSend m"
    using handshake_effect(1) [OF ex_sent_cinv ex_sent_facts refl, of "server_hello LATEST_PROTOCOL_VERSION ex_srv" ex_env]
    by (simp add: server_answers_initialize [OF _ h] server_hello_def version_defs)
  then show ?thesis
    using handshake_end_to_end [OF ex_sent_cinv ex_sent_facts _ h refl refl, where env = ex_senv and cenv = ex_env] by auto
qed


section \<open>Reading a list page by page\<close>

text \<open>A client that calls \<open>list_tools\<close> with the cursor it got last until it gets none. The result of one
  call is what it reads from the server's answer; \<open>None\<close> when the call fails or the fuel is used
  up.\<close>

definition list_tools_call :: "string option \<Rightarrow> server \<Rightarrow> (tool list \<times> string) option" where
  "list_tools_call cur s =
     (case fst (handle_tools_list (IntId 1) (list_params cur) s) of
        Inl e \<Rightarrow> None
      | Inr resp \<Rightarrow>
          (case parse_message_client (\<lambda>_. []) resp of
             Inr (PSuccess k) \<Rightarrow> (case list_tools_result (ok_result k) of Inl e \<Rightarrow> None | Inr r \<Rightarrow> Some r)
           | _ \<Rightarrow> None))"

fun collect_tools :: "nat \<Rightarrow> string option \<Rightarrow> server \<Rightarrow> tool list option" where
  "collect_tools 0 cur s = None"
| "collect_tools (Suc n) cur s =
     (case list_tools_call cur s of None \<Rightarrow> None
      | Some (ts, nxt) \<Rightarrow> if nxt = [] then Some ts else map_option (append ts) (collect_tools n (Some nxt) s))"

lemma page_result:
  "list_tools_result (JObj (oset_opt ''nextCursor'' (map_option JStr nxt) [(''tools'', JArr (map tool_to_json ts))]))
     = Inr (ts, case nxt of None \<Rightarrow> [] | Some c \<Rightarrow> c)"
  using tool_codec.vector_enc [of ts]
  by (cases nxt) (simp_all add: list_tools_result_def list_result_def take_next_cursor_def opt_else_def list_all_iff)

lemma list_page_exact:
  assumes "unat off + unat ps < 2 ^ 64" "length xs < 2 ^ 64"
  shows "list_page ps off xs = Inr (take (unat ps) (drop (unat off) xs),
    if unat off + unat ps < length xs then Some (nat_to_dec (unat off + unat ps)) else None)"
proof -
  let ?n = "word_of_nat (length xs) :: 64 word"
  have n: "unat ?n = length xs"
    using assms(2) by (simp add: unat_of_nat)
  have sum: "unat (off + ps) = unat off + unat ps"
    using assms(1) by (simp only: unat_word_ariths bits64 mod_less)
  have fin: "unat (min (off + ps) ?n) = min (unat off + unat ps) (length xs)"
    and ini: "unat (min off ?n) = min (unat off) (length xs)"
    by (simp_all add: min_def word_le_nat_alt n sum)
  have le: "\<not> min (off + ps) ?n < min off ?n" and lt: "min (off + ps) ?n < ?n \<longleftrightarrow> unat off + unat ps < length xs"
    unfolding word_less_nat_alt fin ini n by linarith+
  show ?thesis
    unfolding list_page_def Let_def fin ini using le lt
    by (auto simp: min_def not_less)
qed

lemma list_tools_call_page:
  fixes off :: "64 word"
  assumes "sv_page_size s > 0" "tool_items (active_handlers s) = Inr (map tool_to_json ts)"
    and "length ts + unat (sv_page_size s) < 2 ^ 64" "unat off \<le> length ts"
    and "cur = Some (nat_to_dec (unat off)) \<or> cur = None \<and> off = 0"
  shows "list_tools_call cur s = Some (take (unat (sv_page_size s)) (drop (unat off) ts),
    if unat off + unat (sv_page_size s) < length ts then nat_to_dec (unat off + unat (sv_page_size s)) else [])"
proof -
  have "cursor_offset (IntId 1) True (list_params cur) = Inr (Inr off)"
    using assms(5) cursor_roundtrip [of "IntId 1" off]
    by (auto simp: list_params_def jobject_def cursor_offset_def)
  moreover have "unat off + unat (sv_page_size s) < 2 ^ 64" "length (map tool_to_json ts) < 2 ^ 64"
    using assms(3,4) by simp_all
  ultimately show ?thesis
    using assms(1,2)
    by (simp add: list_tools_call_def handle_tools_list_def handle_list_request_def Let_def list_page_exact
        parse_built_success page_result take_map drop_map)
qed

lemma collect_from:
  fixes off :: "64 word"
  assumes "sv_page_size s > 0" "tool_items (active_handlers s) = Inr (map tool_to_json ts)"
    and "length ts + unat (sv_page_size s) < 2 ^ 64" "unat off \<le> length ts"
    and "cur = Some (nat_to_dec (unat off)) \<or> cur = None \<and> off = 0" "length ts - unat off < n"
  shows "collect_tools n cur s = Some (drop (unat off) ts)"
  using assms(4-6)
proof (induction n arbitrary: cur off)
  case (Suc n)
  let ?ps = "unat (sv_page_size s)"
  note page = list_tools_call_page [OF assms(1-3) Suc.prems(1,2)]
  show ?case
  proof (cases "unat off + ?ps < length ts")
    case True
    have off': "unat (off + sv_page_size s) = unat off + ?ps"
      using assms(3) True by (simp only: unat_word_ariths bits64 mod_less)
    have "0 < ?ps"
      using assms(1) by (simp add: word_less_nat_alt)
    then have "collect_tools n (Some (nat_to_dec (unat off + ?ps))) s = Some (drop (unat off + ?ps) ts)"
      using Suc.IH [of "off + sv_page_size s" "Some (nat_to_dec (unat off + ?ps))"] True Suc.prems(3)
      by (simp add: off')
    moreover have "take ?ps (drop (unat off) ts) @ drop (unat off + ?ps) ts = drop (unat off) ts"
      using append_take_drop_id [of ?ps "drop (unat off) ts"] by (simp add: add.commute)
    ultimately show ?thesis
      using True page by simp
  next
    case False
    then show ?thesis
      using page by simp
  qed
qed simp

text \<open>C30: Paging is complete and ends. A client that follows \<open>nextCursor\<close> from the first page gets
  exactly the server's tools, each once and in order, whatever the page size, in at most one call
  more than there are tools; no call fails.\<close>

theorem paging_is_complete:
  assumes "sv_page_size s > 0" "tool_items (active_handlers s) = Inr (map tool_to_json ts)"
    and "length ts + unat (sv_page_size s) < 2 ^ 64"
  shows "collect_tools (Suc (length ts)) None s = Some ts"
  using collect_from [OF assms, of 0 None "Suc (length ts)"] by simp

theorem paging_is_complete_witness:
  "collect_tools (Suc (Suc 0)) None (ex_running\<lparr>sv_page_size := 1\<rparr>) = Some [ex_tool]"
proof -
  have "tool_items (active_handlers (ex_running\<lparr>sv_page_size := 1\<rparr>)) = Inr (map tool_to_json [ex_tool])"
    by (simp add: ex_running_def run_def register_tool_def registering_def ensure_pre_run_def McpServer_def
      update_handlers_def warn_if_def connect_transport_def slog_def Let_def active_handlers_def no_handlers_def
      tool_items_def list_items_def)
  then show ?thesis
    using paging_is_complete [of "ex_running\<lparr>sv_page_size := 1\<rparr>" "[ex_tool]"] by (simp del: collect_tools.simps)
qed


section \<open>A request of the server, there and back\<close>

lemma request_sampling_sent:
  assumes "sv_transport s" "sv_running s" "client_has (\<lambda>c. cc_sampling c \<noteq> None) sid s" "\<And>x. se_send env x = None"
    and "request_sampling env p True True sid s = (b, s')"
  shows "b \<and> sv_sent s' = sv_sent s @ [(ToSession sid, serialize_request
        \<lparr>req_id = IntId (sv_next_outbound s), req_method = METHOD_SAMPLING_CREATE,
         req_params = Some (create_message_params_to_json p)\<rparr>)]
    \<and> (\<exists>ob. map_of (sv_outbound s') (sv_next_outbound s) = Some ob \<and> ob_kind ob = SamplingKind
          \<and> ob_on_result ob \<and> ob_on_error ob)
    \<and> sv_called s' = sv_called s"
  using assms
  by (auto simp: request_sampling_def send_server_request_def transport_send_def Let_def map_of_oset)

lemma client_answers_sampling:
  assumes "cl_sampling_handler c = Some h" "\<not> cl_executor c" "create_message_params_ok p" "i \<noteq> NullId"
  shows "fst (on_transport_message cenv (serialize_request \<lparr>req_id = i, req_method = METHOD_SAMPLING_CREATE,
      req_params = Some (create_message_params_to_json p)\<rparr>) c)
    = post (Reply (inbound_reply cenv i (bindE (h p) (\<lambda>r. Inr (create_message_result_to_json r))))) c"
proof -
  let ?r = "\<lparr>req_id = i, req_method = METHOD_SAMPLING_CREATE, req_params = Some (create_message_params_to_json p)\<rparr>"
  have "structured (req_params ?r)"
    by (simp add: structured_def create_message_params_to_json_def)
  then have "parse_message_client (ce_what cenv) (serialize_request ?r) = Inr (PRequest ?r)"
    using assms(4) by (intro parse_client_request) simp_all
  then show ?thesis
    using assms(1,2) create_message_params_codec.dec_enc [OF assms(3)]
    by (simp add: on_transport_message_def handle_inbound_request_def dispatch_inbound_request_def Let_def
        run_sampling_def run_inbound_def params_or_empty_def)
qed


definition ex_question :: create_message_params where
  "ex_question = \<lparr>cmp_messages = [], cmp_model_preferences = None, cmp_system_prompt = None, cmp_include_context = None,
     cmp_temperature = None, cmp_max_tokens = None, cmp_stop_sequences = [], cmp_metadata = None\<rparr>"

definition ex_sampler :: client where
  "ex_sampler = ex_new\<lparr>cl_sampling_handler := Some (\<lambda>_. Inr ex_answer)\<rparr>"



section \<open>The client over HTTP\<close>

lemma null_id_not_pending: "cinv c \<Longrightarrow> map_of (cl_pending c) NullId = None"
proof (rule ccontr)
  assume c: "cinv c" "map_of (cl_pending c) NullId \<noteq> None"
  then obtain a where "(NullId, a) \<in> set (cl_pending c)" by (auto dest: map_of_SomeD)
  with c(1) have a: "a < length (cl_reqs c)" "NullId = pr_id (cl_reqs c ! a) \<or> own_token (cl_reqs c ! a) = Some NullId"
    by (auto simp: cinv_def table_ok_def)
  moreover have "own_token r \<noteq> Some NullId" for r by (auto simp: own_token_def is_null_id_def)
  ultimately have "NullId \<in> set (map pr_id (cl_reqs c))" by (metis length_map nth_map nth_mem)
  with c(1) show False by (auto simp: cinv_def ids_ok_def Let_def)
qed

lemma status_reply_parsed:
  "\<exists>d. parse_message_client what (status_reply env st text) = Inr (PError \<lparr>err_id = NullId, err_error = d\<rparr>)"
proof -
  obtain d where "status_reply env st text = make_error_response NullId (fst (status_error st)) (snd (status_error st)) d"
    by (simp add: status_reply_def Let_def make_error_response_def)
  moreover have "int32_range (fst (status_error st))"
    by (simp add: status_error_def int32_range_def CLIENT_NOT_CONNECTED_def INVALID_REQUEST_def REQUEST_FAILED_def INTERNAL_ERROR_def)
  ultimately show ?thesis by (simp add: parse_built_error)
qed

text \<open>An HTTP error completes no request. The message that the HTTP transport makes up for a response that is neither
  200 nor 202 has no id; the client, in any reachable state, finds no request for it and is left as it
  was: the request that failed goes on waiting, until it times out.\<close>

theorem http_error_leaves_requests_waiting:
  assumes "client_start c0" "(client_step cenv P)\<^sup>*\<^sup>* c0 c"
    and "le_handler env = Some (\<lambda>m c. (([], None), fst (on_transport_message cenv m c)))" "ct_on_message s"
    and "ct_status s \<noteq> 200" "ct_status s \<noteq> 202"
  shows "snd (fst (handle_response env s c)) = c"
proof -
  have "cinv c" using cl.reachable_inv [OF assms(1,2)] .
  then have "map_of (cl_pending c) NullId = None" by (rule null_id_not_pending)
  moreover obtain d where "parse_message_client (ce_what cenv) (status_reply env (ct_status s) (ct_body s))
      = Inr (PError \<lparr>err_id = NullId, err_error = d\<rparr>)"
    using status_reply_parsed by blast
  ultimately have "fst (on_transport_message cenv (status_reply env (ct_status s) (ct_body s)) c) = c"
    by (simp add: on_transport_message_def complete_pending_def)
  then show ?thesis using assms(3-6) by (simp add: handle_response_def call_handler_def)
qed

definition ex_bridge :: "client line_env" where
  "ex_bridge = \<lparr>le_parse = (\<lambda>t. Inl []), le_dump = (\<lambda>j. Inr []), le_what = (\<lambda>_. []),
     le_handler = Some (\<lambda>m c. (([], None), fst (on_transport_message ex_env m c)))\<rparr>"

theorem http_error_leaves_requests_waiting_witness:
  "pr_state (cl_reqs (snd (fst (handle_response ex_bridge (ex_http_client\<lparr>ct_status := 404\<rparr>) ex_ping))) ! 1) = Waiting"
proof -
  have "le_handler ex_bridge = Some (\<lambda>m c. (([], None), fst (on_transport_message ex_env m c)))" by (simp add: ex_bridge_def)
  moreover have "ct_on_message (ex_http_client\<lparr>ct_status := 404\<rparr>)" "ct_status (ex_http_client\<lparr>ct_status := 404\<rparr>) \<noteq> 200"
    "ct_status (ex_http_client\<lparr>ct_status := 404\<rparr>) \<noteq> 202"
    by (simp_all add: ex_http_client_def HttpClientTransport_def)
  ultimately have "snd (fst (handle_response ex_bridge (ex_http_client\<lparr>ct_status := 404\<rparr>) ex_ping)) = ex_ping"
    by (rule http_error_leaves_requests_waiting [OF ex_new_start ex_ping_reachable])
  moreover have "cl_reqs ex_ping = [ex_done_req, ex_ping_req]" using ex_ping_stage by (simp add: stage_def)
  ultimately show ?thesis by (simp add: ex_ping_req_def PendingRequest_def)
qed

end
